theory Spec2Isabelle
  imports Main "HOL-Library.Word" "HOL-Library.Sublist"
begin

unbundle bit_operations_syntax

section \<open>krouter: GRE tunnels, static routes and ECMP routes from a watched file\<close>

text \<open>
  The repository holds the program twice: \<^verbatim>\<open>src/main.go\<close>, and a second listing of
  \<^verbatim>\<open>main.go\<close> inside \<^verbatim>\<open>src/README.md\<close> (lines 46-319). The listing in the README
  adds the existence probes \<open>tunnelExists\<close>, \<open>routeExists\<close> and \<open>ecmpRouteExists\<close>
  and lets \<open>execCommand\<close> return the captured standard output. Both are embedded here.
  Definitions taken from \<^verbatim>\<open>src/main.go\<close> keep the Go names; definitions taken from
  the listing in \<^verbatim>\<open>src/README.md\<close> carry the suffix \<open>_R\<close> where the name is used by
  both. \<open>getFileMD5\<close> and \<open>loadConfig\<close> are the same text in both files.

  The two listings also differ in their log writer. In \<^verbatim>\<open>src/main.go\<close> the writer
  installed by \<open>initLogger\<close> writes back into the logger it serves, so a call of
  \<open>logger\<close> does not return when info logging is on; the functions of
  \<^verbatim>\<open>src/main.go\<close> therefore have results of type \<open>run\<close>, which says whether the call
  returns. The writer of the listing in the README returns always.
\<close>

subsection \<open>Data model (type Config)\<close>

type_synonym bytes = "8 word list"

text \<open>A Go \<open>error\<close> value: \<open>None\<close> is \<open>nil\<close>, \<open>Some m\<close> an error whose text is \<open>m\<close>.\<close>

type_synonym error = "string option"

record Logging =
  Info :: bool
  Error :: bool
  Debug :: bool

record ProgramSettings =
  LogFilePath :: string
  Logging :: Logging

record GRETunnel =
  Name :: string
  LocalIP :: string
  RemoteIP :: string
  TunnelIP :: string
  SubnetMask :: string

record StaticRoute =
  Destination :: string
  Gateway :: string

text \<open>\<open>Weight\<close> is a Go \<open>int\<close> (64 bits); it is only ever printed, through \<open>sint\<close>.\<close>

record Nexthop =
  Dev :: string
  Via :: string
  Weight :: "64 word"

record ECMPRoute =
  Route :: string
  Table :: string
  Nexthops :: "Nexthop list"

record Config =
  ProgramSettings :: ProgramSettings
  GRETunnels :: "GRETunnel list"
  StaticRoutes :: "StaticRoute list"
  ECMPRoutes :: "ECMPRoute list"

text \<open>The zero value of \<open>Config\<close>, which the package variable \<open>config\<close> holds at start.\<close>

definition zeroConfig :: Config where
  "zeroConfig =
     \<lparr>ProgramSettings = \<lparr>LogFilePath = [], Logging = \<lparr>Info = False, Error = False, Debug = False\<rparr>\<rparr>,
      GRETunnels = [], StaticRoutes = [], ECMPRoutes = []\<rparr>"

subsection \<open>The outside world\<close>

text \<open>
  Everything the program reaches through the operating system or a library that is not
  its own is a field of the environment, acting on a world of any type \<open>'w\<close>:
  \<^item> \<open>Run command args\<close> is \<open>exec.Command(command, args...).Run()\<close>: the captured
    standard output and the error;
  \<^item> \<open>ReadFile path\<close> is \<open>ioutil.ReadFile\<close>;
  \<^item> \<open>Unmarshal data cfg\<close> is \<open>yaml.Unmarshal(data, &config)\<close> on the current value of
    \<open>config\<close>: it decodes in place, so it returns the new value also when it fails;
  \<^item> \<open>OpenFile path\<close> is the \<open>os.OpenFile\<close> of \<open>initLogger\<close>;
  \<^item> \<open>NewWatcher\<close> and \<open>WatcherAdd path\<close> are \<open>fsnotify.NewWatcher()\<close> and
    \<open>watcher.Add(path)\<close>.
  Each may change the world, and the world may change by itself between two calls
  (it is part of \<open>'w\<close>), so a file can differ between two reads.
\<close>

record 'w env =
  Run :: "string \<Rightarrow> string list \<Rightarrow> 'w \<Rightarrow> (string \<times> error) \<times> 'w"
  ReadFile :: "string \<Rightarrow> 'w \<Rightarrow> (bytes \<times> error) \<times> 'w"
  Unmarshal :: "bytes \<Rightarrow> Config \<Rightarrow> Config \<times> error"
  OpenFile :: "string \<Rightarrow> 'w \<Rightarrow> error \<times> 'w"
  NewWatcher :: "'w \<Rightarrow> error \<times> 'w"
  WatcherAdd :: "string \<Rightarrow> 'w \<Rightarrow> error \<times> 'w"

text \<open>
  The flags a \<open>logWriter\<close> is built with (\<^verbatim>\<open>main.go\<close> lines 62-67, README lines
  109-115). The loggers a \<open>logWriter\<close> holds are not values of the model: which they
  are is what the two \<open>Write\<close> methods below differ in.
\<close>

record logWriter =
  infoEnabled :: bool
  errorEnabled :: bool
  debugEnabled :: bool

text \<open>
  The program state: the package variables \<open>currentHash\<close> and \<open>config\<close>; \<open>logger\<close>,
  the writer that \<open>initLogger\<close> has installed as the output of the package variable
  \<open>logger\<close>; the world; and two observations: \<open>trace\<close>, the commands handed to
  \<open>execCommand\<close> (program name first, oldest first), and \<open>logged\<close>, the messages
  handed to \<open>logger\<close> (oldest first, without the final newline).
\<close>

record 'w state =
  world :: 'w
  trace :: "string list list"
  logged :: "string list"
  currentHash :: string
  config :: Config
  logger :: logWriter

subsection \<open>Library functions the program calls\<close>

text \<open>\<open>strconv.Itoa\<close>: decimal digits, with a minus sign for a negative number.\<close>

function natDigits :: "nat \<Rightarrow> string" where
  "natDigits n =
     (if n < 10 then [''0123456789'' ! n]
      else natDigits (n div 10) @ [''0123456789'' ! (n mod 10)])"
  by pat_completeness auto
termination
  by (relation "measure id") auto

declare natDigits.simps [simp del]

definition Itoa :: "int \<Rightarrow> string" where
  "Itoa i = (if i < 0 then CHR ''-'' # natDigits (nat (- i)) else natDigits (nat i))"

text \<open>\<open>strings.Join(elems, sep)\<close>.\<close>

fun Join :: "string list \<Rightarrow> string \<Rightarrow> string" where
  "Join [] sep = []"
| "Join [x] sep = x"
| "Join (x # y # ys) sep = x @ sep @ Join (y # ys) sep"

subsection \<open>\<^verbatim>\<open>src/main.go\<close>: calls that may not return\<close>

text \<open>
  A call in \<^verbatim>\<open>src/main.go\<close> either returns a value in a new state, or it never
  returns: \<open>Blocks s\<close>, where \<open>s\<close> is the state at the moment the goroutine stops for
  good (it waits for ever, or the Go runtime ends the process because no goroutine can
  run). \<open>bind\<close> is sequencing: what follows a call that does not return is not run.
\<close>

datatype ('a, 'w) run = Returns 'a "'w state" | Blocks "'w state"

definition bind :: "('a, 'w) run \<Rightarrow> ('a \<Rightarrow> 'w state \<Rightarrow> ('b, 'w) run) \<Rightarrow> ('b, 'w) run" where
  "bind r k = (case r of Returns a s \<Rightarrow> k a s | Blocks s \<Rightarrow> Blocks s)"

text \<open>
  \<open>logWriter.Write\<close> (lines 69-74) and \<open>initLogger\<close> (lines 53-60). \<open>initLogger\<close>
  makes \<open>logWriter{logger, ...}\<close> the output of \<open>logger\<close> itself. \<open>logger.Printf\<close>
  formats the message and calls \<open>Write\<close> on that output while it holds the logger's
  lock; with \<open>infoEnabled\<close>, \<open>Write\<close> calls \<open>Output\<close> on the same logger, which waits
  for the lock that its caller holds: the call never returns. Without \<open>infoEnabled\<close>,
  \<open>Write\<close> drops the message and returns. (Line 71 returns the one result of
  \<open>Output\<close> from a function that declares two, which the Go compiler refuses; the
  model reads it as handing on the error of \<open>Output\<close>.)
\<close>

definition logWriter_Write :: "string \<Rightarrow> 'w state \<Rightarrow> (unit, 'w) run" where
  "logWriter_Write p s = (if infoEnabled (logger s) then Blocks s else Returns () s)"

definition logger_Printf :: "string \<Rightarrow> 'w state \<Rightarrow> (unit, 'w) run" where
  "logger_Printf msg s = logWriter_Write msg (s\<lparr>logged := logged s @ [msg]\<rparr>)"

text \<open>\<open>logger.Println(a, b)\<close> separates its operands by one space.\<close>

definition logger_Println :: "string \<Rightarrow> string \<Rightarrow> 'w state \<Rightarrow> (unit, 'w) run" where
  "logger_Println a b s = logWriter_Write (a @ '' '' @ b) (s\<lparr>logged := logged s @ [a @ '' '' @ b]\<rparr>)"

subsection \<open>\<^verbatim>\<open>src/main.go\<close>: applying the configuration\<close>

text \<open>\<open>execCommand\<close> (lines 76-81) runs the command and returns its error only.\<close>

definition execCommand :: "'w env \<Rightarrow> string \<Rightarrow> string list \<Rightarrow> 'w state \<Rightarrow> error \<times> 'w state" where
  "execCommand env command args s =
     (case Run env command args (world s) of
        ((out, err), w) \<Rightarrow> (err, s\<lparr>world := w, trace := trace s @ [command # args]\<rparr>))"

text \<open>
  \<open>setupGRETunnels\<close> (lines 83-100). The body of the loop over \<open>config.GRETunnels\<close>
  is \<open>tunnelStep\<close>, in two parts: \<open>tunnelDelete\<close> (lines 85-87) deletes the tunnel and
  logs a failure; \<open>tunnelCreate\<close> (lines 88-97) adds it, gives it its address and
  brings it up, where \<open>Some e\<close> is a \<open>return err\<close> and \<open>None\<close> is reaching the end of
  the body. The loop goes on to the next tunnel only then.
\<close>

definition tunnelDelete :: "'w env \<Rightarrow> GRETunnel \<Rightarrow> 'w state \<Rightarrow> (unit, 'w) run" where
  "tunnelDelete env tunnel s =
     (case execCommand env ''ip'' [''tunnel'', ''del'', Name tunnel] s of
        (Some e, s0) \<Rightarrow> logger_Printf (''Failed to delete tunnel '' @ Name tunnel @ '': '' @ e) s0
      | (None, s0) \<Rightarrow> Returns () s0)"

definition tunnelCreate :: "'w env \<Rightarrow> GRETunnel \<Rightarrow> 'w state \<Rightarrow> (error, 'w) run" where
  "tunnelCreate env tunnel s1 =
     (case execCommand env ''ip''
             [''tunnel'', ''add'', Name tunnel, ''mode'', ''gre'',
              ''local'', LocalIP tunnel, ''remote'', RemoteIP tunnel] s1 of
        (Some e, s2) \<Rightarrow> Returns (Some e) s2
      | (None, s2) \<Rightarrow>
          (case execCommand env ''ip''
                  [''addr'', ''add'', TunnelIP tunnel @ ''/'' @ SubnetMask tunnel,
                   ''dev'', Name tunnel] s2 of
             (Some e, s3) \<Rightarrow> Returns (Some e) s3
           | (None, s3) \<Rightarrow>
               (case execCommand env ''ip'' [''link'', ''set'', Name tunnel, ''up''] s3 of
                  (Some e, s4) \<Rightarrow> Returns (Some e) s4
                | (None, s4) \<Rightarrow>
                    bind (logger_Printf (''Configured tunnel: '' @ Name tunnel) s4)
                      (\<lambda>u s5. Returns None s5))))"

definition tunnelStep :: "'w env \<Rightarrow> GRETunnel \<Rightarrow> 'w state \<Rightarrow> (error, 'w) run" where
  "tunnelStep env tunnel s = bind (tunnelDelete env tunnel s) (\<lambda>u s1. tunnelCreate env tunnel s1)"

fun tunnelsLoop :: "'w env \<Rightarrow> GRETunnel list \<Rightarrow> 'w state \<Rightarrow> (error, 'w) run" where
  "tunnelsLoop env [] s = Returns None s"
| "tunnelsLoop env (tunnel # rest) s =
     (case tunnelStep env tunnel s of
        Returns (Some e) s' \<Rightarrow> Returns (Some e) s'
      | Returns None s' \<Rightarrow> tunnelsLoop env rest s'
      | Blocks s' \<Rightarrow> Blocks s')"

definition setupGRETunnels :: "'w env \<Rightarrow> 'w state \<Rightarrow> (error, 'w) run" where
  "setupGRETunnels env s = tunnelsLoop env (GRETunnels (config s)) s"

text \<open>
  \<open>setupStaticRoutes\<close> (lines 102-111): one \<open>ip route add\<close> for every route.
  \<open>staticStep\<close> is the body of the loop; nothing in it leaves the loop.
\<close>

definition staticStep :: "'w env \<Rightarrow> StaticRoute \<Rightarrow> 'w state \<Rightarrow> (unit, 'w) run" where
  "staticStep env route s =
     (case execCommand env ''ip''
             [''route'', ''add'', Destination route, ''via'', Gateway route] s of
        (Some e, s1) \<Rightarrow>
          logger_Printf (''Failed to add static route '' @ Destination route @ '' via ''
                           @ Gateway route @ '': '' @ e) s1
      | (None, s1) \<Rightarrow>
          logger_Printf (''Added static route: '' @ Destination route @ '' via ''
                           @ Gateway route) s1)"

fun staticLoop :: "'w env \<Rightarrow> StaticRoute list \<Rightarrow> 'w state \<Rightarrow> (error, 'w) run" where
  "staticLoop env [] s = Returns None s"
| "staticLoop env (route # rest) s =
     (case staticStep env route s of
        Returns u s' \<Rightarrow> staticLoop env rest s'
      | Blocks s' \<Rightarrow> Blocks s')"

definition setupStaticRoutes :: "'w env \<Rightarrow> 'w state \<Rightarrow> (error, 'w) run" where
  "setupStaticRoutes env s = staticLoop env (StaticRoutes (config s)) s"

text \<open>
  \<open>setupECMPRoutes\<close> (lines 113-127). The inner loop appends six arguments for each
  nexthop to \<open>nexthopArgs\<close>, which starts empty; \<open>ecmpArgs\<close> is the value of \<open>args\<close>
  and \<open>ecmpStep\<close> the body of the outer loop.
\<close>

definition nexthopArgs :: "Nexthop list \<Rightarrow> string list" where
  "nexthopArgs nhs =
     foldl (\<lambda>acc nh. acc @ [''nexthop'', ''dev'', Dev nh, ''via'', Via nh,
                              ''weight'', Itoa (sint (Weight nh))]) [] nhs"

definition ecmpArgs :: "ECMPRoute \<Rightarrow> string list" where
  "ecmpArgs ecmp =
     [''route'', ''add'', Route ecmp, ''proto'', ''static'', ''scope'', ''global'',
      ''table'', Table ecmp] @ nexthopArgs (Nexthops ecmp)"

definition ecmpStep :: "'w env \<Rightarrow> ECMPRoute \<Rightarrow> 'w state \<Rightarrow> (unit, 'w) run" where
  "ecmpStep env ecmp s =
     (let args = ecmpArgs ecmp
      in case execCommand env ''ip'' args s of
           (Some e, s1) \<Rightarrow>
             logger_Printf (''Failed to add ECMP route '' @ Route ecmp @ '': '' @ e) s1
         | (None, s1) \<Rightarrow>
             logger_Printf (''Added ECMP route: '' @ Join args '' '') s1)"

fun ecmpLoop :: "'w env \<Rightarrow> ECMPRoute list \<Rightarrow> 'w state \<Rightarrow> (error, 'w) run" where
  "ecmpLoop env [] s = Returns None s"
| "ecmpLoop env (ecmp # rest) s =
     (case ecmpStep env ecmp s of
        Returns u s' \<Rightarrow> ecmpLoop env rest s'
      | Blocks s' \<Rightarrow> Blocks s')"

definition setupECMPRoutes :: "'w env \<Rightarrow> 'w state \<Rightarrow> (error, 'w) run" where
  "setupECMPRoutes env s = ecmpLoop env (ECMPRoutes (config s)) s"

subsection \<open>\<^verbatim>\<open>src/README.md\<close>: the same functions with existence probes\<close>

text \<open>
  \<open>logWriter.Write\<close> of this listing (README lines 117-124) passes the message to two
  loggers of its own, one on standard output and one on the log file, when one of the
  three flags is on, and returns. A call of \<open>logger\<close> therefore returns always; the
  message handed to it is recorded in \<open>logged\<close>.
\<close>

definition logger_Printf_R :: "string \<Rightarrow> 'w state \<Rightarrow> 'w state" where
  "logger_Printf_R msg s = s\<lparr>logged := logged s @ [msg]\<rparr>"

definition logger_Println_R :: "string \<Rightarrow> string \<Rightarrow> 'w state \<Rightarrow> 'w state" where
  "logger_Println_R a b s = s\<lparr>logged := logged s @ [a @ '' '' @ b]\<rparr>"

text \<open>\<open>execCommand\<close> (README lines 126-133) returns the captured output and the error.\<close>

definition execCommand_R :: "'w env \<Rightarrow> string \<Rightarrow> string list \<Rightarrow> 'w state \<Rightarrow> (string \<times> error) \<times> 'w state" where
  "execCommand_R env command args s =
     (case Run env command args (world s) of
        ((out, err), w) \<Rightarrow> ((out, err), s\<lparr>world := w, trace := trace s @ [command # args]\<rparr>))"

text \<open>\<open>strings.Contains(s, substr)\<close>: \<open>substr\<close> starts at some position of \<open>s\<close>.\<close>

fun Contains :: "string \<Rightarrow> string \<Rightarrow> bool" where
  "Contains [] substr = (substr = [])"
| "Contains (c # s) substr = (prefix substr (c # s) \<or> Contains s substr)"

text \<open>
  \<open>bufio.Scanner\<close> with its default split function \<open>ScanLines\<close>: the input is cut
  at every newline, a final line without newline counts when it is not empty, one
  trailing carriage return is dropped from each line, and the scan stops without a
  token at the first line that does not fit the buffer of \<open>MaxScanTokenSize\<close> bytes.
\<close>

fun rawLines :: "string \<Rightarrow> string \<Rightarrow> string list" where
  "rawLines cur [] = (if cur = [] then [] else [cur])"
| "rawLines cur (c # cs) =
     (if c = CHR 0x0A then cur # rawLines [] cs else rawLines (cur @ [c]) cs)"

definition dropCR :: "string \<Rightarrow> string" where
  "dropCR l = (if l \<noteq> [] \<and> last l = CHR 0x0D then butlast l else l)"

definition MaxScanTokenSize :: nat where
  "MaxScanTokenSize = 64 * 1024"

definition ScanLines :: "string \<Rightarrow> string list" where
  "ScanLines input =
     map dropCR (takeWhile (\<lambda>l. length l < MaxScanTokenSize) (rawLines [] input))"

text \<open>\<open>tunnelExists\<close> (README lines 135-138); the error of the query is dropped.\<close>

definition tunnelExists :: "'w env \<Rightarrow> string \<Rightarrow> 'w state \<Rightarrow> bool \<times> 'w state" where
  "tunnelExists env name s =
     (case execCommand_R env ''ip'' [''tunnel'', ''show''] s of
        ((output, err), s') \<Rightarrow> (Contains output name, s'))"

text \<open>
  \<open>setupGRETunnels\<close> (README lines 140-164), with the body of its loop in two parts:
  \<open>tunnelDelete_R\<close> (lines 142-147) and \<open>tunnelCreate_R\<close> (lines 149-161).
\<close>

definition tunnelDelete_R :: "'w env \<Rightarrow> GRETunnel \<Rightarrow> 'w state \<Rightarrow> 'w state" where
  "tunnelDelete_R env tunnel s =
     (let (present, s0) = tunnelExists env (Name tunnel) s
      in if present then
           (case execCommand_R env ''ip'' [''tunnel'', ''del'', Name tunnel] s0 of
              ((out, Some e), s') \<Rightarrow>
                logger_Printf_R (''Failed to delete tunnel '' @ Name tunnel @ '': '' @ e) s'
            | ((out, None), s') \<Rightarrow> s')
         else s0)"

definition tunnelCreate_R :: "'w env \<Rightarrow> GRETunnel \<Rightarrow> 'w state \<Rightarrow> error \<times> 'w state" where
  "tunnelCreate_R env tunnel s1 =
     (case execCommand_R env ''ip''
             [''tunnel'', ''add'', Name tunnel, ''mode'', ''gre'',
              ''local'', LocalIP tunnel, ''remote'', RemoteIP tunnel] s1 of
        ((out, Some e), s2) \<Rightarrow> (Some e, s2)
      | ((out, None), s2) \<Rightarrow>
          (case execCommand_R env ''ip''
                  [''addr'', ''add'', TunnelIP tunnel @ ''/'' @ SubnetMask tunnel,
                   ''dev'', Name tunnel] s2 of
             ((out, Some e), s3) \<Rightarrow> (Some e, s3)
           | ((out, None), s3) \<Rightarrow>
               (case execCommand_R env ''ip'' [''link'', ''set'', Name tunnel, ''up''] s3 of
                  ((out, Some e), s4) \<Rightarrow> (Some e, s4)
                | ((out, None), s4) \<Rightarrow>
                    (None, logger_Printf_R (''Configured tunnel: '' @ Name tunnel) s4))))"

definition tunnelStep_R :: "'w env \<Rightarrow> GRETunnel \<Rightarrow> 'w state \<Rightarrow> error \<times> 'w state" where
  "tunnelStep_R env tunnel s = tunnelCreate_R env tunnel (tunnelDelete_R env tunnel s)"

fun tunnelsLoop_R :: "'w env \<Rightarrow> GRETunnel list \<Rightarrow> 'w state \<Rightarrow> error \<times> 'w state" where
  "tunnelsLoop_R env [] s = (None, s)"
| "tunnelsLoop_R env (tunnel # rest) s =
     (case tunnelStep_R env tunnel s of
        (Some e, s') \<Rightarrow> (Some e, s')
      | (None, s') \<Rightarrow> tunnelsLoop_R env rest s')"

definition setupGRETunnels_R :: "'w env \<Rightarrow> 'w state \<Rightarrow> error \<times> 'w state" where
  "setupGRETunnels_R env s = tunnelsLoop_R env (GRETunnels (config s)) s"

text \<open>\<open>routeExists\<close> (README lines 166-169).\<close>

definition routeExists :: "'w env \<Rightarrow> string \<Rightarrow> string \<Rightarrow> 'w state \<Rightarrow> bool \<times> 'w state" where
  "routeExists env destination gateway s =
     (case execCommand_R env ''ip'' [''route'', ''show''] s of
        ((output, err), s') \<Rightarrow> (Contains output destination \<and> Contains output gateway, s'))"

text \<open>\<open>setupStaticRoutes\<close> (README lines 171-182), with the body of its loop.\<close>

definition staticStep_R :: "'w env \<Rightarrow> StaticRoute \<Rightarrow> 'w state \<Rightarrow> 'w state" where
  "staticStep_R env route s =
     (let (present, s0) = routeExists env (Destination route) (Gateway route) s
      in if \<not> present then
           (case execCommand_R env ''ip''
                   [''route'', ''add'', Destination route, ''via'', Gateway route] s0 of
              ((out, Some e), s1) \<Rightarrow>
                logger_Printf_R (''Failed to add static route '' @ Destination route @ '' via ''
                                 @ Gateway route @ '': '' @ e) s1
            | ((out, None), s1) \<Rightarrow>
                logger_Printf_R (''Added static route: '' @ Destination route @ '' via ''
                                 @ Gateway route) s1)
         else s0)"

fun staticLoop_R :: "'w env \<Rightarrow> StaticRoute list \<Rightarrow> 'w state \<Rightarrow> error \<times> 'w state" where
  "staticLoop_R env [] s = (None, s)"
| "staticLoop_R env (route # rest) s = staticLoop_R env rest (staticStep_R env route s)"

definition setupStaticRoutes_R :: "'w env \<Rightarrow> 'w state \<Rightarrow> error \<times> 'w state" where
  "setupStaticRoutes_R env s = staticLoop_R env (StaticRoutes (config s)) s"

text \<open>
  \<open>ecmpRouteExists\<close> (README lines 184-193): the scanner's lines are tried in order
  and the first one that contains \<open>route\<close> answers true.
\<close>

definition ecmpRouteExists :: "'w env \<Rightarrow> string \<Rightarrow> string \<Rightarrow> 'w state \<Rightarrow> bool \<times> 'w state" where
  "ecmpRouteExists env route table s =
     (case execCommand_R env ''ip'' [''route'', ''show'', ''table'', table] s of
        ((output, err), s') \<Rightarrow> (list_ex (\<lambda>line. Contains line route) (ScanLines output), s'))"

text \<open>\<open>setupECMPRoutes\<close> (README lines 195-211), with the body of its loop.\<close>

definition ecmpStep_R :: "'w env \<Rightarrow> ECMPRoute \<Rightarrow> 'w state \<Rightarrow> 'w state" where
  "ecmpStep_R env ecmp s =
     (let (present, s0) = ecmpRouteExists env (Route ecmp) (Table ecmp) s
      in if \<not> present then
           (let args = ecmpArgs ecmp
            in case execCommand_R env ''ip'' args s0 of
                 ((out, Some e), s1) \<Rightarrow>
                   logger_Printf_R (''Failed to add ECMP route '' @ Route ecmp @ '': '' @ e) s1
               | ((out, None), s1) \<Rightarrow>
                   logger_Printf_R (''Added ECMP route: '' @ Join args '' '') s1)
         else s0)"

fun ecmpLoop_R :: "'w env \<Rightarrow> ECMPRoute list \<Rightarrow> 'w state \<Rightarrow> error \<times> 'w state" where
  "ecmpLoop_R env [] s = (None, s)"
| "ecmpLoop_R env (ecmp # rest) s = ecmpLoop_R env rest (ecmpStep_R env ecmp s)"

definition setupECMPRoutes_R :: "'w env \<Rightarrow> 'w state \<Rightarrow> error \<times> 'w state" where
  "setupECMPRoutes_R env s = ecmpLoop_R env (ECMPRoutes (config s)) s"

subsection \<open>The fingerprint: \<open>crypto/md5\<close> and \<open>encoding/hex\<close>\<close>

text \<open>
  \<open>md5.Sum\<close> is the MD5 message digest of RFC 1321: the message is padded with the
  byte \<open>0x80\<close>, zero bytes up to 56 modulo 64 and its length in bits as eight bytes,
  least significant first; each block of 64 bytes, read as sixteen little-endian
  words, goes through 64 steps on four 32-bit words.
\<close>

definition md5_K :: "32 word list" where
  "md5_K =
     [
      0xd76aa478, 0xe8c7b756, 0x242070db, 0xc1bdceee,
      0xf57c0faf, 0x4787c62a, 0xa8304613, 0xfd469501,
      0x698098d8, 0x8b44f7af, 0xffff5bb1, 0x895cd7be,
      0x6b901122, 0xfd987193, 0xa679438e, 0x49b40821,
      0xf61e2562, 0xc040b340, 0x265e5a51, 0xe9b6c7aa,
      0xd62f105d, 0x02441453, 0xd8a1e681, 0xe7d3fbc8,
      0x21e1cde6, 0xc33707d6, 0xf4d50d87, 0x455a14ed,
      0xa9e3e905, 0xfcefa3f8, 0x676f02d9, 0x8d2a4c8a,
      0xfffa3942, 0x8771f681, 0x6d9d6122, 0xfde5380c,
      0xa4beea44, 0x4bdecfa9, 0xf6bb4b60, 0xbebfbc70,
      0x289b7ec6, 0xeaa127fa, 0xd4ef3085, 0x04881d05,
      0xd9d4d039, 0xe6db99e5, 0x1fa27cf8, 0xc4ac5665,
      0xf4292244, 0x432aff97, 0xab9423a7, 0xfc93a039,
      0x655b59c3, 0x8f0ccc92, 0xffeff47d, 0x85845dd1,
      0x6fa87e4f, 0xfe2ce6e0, 0xa3014314, 0x4e0811a1,
      0xf7537e82, 0xbd3af235, 0x2ad7d2bb, 0xeb86d391]"

definition md5_S :: "nat list" where
  "md5_S =
     [
      7, 12, 17, 22, 7, 12, 17, 22, 7, 12, 17, 22, 7, 12, 17, 22,
      5, 9, 14, 20, 5, 9, 14, 20, 5, 9, 14, 20, 5, 9, 14, 20,
      4, 11, 16, 23, 4, 11, 16, 23, 4, 11, 16, 23, 4, 11, 16, 23,
      6, 10, 15, 21, 6, 10, 15, 21, 6, 10, 15, 21, 6, 10, 15, 21]"

definition rotl32 :: "32 word \<Rightarrow> nat \<Rightarrow> 32 word" where
  "rotl32 x n = push_bit n x OR drop_bit (32 - n) x"

type_synonym md5_state = "32 word \<times> 32 word \<times> 32 word \<times> 32 word"

fun md5_step :: "32 word list \<Rightarrow> nat \<Rightarrow> md5_state \<Rightarrow> md5_state" where
  "md5_step M i (a, b, c, d) =
     (let (f, g) =
        (if i < 16 then ((b AND c) OR (NOT b AND d), i)
         else if i < 32 then ((d AND b) OR (NOT d AND c), (5 * i + 1) mod 16)
         else if i < 48 then (b XOR c XOR d, (3 * i + 5) mod 16)
         else (c XOR (b OR NOT d), (7 * i) mod 16))
      in (d, b + rotl32 (f + a + md5_K ! i + M ! g) (md5_S ! i), b, c))"

fun le32 :: "bytes \<Rightarrow> 32 word" where
  "le32 [] = 0"
| "le32 (x # xs) = ucast x + push_bit 8 (le32 xs)"

fun words_of :: "nat \<Rightarrow> bytes \<Rightarrow> 32 word list" where
  "words_of 0 bs = []"
| "words_of (Suc n) bs = le32 (take 4 bs) # words_of n (drop 4 bs)"

definition md5_block :: "md5_state \<Rightarrow> bytes \<Rightarrow> md5_state" where
  "md5_block h blk =
     (case h of (a0, b0, c0, d0) \<Rightarrow>
        (case fold (md5_step (words_of 16 blk)) [0..<64] h of
           (a, b, c, d) \<Rightarrow> (a0 + a, b0 + b, c0 + c, d0 + d)))"

fun md5_blocks :: "nat \<Rightarrow> md5_state \<Rightarrow> bytes \<Rightarrow> md5_state" where
  "md5_blocks 0 h bs = h"
| "md5_blocks (Suc n) h bs = md5_blocks n (md5_block h (take 64 bs)) (drop 64 bs)"

definition bytes_le32 :: "32 word \<Rightarrow> bytes" where
  "bytes_le32 w = map (\<lambda>k. ucast (drop_bit (8 * k) w)) [0..<4]"

definition bytes_le64 :: "64 word \<Rightarrow> bytes" where
  "bytes_le64 w = map (\<lambda>k. ucast (drop_bit (8 * k) w)) [0..<8]"

definition md5_pad :: "bytes \<Rightarrow> bytes" where
  "md5_pad m =
     m @ [0x80] @ replicate ((55 + 64 - length m mod 64) mod 64) 0
       @ bytes_le64 (8 * of_nat (length m))"

definition md5_init :: md5_state where
  "md5_init = (0x67452301, 0xefcdab89, 0x98badcfe, 0x10325476)"

definition md5_Sum :: "bytes \<Rightarrow> bytes" where
  "md5_Sum m =
     (let p = md5_pad m
      in case md5_blocks (length p div 64) md5_init p of
           (a, b, c, d) \<Rightarrow> concat (map bytes_le32 [a, b, c, d]))"

text \<open>\<open>hex.EncodeToString\<close>: two lower-case digits for each byte, high digit first.\<close>

definition hexdigit :: "8 word \<Rightarrow> char" where
  "hexdigit n = ''0123456789abcdef'' ! unat n"

definition EncodeToString :: "bytes \<Rightarrow> string" where
  "EncodeToString bs = concat (map (\<lambda>b. [hexdigit (drop_bit 4 b), hexdigit (b AND 15)]) bs)"

text \<open>\<open>getFileMD5\<close> (\<^verbatim>\<open>main.go\<close> lines 129-138, README lines 213-222).\<close>

definition getFileMD5 :: "'w env \<Rightarrow> string \<Rightarrow> 'w state \<Rightarrow> (string \<times> error) \<times> 'w state" where
  "getFileMD5 env filePath s =
     (case ReadFile env filePath (world s) of
        ((data, Some e), w) \<Rightarrow> (([], Some e), s\<lparr>world := w\<rparr>)
      | ((data, None), w) \<Rightarrow> ((EncodeToString (md5_Sum data), None), s\<lparr>world := w\<rparr>))"

text \<open>\<open>loadConfig\<close> (\<^verbatim>\<open>main.go\<close> lines 140-151, README lines 224-235).\<close>

definition loadConfig :: "'w env \<Rightarrow> string \<Rightarrow> 'w state \<Rightarrow> error \<times> 'w state" where
  "loadConfig env filePath s =
     (case ReadFile env filePath (world s) of
        ((data, Some e), w) \<Rightarrow> (Some e, s\<lparr>world := w\<rparr>)
      | ((data, None), w) \<Rightarrow>
          (case Unmarshal env data (config s) of
             (cfg, Some e) \<Rightarrow> (Some e, s\<lparr>world := w, config := cfg\<rparr>)
           | (cfg, None) \<Rightarrow> (None, s\<lparr>world := w, config := cfg\<rparr>)))"

subsection \<open>The watch loop and \<open>main\<close>\<close>

text \<open>
  What the goroutine of \<open>watchConfigFile\<close> receives: a file event with its operation
  bits (\<open>fsnotify.Op\<close>, a \<open>uint32\<close>), or an error of the watcher. \<open>fsnotify.Write\<close>
  is the second bit of \<open>Op\<close> (\<open>Create\<close> is the first).
\<close>

datatype event = Event "32 word" | WatcherError string

definition fsnotify_Write :: "32 word" where
  "fsnotify_Write = 2"

text \<open>
  How a run ends: a \<open>Fatalf\<close> call (one constructor for each call site, with the
  error's text); or, since the watch loop itself never returns, the state reached after
  the events delivered so far; or, in \<^verbatim>\<open>src/main.go\<close>, a call of \<open>logger\<close> that
  never returns.
\<close>

datatype fatal =
    LoadConfigFailed string
  | OpenLogFailed string
  | TunnelsFailed string
  | StaticRoutesFailed string
  | ECMPRoutesFailed string
  | FileHashFailed string
  | WatcherFailed string

datatype 'w outcome = Fatal fatal "'w state" | Watched "'w state" | Blocked "'w state"

text \<open>
  The state \<open>main\<close> starts in: nothing issued or logged, no fingerprint, the zero
  configuration, no flag of the log writer on. \<open>main\<close> calls \<open>logger\<close> only after
  \<open>initLogger\<close> (line 214), which sets the flags.
\<close>

definition initial :: "'w \<Rightarrow> 'w state" where
  "initial w =
     \<lparr>world = w, trace = [], logged = [], currentHash = [], config = zeroConfig,
      logger = \<lparr>infoEnabled = False, errorEnabled = False, debugEnabled = False\<rparr>\<rparr>"

text \<open>
  \<open>initLogger\<close> (\<^verbatim>\<open>main.go\<close> lines 53-60, README lines 100-107) opens the log file,
  which can fail (\<open>log.Fatalf\<close> of the standard logger, in \<open>main\<close> below), and installs
  a \<open>logWriter\<close> with the three flags it is given.
\<close>

definition initLogger :: "'w env \<Rightarrow> string \<Rightarrow> bool \<Rightarrow> bool \<Rightarrow> bool \<Rightarrow> 'w state \<Rightarrow> error \<times> 'w state" where
  "initLogger env logFilePath info err dbg s =
     (case OpenFile env logFilePath (world s) of
        (Some e, w) \<Rightarrow> (Some e, s\<lparr>world := w\<rparr>)
      | (None, w) \<Rightarrow>
          (None, s\<lparr>world := w,
                   logger := \<lparr>infoEnabled = info, errorEnabled = err, debugEnabled = dbg\<rparr>\<rparr>))"

text \<open>
  \<open>logger.Fatalf\<close> and \<open>logger.Fatal\<close> of \<^verbatim>\<open>src/main.go\<close> write the message through
  the logger and then end the process: the process ends only if the write returns.
\<close>

definition logger_Fatalf :: "fatal \<Rightarrow> string \<Rightarrow> 'w state \<Rightarrow> 'w outcome" where
  "logger_Fatalf f msg s =
     (case logger_Printf msg s of Returns u s' \<Rightarrow> Fatal f s' | Blocks s' \<Rightarrow> Blocked s')"

text \<open>
  \<open>watchEvent\<close> is one turn of the \<open>select\<close> loop in \<open>watchConfigFile\<close>
  (\<^verbatim>\<open>main.go\<close> lines 164-196); \<open>continue\<close> ends the turn. \<open>watchLoop\<close> is the loop
  over \<open>evs\<close>, the events received until the channels are closed or the process is
  stopped; a turn that does not return is the last. \<open>watchConfigFile\<close> (lines 153-205)
  creates the watcher, registers the path and waits while the loop runs.
\<close>

definition watchEvent :: "'w env \<Rightarrow> string \<Rightarrow> event \<Rightarrow> 'w state \<Rightarrow> (unit, 'w) run" where
  "watchEvent env filePath ev s =
     (case ev of
        WatcherError e \<Rightarrow> logger_Println ''Error:'' e s
      | Event op \<Rightarrow>
          if op AND fsnotify_Write = fsnotify_Write then
            (case getFileMD5 env filePath s of
               ((newHash, Some e), s1) \<Rightarrow> logger_Println ''Error reading file:'' e s1
             | ((newHash, None), s1) \<Rightarrow>
                 if newHash \<noteq> currentHash s1 then
                   (case loadConfig env filePath (s1\<lparr>currentHash := newHash\<rparr>) of
                      (Some e, s2) \<Rightarrow> logger_Printf (''Error loading config: '' @ e) s2
                    | (None, s2) \<Rightarrow>
                        bind (setupGRETunnels env s2) (\<lambda>e3 s3.
                        bind (case e3 of
                                Some e \<Rightarrow> logger_Printf (''Error setting up GRE tunnels: '' @ e) s3
                              | None \<Rightarrow> Returns () s3) (\<lambda>u s4.
                        bind (setupStaticRoutes env s4) (\<lambda>e5 s5.
                        bind (case e5 of
                                Some e \<Rightarrow> logger_Printf (''Error setting up static routes: '' @ e) s5
                              | None \<Rightarrow> Returns () s5) (\<lambda>u s6.
                        bind (setupECMPRoutes env s6) (\<lambda>e7 s7.
                          case e7 of
                            Some e \<Rightarrow> logger_Printf (''Error setting up ECMP routes: '' @ e) s7
                          | None \<Rightarrow> Returns () s7))))))
                 else Returns () s1)
          else Returns () s)"

fun watchLoop :: "'w env \<Rightarrow> string \<Rightarrow> event list \<Rightarrow> 'w state \<Rightarrow> (unit, 'w) run" where
  "watchLoop env filePath [] s = Returns () s"
| "watchLoop env filePath (ev # evs) s =
     (case watchEvent env filePath ev s of
        Returns u s' \<Rightarrow> watchLoop env filePath evs s'
      | Blocks s' \<Rightarrow> Blocks s')"

definition watchConfigFile :: "'w env \<Rightarrow> string \<Rightarrow> event list \<Rightarrow> 'w state \<Rightarrow> 'w outcome" where
  "watchConfigFile env filePath evs s =
     (case NewWatcher env (world s) of
        (Some e, w) \<Rightarrow> logger_Fatalf (WatcherFailed e) e (s\<lparr>world := w\<rparr>)
      | (None, w) \<Rightarrow>
          (case WatcherAdd env filePath w of
             (Some e, w') \<Rightarrow> logger_Fatalf (WatcherFailed e) e (s\<lparr>world := w'\<rparr>)
           | (None, w') \<Rightarrow>
               (case watchLoop env filePath evs (s\<lparr>world := w'\<rparr>) of
                  Returns u s' \<Rightarrow> Watched s'
                | Blocks s' \<Rightarrow> Blocked s')))"

text \<open>\<open>main\<close> (\<^verbatim>\<open>main.go\<close> lines 207-235).\<close>

definition main :: "'w env \<Rightarrow> event list \<Rightarrow> 'w \<Rightarrow> 'w outcome" where
  "main env evs w =
     (let configFilePath = ''/path/to/config.yml''
      in case loadConfig env configFilePath (initial w) of
           (Some e, s0) \<Rightarrow> Fatal (LoadConfigFailed e) s0
         | (None, s0) \<Rightarrow>
         (case initLogger env (LogFilePath (ProgramSettings (config s0)))
                 (Info (Logging (ProgramSettings (config s0))))
                 (Error (Logging (ProgramSettings (config s0))))
                 (Debug (Logging (ProgramSettings (config s0)))) s0 of
           (Some e, s1) \<Rightarrow> Fatal (OpenLogFailed e) s1
         | (None, s1) \<Rightarrow>
         (case setupGRETunnels env s1 of
           Blocks s2 \<Rightarrow> Blocked s2
         | Returns (Some e) s2 \<Rightarrow>
             logger_Fatalf (TunnelsFailed e) (''Error setting up initial GRE tunnels: '' @ e) s2
         | Returns None s2 \<Rightarrow>
         (case setupStaticRoutes env s2 of
           Blocks s3 \<Rightarrow> Blocked s3
         | Returns (Some e) s3 \<Rightarrow>
             logger_Fatalf (StaticRoutesFailed e)
               (''Error setting up initial static routes: '' @ e) s3
         | Returns None s3 \<Rightarrow>
         (case setupECMPRoutes env s3 of
           Blocks s4 \<Rightarrow> Blocked s4
         | Returns (Some e) s4 \<Rightarrow>
             logger_Fatalf (ECMPRoutesFailed e)
               (''Error setting up initial ECMP routes: '' @ e) s4
         | Returns None s4 \<Rightarrow>
         (case getFileMD5 env configFilePath s4 of
           ((hash, Some e), s5) \<Rightarrow>
             logger_Fatalf (FileHashFailed e)
               (''Error computing initial file hash: '' @ e) s5
         | ((hash, None), s5) \<Rightarrow>
             watchConfigFile env configFilePath evs (s5\<lparr>currentHash := hash\<rparr>)))))))"

text \<open>
  The same in the listing of \<^verbatim>\<open>src/README.md\<close> (lines 237-319), where every call of
  \<open>logger\<close> returns.
\<close>

definition watchEvent_R :: "'w env \<Rightarrow> string \<Rightarrow> event \<Rightarrow> 'w state \<Rightarrow> 'w state" where
  "watchEvent_R env filePath ev s =
     (case ev of
        WatcherError e \<Rightarrow> logger_Println_R ''Error:'' e s
      | Event op \<Rightarrow>
          if op AND fsnotify_Write = fsnotify_Write then
            (case getFileMD5 env filePath s of
               ((newHash, Some e), s1) \<Rightarrow> logger_Println_R ''Error reading file:'' e s1
             | ((newHash, None), s1) \<Rightarrow>
                 if newHash \<noteq> currentHash s1 then
                   (case loadConfig env filePath (s1\<lparr>currentHash := newHash\<rparr>) of
                      (Some e, s2) \<Rightarrow> logger_Printf_R (''Error loading config: '' @ e) s2
                    | (None, s2) \<Rightarrow>
                        (let (e3, s3) = setupGRETunnels_R env s2;
                             s4 = (case e3 of
                                     Some e \<Rightarrow> logger_Printf_R (''Error setting up GRE tunnels: '' @ e) s3
                                   | None \<Rightarrow> s3);
                             (e5, s5) = setupStaticRoutes_R env s4;
                             s6 = (case e5 of
                                     Some e \<Rightarrow> logger_Printf_R (''Error setting up static routes: '' @ e) s5
                                   | None \<Rightarrow> s5);
                             (e7, s7) = setupECMPRoutes_R env s6
                         in case e7 of
                              Some e \<Rightarrow> logger_Printf_R (''Error setting up ECMP routes: '' @ e) s7
                            | None \<Rightarrow> s7))
                 else s1)
          else s)"

definition watchConfigFile_R :: "'w env \<Rightarrow> string \<Rightarrow> event list \<Rightarrow> 'w state \<Rightarrow> 'w outcome" where
  "watchConfigFile_R env filePath evs s =
     (case NewWatcher env (world s) of
        (Some e, w) \<Rightarrow> Fatal (WatcherFailed e) (logger_Printf_R e (s\<lparr>world := w\<rparr>))
      | (None, w) \<Rightarrow>
          (case WatcherAdd env filePath w of
             (Some e, w') \<Rightarrow> Fatal (WatcherFailed e) (logger_Printf_R e (s\<lparr>world := w'\<rparr>))
           | (None, w') \<Rightarrow>
               Watched (foldl (\<lambda>st ev. watchEvent_R env filePath ev st) (s\<lparr>world := w'\<rparr>) evs)))"

definition main_R :: "'w env \<Rightarrow> event list \<Rightarrow> 'w \<Rightarrow> 'w outcome" where
  "main_R env evs w =
     (let configFilePath = ''/etc/krouter/config.yml''
      in case loadConfig env configFilePath (initial w) of
           (Some e, s0) \<Rightarrow> Fatal (LoadConfigFailed e) s0
         | (None, s0) \<Rightarrow>
         (case initLogger env (LogFilePath (ProgramSettings (config s0)))
                 (Info (Logging (ProgramSettings (config s0))))
                 (Error (Logging (ProgramSettings (config s0))))
                 (Debug (Logging (ProgramSettings (config s0)))) s0 of
           (Some e, s1) \<Rightarrow> Fatal (OpenLogFailed e) s1
         | (None, s1) \<Rightarrow>
         (case setupGRETunnels_R env s1 of
           (Some e, s2) \<Rightarrow>
             Fatal (TunnelsFailed e)
               (logger_Printf_R (''Error setting up initial GRE tunnels: '' @ e) s2)
         | (None, s2) \<Rightarrow>
         (case setupStaticRoutes_R env s2 of
           (Some e, s3) \<Rightarrow>
             Fatal (StaticRoutesFailed e)
               (logger_Printf_R (''Error setting up initial static routes: '' @ e) s3)
         | (None, s3) \<Rightarrow>
         (case setupECMPRoutes_R env s3 of
           (Some e, s4) \<Rightarrow>
             Fatal (ECMPRoutesFailed e)
               (logger_Printf_R (''Error setting up initial ECMP routes: '' @ e) s4)
         | (None, s4) \<Rightarrow>
         (case getFileMD5 env configFilePath s4 of
           ((hash, Some e), s5) \<Rightarrow>
             Fatal (FileHashFailed e)
               (logger_Printf_R (''Error computing initial file hash: '' @ e) s5)
         | ((hash, None), s5) \<Rightarrow>
             watchConfigFile_R env configFilePath evs (s5\<lparr>currentHash := hash\<rparr>)))))))"

section \<open>Vocabulary of the properties\<close>

text \<open>The commands of the program, by the item they are built from.\<close>

definition tunnel_show :: "string list" where
  "tunnel_show = [''ip'', ''tunnel'', ''show'']"

definition tunnel_del :: "GRETunnel \<Rightarrow> string list" where
  "tunnel_del t = [''ip'', ''tunnel'', ''del'', Name t]"

definition tunnel_add :: "GRETunnel \<Rightarrow> string list" where
  "tunnel_add t =
     [''ip'', ''tunnel'', ''add'', Name t, ''mode'', ''gre'', ''local'', LocalIP t,
      ''remote'', RemoteIP t]"

definition tunnel_addr :: "GRETunnel \<Rightarrow> string list" where
  "tunnel_addr t = [''ip'', ''addr'', ''add'', TunnelIP t @ ''/'' @ SubnetMask t, ''dev'', Name t]"

definition tunnel_up :: "GRETunnel \<Rightarrow> string list" where
  "tunnel_up t = [''ip'', ''link'', ''set'', Name t, ''up'']"

definition route_show :: "string list" where
  "route_show = [''ip'', ''route'', ''show'']"

definition route_add :: "StaticRoute \<Rightarrow> string list" where
  "route_add r = [''ip'', ''route'', ''add'', Destination r, ''via'', Gateway r]"

definition ecmp_show :: "ECMPRoute \<Rightarrow> string list" where
  "ecmp_show e = [''ip'', ''route'', ''show'', ''table'', Table e]"

text \<open>The words one nexthop contributes, and the whole multipath command.\<close>

definition nexthop_words :: "Nexthop \<Rightarrow> string list" where
  "nexthop_words nh = [''nexthop'', ''dev'', Dev nh, ''via'', Via nh, ''weight'', Itoa (sint (Weight nh))]"

definition ecmp_add :: "ECMPRoute \<Rightarrow> string list" where
  "ecmp_add e =
     [''ip'', ''route'', ''add'', Route e, ''proto'', ''static'', ''scope'', ''global'',
      ''table'', Table e] @ concat (map nexthop_words (Nexthops e))"

text \<open>
  The phase a command belongs to, read off its shape: a tunnel operation is an \<open>ip\<close>
  command on \<open>tunnel\<close>, \<open>addr\<close> or \<open>link\<close>; a static-route operation is
  \<open>ip route show\<close> or \<open>ip route add D via G\<close>; an ECMP operation is
  \<open>ip route show table T\<close> or \<open>ip route add R proto static scope global table T ...\<close>.
\<close>

fun isTunnelOp :: "string list \<Rightarrow> bool" where
  "isTunnelOp (p # k # rest) = (p = ''ip'' \<and> (k = ''tunnel'' \<or> k = ''addr'' \<or> k = ''link''))"
| "isTunnelOp _ = False"

definition isStaticOp :: "string list \<Rightarrow> bool" where
  "isStaticOp c =
     (c = [''ip'', ''route'', ''show''] \<or>
      (length c = 6 \<and> take 3 c = [''ip'', ''route'', ''add''] \<and> c ! 4 = ''via''))"

definition isECMPOp :: "string list \<Rightarrow> bool" where
  "isECMPOp c =
     ((length c = 5 \<and> take 4 c = [''ip'', ''route'', ''show'', ''table'']) \<or>
      (10 \<le> length c \<and> take 3 c = [''ip'', ''route'', ''add''] \<and>
       take 5 (drop 4 c) = [''proto'', ''static'', ''scope'', ''global'', ''table'']))"

text \<open>
  \<open>issues P s s'\<close>: from \<open>s\<close> to \<open>s'\<close> the program has only added commands to the
  trace, each of them a \<open>P\<close>, and has left \<open>currentHash\<close>, \<open>config\<close> and the
  installed \<open>logWriter\<close> alone.
\<close>

definition issues :: "(string list \<Rightarrow> bool) \<Rightarrow> 'w state \<Rightarrow> 'w state \<Rightarrow> bool" where
  "issues P s s' =
     (prefix (trace s) (trace s') \<and> list_all P (drop (length (trace s)) (trace s')) \<and>
      currentHash s' = currentHash s \<and> config s' = config s \<and> logger s' = logger s)"

text \<open>
  The commands of one tunnel when nothing fails: in \<^verbatim>\<open>main.go\<close>, and in the listing of
  the README, where \<open>present\<close> is the answer of \<open>tunnelExists\<close>.
\<close>

definition tunnelOps :: "GRETunnel \<Rightarrow> string list list" where
  "tunnelOps t = [tunnel_del t, tunnel_add t, tunnel_addr t, tunnel_up t]"

definition tunnelOps_R :: "bool \<Rightarrow> GRETunnel \<Rightarrow> string list list" where
  "tunnelOps_R present t =
     tunnel_show # (if present then [tunnel_del t] else [])
       @ [tunnel_add t, tunnel_addr t, tunnel_up t]"

text \<open>
  The state a call of \<^verbatim>\<open>src/main.go\<close> has reached, whether it returns or not; the
  state a run has reached, and the call to \<open>Fatalf\<close> that ended it, if any.
\<close>

fun state_of :: "('a, 'w) run \<Rightarrow> 'w state" where
  "state_of (Returns a s) = s"
| "state_of (Blocks s) = s"

fun final :: "'w outcome \<Rightarrow> 'w state" where
  "final (Fatal f s) = s"
| "final (Watched s) = s"
| "final (Blocked s) = s"

fun fatal_of :: "'w outcome \<Rightarrow> fatal option" where
  "fatal_of (Fatal f s) = Some f"
| "fatal_of (Watched s) = None"
| "fatal_of (Blocked s) = None"

text \<open>
  \<open>issue env c s\<close> runs the command \<open>c\<close> (program name first) as \<open>execCommand\<close> of
  \<^verbatim>\<open>src/main.go\<close> does, \<open>issue_R\<close> as \<open>execCommand\<close> of the README does.
\<close>

definition issue :: "'w env \<Rightarrow> string list \<Rightarrow> 'w state \<Rightarrow> error \<times> 'w state" where
  "issue env c s = execCommand env (hd c) (tl c) s"

definition issue_R :: "'w env \<Rightarrow> string list \<Rightarrow> 'w state \<Rightarrow> (string \<times> error) \<times> 'w state" where
  "issue_R env c s = execCommand_R env (hd c) (tl c) s"

text \<open>
  One reconciliation pass as the specification describes it (section 4.3): the tunnel
  phase, whose failure is logged in the watch loop, then the static-route phase, then
  the ECMP phase, each starting where the previous one ended.
\<close>

definition reconcile :: "'w env \<Rightarrow> 'w state \<Rightarrow> (unit, 'w) run" where
  "reconcile env s =
     bind (setupGRETunnels env s) (\<lambda>err s1.
     bind (case err of
             Some e \<Rightarrow> logger_Printf (''Error setting up GRE tunnels: '' @ e) s1
           | None \<Rightarrow> Returns () s1) (\<lambda>u s2.
     bind (setupStaticRoutes env s2) (\<lambda>e3 s3.
     bind (setupECMPRoutes env s3) (\<lambda>e4 s4. Returns () s4))))"

definition reconcile_R :: "'w env \<Rightarrow> 'w state \<Rightarrow> 'w state" where
  "reconcile_R env s =
     (let (err, s1) = setupGRETunnels_R env s;
          s2 = (case err of
                  Some e \<Rightarrow> logger_Printf_R (''Error setting up GRE tunnels: '' @ e) s1
                | None \<Rightarrow> s1)
      in snd (setupECMPRoutes_R env (snd (setupStaticRoutes_R env s2))))"

section \<open>Concrete inputs\<close>

text \<open>
  A world without state: every command is answered by \<open>resp\<close>, every read of the
  file gives the bytes \<open>file\<close>, \<open>yaml.Unmarshal\<close> is \<open>parse\<close>, and the log file and
  the watcher never fail.
\<close>

definition testEnv :: "(string list \<Rightarrow> string \<times> error) \<Rightarrow> bytes \<Rightarrow> (bytes \<Rightarrow> Config \<Rightarrow> Config \<times> error) \<Rightarrow> unit env" where
  "testEnv resp file parse =
     \<lparr>Run = (\<lambda>command args w. (resp (command # args), w)),
      ReadFile = (\<lambda>path w. ((file, None), w)),
      Unmarshal = parse,
      OpenFile = (\<lambda>path w. (None, w)),
      NewWatcher = (\<lambda>w. (None, w)),
      WatcherAdd = (\<lambda>path w. (None, w))\<rparr>"

text \<open>
  With an empty configuration file: \<open>yaml.Unmarshal\<close> accepts the empty document and
  leaves the configuration as it is.
\<close>

definition plainEnv :: "(string list \<Rightarrow> string \<times> error) \<Rightarrow> unit env" where
  "plainEnv resp = testEnv resp [] (\<lambda>data cfg. (cfg, None))"

text \<open>
  The items of the example configuration in \<^verbatim>\<open>README.md\<close> (lines 11-45), and a third
  tunnel.
\<close>

definition gre1 :: GRETunnel where
  "gre1 = \<lparr>Name = ''gre1'', LocalIP = ''192.168.1.1'', RemoteIP = ''10.0.0.1'',
           TunnelIP = ''10.0.0.2'', SubnetMask = ''30''\<rparr>"

definition gre2 :: GRETunnel where
  "gre2 = \<lparr>Name = ''gre2'', LocalIP = ''192.168.1.2'', RemoteIP = ''10.0.0.2'',
           TunnelIP = ''10.0.0.3'', SubnetMask = ''30''\<rparr>"

definition gre3 :: GRETunnel where
  "gre3 = \<lparr>Name = ''gre3'', LocalIP = ''192.168.1.3'', RemoteIP = ''10.0.0.3'',
           TunnelIP = ''10.0.0.4'', SubnetMask = ''30''\<rparr>"

definition route1 :: StaticRoute where
  "route1 = \<lparr>Destination = ''192.168.2.0/24'', Gateway = ''192.168.1.254''\<rparr>"

definition route2 :: StaticRoute where
  "route2 = \<lparr>Destination = ''192.168.3.0/24'', Gateway = ''192.168.1.254''\<rparr>"

definition ecmp1 :: ECMPRoute where
  "ecmp1 =
     \<lparr>Route = ''default'', Table = ''GRE'',
      Nexthops = [\<lparr>Dev = ''gre1'', Via = ''10.0.40.5'', Weight = 1\<rparr>,
                  \<lparr>Dev = ''gre2'', Via = ''10.0.41.5'', Weight = 1\<rparr>]\<rparr>"

definition exampleConfig :: Config where
  "exampleConfig =
     \<lparr>ProgramSettings =
        \<lparr>LogFilePath = ''/var/log/krouter/gre.log'',
         Logging = \<lparr>Info = True, Error = True, Debug = False\<rparr>\<rparr>,
      GRETunnels = [gre1, gre2], StaticRoutes = [route1, route2], ECMPRoutes = [ecmp1]\<rparr>"

text \<open>Answers of the \<open>ip\<close> command used below.\<close>

definition allSucceed :: "string list \<Rightarrow> string \<times> error" where
  "allSucceed cmd = ([], None)"

definition allFail :: "string list \<Rightarrow> string \<times> error" where
  "allFail cmd = ([], Some ''exit status 2'')"

text \<open>Every command succeeds but \<open>c\<close>.\<close>

definition onlyFails :: "string list \<Rightarrow> string list \<Rightarrow> string \<times> error" where
  "onlyFails c cmd = (if cmd = c then ([], Some ''exit status 2'') else ([], None))"

text \<open>
  A routing table with two routes, in which the destination of the second route and
  the gateway of the first both occur, on different lines.
\<close>

definition twoRoutes :: "string list \<Rightarrow> string \<times> error" where
  "twoRoutes cmd =
     (''10.0.0.0/8 via 10.1.1.1 dev eth0'' @ [CHR 0x0A] @
      ''192.168.2.0/24 via 172.16.0.1 dev eth1'' @ [CHR 0x0A], None)"

text \<open>A routing table that already holds the route of \<open>route1\<close>, on one line.\<close>

definition routePresent :: "string list \<Rightarrow> string \<times> error" where
  "routePresent cmd = (''192.168.2.0/24 via 192.168.1.254 dev eth0'' @ [CHR 0x0A], None)"



text \<open>
  The example configuration as a file: the bytes of lines 11-45 of \<^verbatim>\<open>README.md\<close>.
  Every field of \<open>Config\<close> has its key in it, so the parse gives \<open>exampleConfig\<close>
  whatever the configuration was before.
\<close>

definition exampleFile :: bytes where
  "exampleFile =
     [
      0x70, 0x72, 0x6f, 0x67, 0x72, 0x61, 0x6d, 0x5f, 0x73, 0x65, 0x74, 0x74, 0x69, 0x6e, 0x67, 0x73,
      0x3a, 0x0a, 0x20, 0x20, 0x6c, 0x6f, 0x67, 0x5f, 0x66, 0x69, 0x6c, 0x65, 0x5f, 0x70, 0x61, 0x74,
      0x68, 0x3a, 0x20, 0x22, 0x2f, 0x76, 0x61, 0x72, 0x2f, 0x6c, 0x6f, 0x67, 0x2f, 0x6b, 0x72, 0x6f,
      0x75, 0x74, 0x65, 0x72, 0x2f, 0x67, 0x72, 0x65, 0x2e, 0x6c, 0x6f, 0x67, 0x22, 0x0a, 0x20, 0x20,
      0x6c, 0x6f, 0x67, 0x67, 0x69, 0x6e, 0x67, 0x3a, 0x0a, 0x20, 0x20, 0x20, 0x20, 0x69, 0x6e, 0x66,
      0x6f, 0x3a, 0x20, 0x74, 0x72, 0x75, 0x65, 0x0a, 0x20, 0x20, 0x20, 0x20, 0x65, 0x72, 0x72, 0x6f,
      0x72, 0x3a, 0x20, 0x74, 0x72, 0x75, 0x65, 0x0a, 0x20, 0x20, 0x20, 0x20, 0x64, 0x65, 0x62, 0x75,
      0x67, 0x3a, 0x20, 0x66, 0x61, 0x6c, 0x73, 0x65, 0x0a, 0x0a, 0x67, 0x72, 0x65, 0x5f, 0x74, 0x75,
      0x6e, 0x6e, 0x65, 0x6c, 0x73, 0x3a, 0x0a, 0x20, 0x20, 0x2d, 0x20, 0x6e, 0x61, 0x6d, 0x65, 0x3a,
      0x20, 0x22, 0x67, 0x72, 0x65, 0x31, 0x22, 0x0a, 0x20, 0x20, 0x20, 0x20, 0x6c, 0x6f, 0x63, 0x61,
      0x6c, 0x5f, 0x69, 0x70, 0x3a, 0x20, 0x22, 0x31, 0x39, 0x32, 0x2e, 0x31, 0x36, 0x38, 0x2e, 0x31,
      0x2e, 0x31, 0x22, 0x0a, 0x20, 0x20, 0x20, 0x20, 0x72, 0x65, 0x6d, 0x6f, 0x74, 0x65, 0x5f, 0x69,
      0x70, 0x3a, 0x20, 0x22, 0x31, 0x30, 0x2e, 0x30, 0x2e, 0x30, 0x2e, 0x31, 0x22, 0x0a, 0x20, 0x20,
      0x20, 0x20, 0x74, 0x75, 0x6e, 0x6e, 0x65, 0x6c, 0x5f, 0x69, 0x70, 0x3a, 0x20, 0x22, 0x31, 0x30,
      0x2e, 0x30, 0x2e, 0x30, 0x2e, 0x32, 0x22, 0x0a, 0x20, 0x20, 0x20, 0x20, 0x73, 0x75, 0x62, 0x6e,
      0x65, 0x74, 0x5f, 0x6d, 0x61, 0x73, 0x6b, 0x3a, 0x20, 0x22, 0x33, 0x30, 0x22, 0x0a, 0x20, 0x20,
      0x2d, 0x20, 0x6e, 0x61, 0x6d, 0x65, 0x3a, 0x20, 0x22, 0x67, 0x72, 0x65, 0x32, 0x22, 0x0a, 0x20,
      0x20, 0x20, 0x20, 0x6c, 0x6f, 0x63, 0x61, 0x6c, 0x5f, 0x69, 0x70, 0x3a, 0x20, 0x22, 0x31, 0x39,
      0x32, 0x2e, 0x31, 0x36, 0x38, 0x2e, 0x31, 0x2e, 0x32, 0x22, 0x0a, 0x20, 0x20, 0x20, 0x20, 0x72,
      0x65, 0x6d, 0x6f, 0x74, 0x65, 0x5f, 0x69, 0x70, 0x3a, 0x20, 0x22, 0x31, 0x30, 0x2e, 0x30, 0x2e,
      0x30, 0x2e, 0x32, 0x22, 0x0a, 0x20, 0x20, 0x20, 0x20, 0x74, 0x75, 0x6e, 0x6e, 0x65, 0x6c, 0x5f,
      0x69, 0x70, 0x3a, 0x20, 0x22, 0x31, 0x30, 0x2e, 0x30, 0x2e, 0x30, 0x2e, 0x33, 0x22, 0x0a, 0x20,
      0x20, 0x20, 0x20, 0x73, 0x75, 0x62, 0x6e, 0x65, 0x74, 0x5f, 0x6d, 0x61, 0x73, 0x6b, 0x3a, 0x20,
      0x22, 0x33, 0x30, 0x22, 0x0a, 0x0a, 0x73, 0x74, 0x61, 0x74, 0x69, 0x63, 0x5f, 0x72, 0x6f, 0x75,
      0x74, 0x65, 0x73, 0x3a, 0x0a, 0x20, 0x20, 0x2d, 0x20, 0x64, 0x65, 0x73, 0x74, 0x69, 0x6e, 0x61,
      0x74, 0x69, 0x6f, 0x6e, 0x3a, 0x20, 0x22, 0x31, 0x39, 0x32, 0x2e, 0x31, 0x36, 0x38, 0x2e, 0x32,
      0x2e, 0x30, 0x2f, 0x32, 0x34, 0x22, 0x0a, 0x20, 0x20, 0x20, 0x20, 0x67, 0x61, 0x74, 0x65, 0x77,
      0x61, 0x79, 0x3a, 0x20, 0x22, 0x31, 0x39, 0x32, 0x2e, 0x31, 0x36, 0x38, 0x2e, 0x31, 0x2e, 0x32,
      0x35, 0x34, 0x22, 0x0a, 0x20, 0x20, 0x2d, 0x20, 0x64, 0x65, 0x73, 0x74, 0x69, 0x6e, 0x61, 0x74,
      0x69, 0x6f, 0x6e, 0x3a, 0x20, 0x22, 0x31, 0x39, 0x32, 0x2e, 0x31, 0x36, 0x38, 0x2e, 0x33, 0x2e,
      0x30, 0x2f, 0x32, 0x34, 0x22, 0x0a, 0x20, 0x20, 0x20, 0x20, 0x67, 0x61, 0x74, 0x65, 0x77, 0x61,
      0x79, 0x3a, 0x20, 0x22, 0x31, 0x39, 0x32, 0x2e, 0x31, 0x36, 0x38, 0x2e, 0x31, 0x2e, 0x32, 0x35,
      0x34, 0x22, 0x0a, 0x0a, 0x65, 0x63, 0x6d, 0x70, 0x5f, 0x72, 0x6f, 0x75, 0x74, 0x65, 0x73, 0x3a,
      0x0a, 0x20, 0x20, 0x2d, 0x20, 0x72, 0x6f, 0x75, 0x74, 0x65, 0x3a, 0x20, 0x22, 0x64, 0x65, 0x66,
      0x61, 0x75, 0x6c, 0x74, 0x22, 0x0a, 0x20, 0x20, 0x20, 0x20, 0x74, 0x61, 0x62, 0x6c, 0x65, 0x3a,
      0x20, 0x22, 0x47, 0x52, 0x45, 0x22, 0x0a, 0x20, 0x20, 0x20, 0x20, 0x6e, 0x65, 0x78, 0x74, 0x68,
      0x6f, 0x70, 0x73, 0x3a, 0x0a, 0x20, 0x20, 0x20, 0x20, 0x20, 0x20, 0x2d, 0x20, 0x64, 0x65, 0x76,
      0x3a, 0x20, 0x22, 0x67, 0x72, 0x65, 0x31, 0x22, 0x0a, 0x20, 0x20, 0x20, 0x20, 0x20, 0x20, 0x20,
      0x20, 0x76, 0x69, 0x61, 0x3a, 0x20, 0x22, 0x31, 0x30, 0x2e, 0x30, 0x2e, 0x34, 0x30, 0x2e, 0x35,
      0x22, 0x0a, 0x20, 0x20, 0x20, 0x20, 0x20, 0x20, 0x20, 0x20, 0x77, 0x65, 0x69, 0x67, 0x68, 0x74,
      0x3a, 0x20, 0x31, 0x0a, 0x20, 0x20, 0x20, 0x20, 0x20, 0x20, 0x2d, 0x20, 0x64, 0x65, 0x76, 0x3a,
      0x20, 0x22, 0x67, 0x72, 0x65, 0x32, 0x22, 0x0a, 0x20, 0x20, 0x20, 0x20, 0x20, 0x20, 0x20, 0x20,
      0x76, 0x69, 0x61, 0x3a, 0x20, 0x22, 0x31, 0x30, 0x2e, 0x30, 0x2e, 0x34, 0x31, 0x2e, 0x35, 0x22,
      0x0a, 0x20, 0x20, 0x20, 0x20, 0x20, 0x20, 0x20, 0x20, 0x77, 0x65, 0x69, 0x67, 0x68, 0x74, 0x3a,
      0x20, 0x31, 0x0a]"

definition exampleEnv :: "(string list \<Rightarrow> string \<times> error) \<Rightarrow> unit env" where
  "exampleEnv resp = testEnv resp exampleFile (\<lambda>data cfg. (exampleConfig, None))"

text \<open>
  A configuration file of two lines,
  \<^verbatim>\<open>program_settings:\<close> and \<^verbatim>\<open>  log_file_path: /tmp/krouter.log\<close>: the parse sets the
  path of the log file and leaves the other fields as they are. Started on it, the
  program has all logging flags off and nothing to apply.
\<close>

definition smallFile :: bytes where
  "smallFile =
     [
      0x70, 0x72, 0x6f, 0x67, 0x72, 0x61, 0x6d, 0x5f, 0x73, 0x65, 0x74, 0x74, 0x69, 0x6e, 0x67, 0x73,
      0x3a, 0x0a, 0x20, 0x20, 0x6c, 0x6f, 0x67, 0x5f, 0x66, 0x69, 0x6c, 0x65, 0x5f, 0x70, 0x61, 0x74,
      0x68, 0x3a, 0x20, 0x2f, 0x74, 0x6d, 0x70, 0x2f, 0x6b, 0x72, 0x6f, 0x75, 0x74, 0x65, 0x72, 0x2e,
      0x6c, 0x6f, 0x67, 0x0a]"

definition smallEnv :: "(string list \<Rightarrow> string \<times> error) \<Rightarrow> unit env" where
  "smallEnv resp =
     testEnv resp smallFile
       (\<lambda>data cfg. (cfg\<lparr>ProgramSettings := (ProgramSettings cfg)\<lparr>LogFilePath := ''/tmp/krouter.log''\<rparr>\<rparr>, None))"

text \<open>The state in which the watch loop starts after a start on \<open>smallFile\<close>.\<close>

definition started :: "unit state" where
  "started =
     \<lparr>world = (), trace = [], logged = [],
      currentHash = EncodeToString (md5_Sum smallFile),
      config = zeroConfig\<lparr>ProgramSettings :=
                 \<lparr>LogFilePath = ''/tmp/krouter.log'',
                  Logging = \<lparr>Info = False, Error = False, Debug = False\<rparr>\<rparr>\<rparr>,
      logger = \<lparr>infoEnabled = False, errorEnabled = False, debugEnabled = False\<rparr>\<rparr>"

text \<open>
  A configuration file that \<open>yaml.Unmarshal\<close> refuses: its one character, \<^verbatim>\<open>@\<close>,
  cannot start a token of YAML. The configuration is left as it is.
\<close>

definition badFile :: bytes where
  "badFile = [0x40]"

definition brokenEnv :: "unit env" where
  "brokenEnv =
     testEnv allSucceed badFile
       (\<lambda>data cfg. (cfg, Some ''yaml: found character that cannot start any token''))"

text \<open>
  The state after a write event that found \<open>badFile\<close> in place of \<open>smallFile\<close>.
\<close>

definition afterBad :: "unit state" where
  "afterBad =
     started\<lparr>currentHash := EncodeToString (md5_Sum badFile),
             logged := [''Error loading config: yaml: found character that cannot start any token'']\<rparr>"


text \<open>
  The state after \<open>initLogger\<close> in a start on the example configuration: info logging
  is on.
\<close>

definition exampleState :: "unit state" where
  "exampleState =
     (initial ())\<lparr>config := exampleConfig,
                  logger := \<lparr>infoEnabled = True, errorEnabled = True, debugEnabled = False\<rparr>\<rparr>"

section \<open>Helper lemmas\<close>

subsection \<open>Calls that may not return\<close>

lemma bind_Returns [simp]: "bind (Returns a s) k = k a s"
  by (simp add: bind_def)

lemma bind_Blocks [simp]: "bind (Blocks s) k = Blocks s"
  by (simp add: bind_def)

lemma Printf_off:
  "\<not> infoEnabled (logger s) \<Longrightarrow> logger_Printf m s = Returns () (s\<lparr>logged := logged s @ [m]\<rparr>)"
  by (simp add: logger_Printf_def logWriter_Write_def)

lemma Printf_on:
  "infoEnabled (logger s) \<Longrightarrow> logger_Printf m s = Blocks (s\<lparr>logged := logged s @ [m]\<rparr>)"
  by (simp add: logger_Printf_def logWriter_Write_def)

lemma Println_off:
  "\<not> infoEnabled (logger s) \<Longrightarrow>
   logger_Println a b s = Returns () (s\<lparr>logged := logged s @ [a @ '' '' @ b]\<rparr>)"
  by (simp add: logger_Println_def logWriter_Write_def)

lemma state_of_Printf [simp]: "state_of (logger_Printf m s) = s\<lparr>logged := logged s @ [m]\<rparr>"
  by (simp add: logger_Printf_def logWriter_Write_def)

lemma state_of_Println [simp]:
  "state_of (logger_Println a b s) = s\<lparr>logged := logged s @ [a @ '' '' @ b]\<rparr>"
  by (simp add: logger_Println_def logWriter_Write_def)

lemma Printf_Returns:
  "logger_Printf m s = Returns u s' \<Longrightarrow> s' = s\<lparr>logged := logged s @ [m]\<rparr> \<and> \<not> infoEnabled (logger s)"
  by (simp add: logger_Printf_def logWriter_Write_def split: if_splits)

lemma state_of_Printf_bind [simp]:
  "state_of (bind (logger_Printf m s) (\<lambda>u s'. Returns a s')) = s\<lparr>logged := logged s @ [m]\<rparr>"
  by (simp add: logger_Printf_def logWriter_Write_def)

subsection \<open>Commands only extend the trace\<close>

lemma issues_refl: "issues P s s"
  by (simp add: issues_def)

lemma issues_trans: "issues P s t \<Longrightarrow> issues P t u \<Longrightarrow> issues P s u"
  by (auto simp: issues_def prefix_def)

lemma issues_logged: "issues P s t \<Longrightarrow> issues P s (t\<lparr>logged := l\<rparr>)"
  by (simp add: issues_def)

lemma issues_log_R: "issues P s t \<Longrightarrow> issues P s (logger_Printf_R m t)"
  by (simp add: issues_def logger_Printf_R_def)

lemma issues_exec: "P (c # a) \<Longrightarrow> issues P s (snd (execCommand env c a s))"
  by (auto simp: issues_def execCommand_def split: prod.splits)

lemma issues_exec_R: "P (c # a) \<Longrightarrow> issues P s (snd (execCommand_R env c a s))"
  by (auto simp: issues_def execCommand_R_def split: prod.splits)

lemma issues_exec_run:
  assumes "P (c # a)" and "issues P s0 s"
    and "\<And>e s'. issues P s0 s' \<Longrightarrow> issues P s0 (state_of (k e s'))"
  shows "issues P s0 (state_of (case execCommand env c a s of (e, s') \<Rightarrow> k e s'))"
proof -
  obtain e s' where ex: "execCommand env c a s = (e, s')"
    by (cases "execCommand env c a s")
  from issues_exec [of P c a s env, OF assms(1)] ex have "issues P s s'" by simp
  with assms(2) have "issues P s0 s'" by (rule issues_trans)
  from assms(3) [OF this] show ?thesis by (simp add: ex)
qed

lemma issues_exec_R_case:
  assumes "P (c # a)" and "issues P s0 s"
    and "\<And>r s'. issues P s0 s' \<Longrightarrow> issues P s0 (snd (k r s'))"
  shows "issues P s0 (snd (case execCommand_R env c a s of (r, s') \<Rightarrow> k r s'))"
proof -
  obtain r s' where ex: "execCommand_R env c a s = (r, s')"
    by (cases "execCommand_R env c a s")
  from issues_exec_R [of P c a s env, OF assms(1)] ex have "issues P s s'" by simp
  with assms(2) have "issues P s0 s'" by (rule issues_trans)
  from assms(3) [OF this] show ?thesis by (simp add: ex)
qed

lemma tunnelExists_snd:
  "snd (tunnelExists env n s) = snd (execCommand_R env ''ip'' [''tunnel'', ''show''] s)"
  by (simp add: tunnelExists_def split: prod.splits)

lemma routeExists_snd:
  "snd (routeExists env d g s) = snd (execCommand_R env ''ip'' [''route'', ''show''] s)"
  by (simp add: routeExists_def split: prod.splits)

lemma ecmpRouteExists_snd:
  "snd (ecmpRouteExists env r t s) = snd (execCommand_R env ''ip'' [''route'', ''show'', ''table'', t] s)"
  by (simp add: ecmpRouteExists_def split: prod.splits)

lemma tunnelExists_issues:
  "issues isTunnelOp s0 s \<Longrightarrow> issues isTunnelOp s0 (snd (tunnelExists env n s))"
  unfolding tunnelExists_snd
  by (erule issues_trans) (rule issues_exec_R, simp)

lemma routeExists_issues:
  "issues isStaticOp s0 s \<Longrightarrow> issues isStaticOp s0 (snd (routeExists env d g s))"
  unfolding routeExists_snd
  by (erule issues_trans) (rule issues_exec_R, simp add: isStaticOp_def)

lemma ecmpRouteExists_issues:
  "issues isECMPOp s0 s \<Longrightarrow> issues isECMPOp s0 (snd (ecmpRouteExists env r t s))"
  unfolding ecmpRouteExists_snd
  by (erule issues_trans) (rule issues_exec_R, simp add: isECMPOp_def)

lemma isECMPOp_ecmpArgs: "isECMPOp (''ip'' # ecmpArgs e)"
  by (simp add: isECMPOp_def ecmpArgs_def)

text \<open>The functions of \<^verbatim>\<open>src/main.go\<close>.\<close>

lemma tunnelDelete_issues:
  assumes "issues isTunnelOp s0 s"
  shows "issues isTunnelOp s0 (state_of (tunnelDelete env t s))"
  unfolding tunnelDelete_def
  apply (rule issues_exec_run)
    apply simp
   apply (rule assms)
  apply (simp add: issues_logged split: option.split)
  done

lemma tunnelCreate_issues:
  assumes "issues isTunnelOp s0 s"
  shows "issues isTunnelOp s0 (state_of (tunnelCreate env t s))"
  unfolding tunnelCreate_def
  apply (rule issues_exec_run)
    apply simp
   apply (rule assms)
  apply (split option.split, intro conjI allI impI)
   prefer 2 apply simp
  apply (rule issues_exec_run)
    apply simp
   apply assumption
  apply (split option.split, intro conjI allI impI)
   prefer 2 apply simp
  apply (rule issues_exec_run)
    apply simp
   apply assumption
  apply (split option.split, intro conjI allI impI)
   prefer 2 apply simp
  apply (simp add: issues_logged)
  done

lemma tunnelStep_issues:
  assumes "issues isTunnelOp s0 s"
  shows "issues isTunnelOp s0 (state_of (tunnelStep env t s))"
proof (cases "tunnelDelete env t s")
  case (Returns u s1)
  with tunnelDelete_issues [OF assms, of env t] have "issues isTunnelOp s0 s1" by simp
  from tunnelCreate_issues [OF this] Returns show ?thesis by (simp add: tunnelStep_def)
next
  case (Blocks s1)
  with tunnelDelete_issues [OF assms, of env t] show ?thesis by (simp add: tunnelStep_def)
qed

lemma tunnelsLoop_issues:
  "issues isTunnelOp s0 s \<Longrightarrow> issues isTunnelOp s0 (state_of (tunnelsLoop env ts s))"
proof (induction ts arbitrary: s)
  case Nil
  then show ?case by simp
next
  case (Cons t ts)
  from tunnelStep_issues [OF Cons.prems, of env t]
  have 1: "issues isTunnelOp s0 (state_of (tunnelStep env t s))" .
  show ?case
  proof (cases "tunnelStep env t s")
    case (Returns e s')
    with 1 have "issues isTunnelOp s0 s'" by simp
    from Cons.IH [OF this] this Returns show ?thesis by (cases e) simp_all
  next
    case (Blocks s')
    with 1 show ?thesis by simp
  qed
qed

lemma staticStep_issues:
  assumes "issues isStaticOp s0 s"
  shows "issues isStaticOp s0 (state_of (staticStep env r s))"
  unfolding staticStep_def
  apply (rule issues_exec_run)
    apply (simp add: isStaticOp_def)
   apply (rule assms)
  apply (simp add: issues_logged split: option.split)
  done

lemma staticLoop_issues:
  "issues isStaticOp s0 s \<Longrightarrow> issues isStaticOp s0 (state_of (staticLoop env rs s))"
proof (induction rs arbitrary: s)
  case Nil
  then show ?case by simp
next
  case (Cons r rs)
  from staticStep_issues [OF Cons.prems, of env r]
  have 1: "issues isStaticOp s0 (state_of (staticStep env r s))" .
  show ?case
  proof (cases "staticStep env r s")
    case (Returns u s')
    with 1 have "issues isStaticOp s0 s'" by simp
    from Cons.IH [OF this] Returns show ?thesis by simp
  next
    case (Blocks s')
    with 1 show ?thesis by simp
  qed
qed

lemma ecmpStep_issues:
  assumes "issues isECMPOp s0 s"
  shows "issues isECMPOp s0 (state_of (ecmpStep env e s))"
  unfolding ecmpStep_def Let_def
  apply (rule issues_exec_run)
    apply (rule isECMPOp_ecmpArgs)
   apply (rule assms)
  apply (simp add: issues_logged split: option.split)
  done

lemma ecmpLoop_issues:
  "issues isECMPOp s0 s \<Longrightarrow> issues isECMPOp s0 (state_of (ecmpLoop env es s))"
proof (induction es arbitrary: s)
  case Nil
  then show ?case by simp
next
  case (Cons e es)
  from ecmpStep_issues [OF Cons.prems, of env e]
  have 1: "issues isECMPOp s0 (state_of (ecmpStep env e s))" .
  show ?case
  proof (cases "ecmpStep env e s")
    case (Returns u s')
    with 1 have "issues isECMPOp s0 s'" by simp
    from Cons.IH [OF this] Returns show ?thesis by simp
  next
    case (Blocks s')
    with 1 show ?thesis by simp
  qed
qed

text \<open>The functions of the listing in \<^verbatim>\<open>src/README.md\<close>.\<close>

lemma tunnelDelete_R_issues:
  assumes "issues isTunnelOp s0 s"
  shows "issues isTunnelOp s0 (tunnelDelete_R env t s)"
proof -
  obtain p x where pr: "tunnelExists env (Name t) s = (p, x)"
    by (cases "tunnelExists env (Name t) s")
  from tunnelExists_issues [OF assms, of env "Name t"] pr have x: "issues isTunnelOp s0 x" by simp
  have "issues isTunnelOp s0 (snd (execCommand_R env ''ip'' [''tunnel'', ''del'', Name t] x))"
    by (rule issues_trans [OF x]) (rule issues_exec_R, simp)
  with x show ?thesis
    by (auto simp: tunnelDelete_R_def pr split: prod.splits option.splits intro: issues_log_R)
qed

lemma tunnelCreate_R_issues:
  assumes "issues isTunnelOp s0 s"
  shows "issues isTunnelOp s0 (snd (tunnelCreate_R env t s))"
  unfolding tunnelCreate_R_def
  apply (rule issues_exec_R_case)
    apply simp
   apply (rule assms)
  apply (split prod.split, intro conjI allI impI)
  apply (split option.split, intro conjI allI impI)
   prefer 2 apply simp
  apply simp
  apply (rule issues_exec_R_case)
    apply simp
   apply assumption
  apply (split prod.split, intro conjI allI impI)
  apply (split option.split, intro conjI allI impI)
   prefer 2 apply simp
  apply simp
  apply (rule issues_exec_R_case)
    apply simp
   apply assumption
  apply (split prod.split, intro conjI allI impI)
  apply (split option.split, intro conjI allI impI)
   prefer 2 apply simp
  apply (simp add: issues_log_R)
  done

lemma tunnelStep_R_issues:
  "issues isTunnelOp s0 s \<Longrightarrow> issues isTunnelOp s0 (snd (tunnelStep_R env t s))"
  unfolding tunnelStep_R_def by (intro tunnelCreate_R_issues tunnelDelete_R_issues)

lemma tunnelsLoop_R_issues:
  "issues isTunnelOp s0 s \<Longrightarrow> issues isTunnelOp s0 (snd (tunnelsLoop_R env ts s))"
proof (induction ts arbitrary: s)
  case Nil
  then show ?case by simp
next
  case (Cons t ts)
  obtain e s' where st: "tunnelStep_R env t s = (e, s')" by (cases "tunnelStep_R env t s")
  from tunnelStep_R_issues [OF Cons.prems, of env t] st have "issues isTunnelOp s0 s'" by simp
  from Cons.IH [OF this] this show ?case by (cases e) (simp_all add: st)
qed

lemma staticStep_R_issues:
  assumes "issues isStaticOp s0 s"
  shows "issues isStaticOp s0 (staticStep_R env r s)"
proof -
  let ?a = "[''route'', ''add'', Destination r, ''via'', Gateway r]"
  obtain p s1 where pr: "routeExists env (Destination r) (Gateway r) s = (p, s1)"
    by (cases "routeExists env (Destination r) (Gateway r) s")
  from routeExists_issues [OF assms, of env "Destination r" "Gateway r"] pr
  have 1: "issues isStaticOp s0 s1" by simp
  obtain out e s2 where ex: "execCommand_R env ''ip'' ?a s1 = ((out, e), s2)"
    by (cases "execCommand_R env ''ip'' ?a s1") auto
  have "isStaticOp (''ip'' # ?a)" by (simp add: isStaticOp_def)
  from issues_exec_R [of isStaticOp "''ip''" ?a s1 env, OF this] ex have "issues isStaticOp s1 s2"
    by simp
  with 1 have "issues isStaticOp s0 s2" by (rule issues_trans)
  with 1 show ?thesis by (cases e) (simp_all add: staticStep_R_def pr ex issues_log_R)
qed

lemma staticLoop_R_issues:
  "issues isStaticOp s0 s \<Longrightarrow> issues isStaticOp s0 (snd (staticLoop_R env rs s))"
  by (induction rs arbitrary: s) (simp_all add: staticStep_R_issues)

lemma ecmpStep_R_issues:
  assumes "issues isECMPOp s0 s"
  shows "issues isECMPOp s0 (ecmpStep_R env e s)"
proof -
  obtain p s1 where pr: "ecmpRouteExists env (Route e) (Table e) s = (p, s1)"
    by (cases "ecmpRouteExists env (Route e) (Table e) s")
  from ecmpRouteExists_issues [OF assms, of env "Route e" "Table e"] pr
  have 1: "issues isECMPOp s0 s1" by simp
  obtain out err s2 where ex: "execCommand_R env ''ip'' (ecmpArgs e) s1 = ((out, err), s2)"
    by (cases "execCommand_R env ''ip'' (ecmpArgs e) s1") auto
  from issues_exec_R [of isECMPOp "''ip''" "ecmpArgs e" s1 env, OF isECMPOp_ecmpArgs] ex
  have "issues isECMPOp s1 s2" by simp
  with 1 have "issues isECMPOp s0 s2" by (rule issues_trans)
  with 1 show ?thesis by (cases err) (simp_all add: ecmpStep_R_def Let_def pr ex issues_log_R)
qed

lemma ecmpLoop_R_issues:
  "issues isECMPOp s0 s \<Longrightarrow> issues isECMPOp s0 (snd (ecmpLoop_R env es s))"
  by (induction es arbitrary: s) (simp_all add: ecmpStep_R_issues)

subsection \<open>The route phases never return an error\<close>

lemma staticLoop_nil: "staticLoop env rs s = Returns e s' \<Longrightarrow> e = None"
  by (induction rs arbitrary: s) (auto split: run.splits)

lemma ecmpLoop_nil: "ecmpLoop env es s = Returns e s' \<Longrightarrow> e = None"
  by (induction es arbitrary: s) (auto split: run.splits)

lemma staticLoop_R_nil: "fst (staticLoop_R env rs s) = None"
  by (induction rs arbitrary: s) simp_all

lemma ecmpLoop_R_nil: "fst (ecmpLoop_R env es s) = None"
  by (induction es arbitrary: s) simp_all

lemma setupStaticRoutes_nil: "setupStaticRoutes env s = Returns e s' \<Longrightarrow> e = None"
  unfolding setupStaticRoutes_def by (rule staticLoop_nil)

lemma setupECMPRoutes_nil: "setupECMPRoutes env s = Returns e s' \<Longrightarrow> e = None"
  unfolding setupECMPRoutes_def by (rule ecmpLoop_nil)

lemma setupStaticRoutes_R_nil: "setupStaticRoutes_R env s = (e, s') \<Longrightarrow> e = None"
  using staticLoop_R_nil [of env "StaticRoutes (config s)" s] by (simp add: setupStaticRoutes_R_def)

lemma setupECMPRoutes_R_nil: "setupECMPRoutes_R env s = (e, s') \<Longrightarrow> e = None"
  using ecmpLoop_R_nil [of env "ECMPRoutes (config s)" s] by (simp add: setupECMPRoutes_R_def)

subsection \<open>With info logging off, the functions of \<^verbatim>\<open>src/main.go\<close> return\<close>

lemma exec_logger [simp]: "logger (snd (execCommand env c a s)) = logger s"
  by (simp add: execCommand_def split: prod.splits)

lemma exec_loggerD: "execCommand env c a s = (e, s') \<Longrightarrow> logger s' = logger s"
  by (auto simp: execCommand_def split: prod.splits)

lemma staticStep_off:
  "\<not> infoEnabled (logger s) \<Longrightarrow>
   \<exists>s'. staticStep env r s = Returns () s' \<and> logger s' = logger s"
  by (auto simp: staticStep_def Printf_off split: prod.splits option.splits dest: exec_loggerD)

lemma staticLoop_off:
  "\<not> infoEnabled (logger s) \<Longrightarrow>
   \<exists>s'. staticLoop env rs s = Returns None s' \<and> logger s' = logger s"
proof (induction rs arbitrary: s)
  case Nil
  then show ?case by simp
next
  case (Cons r rs)
  from staticStep_off [OF Cons.prems, of env r] obtain s1
    where 1: "staticStep env r s = Returns () s1" "logger s1 = logger s" by blast
  with Cons.prems have "\<not> infoEnabled (logger s1)" by simp
  from Cons.IH [OF this] 1 show ?case by simp
qed



lemma tunnelDelete_off:
  "\<not> infoEnabled (logger s) \<Longrightarrow>
   \<exists>s'. tunnelDelete env t s = Returns () s' \<and> logger s' = logger s"
  by (auto simp: tunnelDelete_def Printf_off split: prod.splits option.splits dest: exec_loggerD)

lemma tunnelDelete_ok:
  "fst (execCommand env ''ip'' [''tunnel'', ''del'', Name t] s) = None \<Longrightarrow>
   tunnelDelete env t s = Returns () (snd (execCommand env ''ip'' [''tunnel'', ''del'', Name t] s))"
  by (auto simp: tunnelDelete_def split: prod.splits option.splits)

subsection \<open>What the file functions touch\<close>

lemma getFileMD5_frame:
  "trace (snd (getFileMD5 env p s)) = trace s \<and> logged (snd (getFileMD5 env p s)) = logged s \<and>
   currentHash (snd (getFileMD5 env p s)) = currentHash s \<and> config (snd (getFileMD5 env p s)) = config s \<and>
   logger (snd (getFileMD5 env p s)) = logger s"
  by (simp add: getFileMD5_def split: prod.splits option.splits)

lemma loadConfig_frame:
  "trace (snd (loadConfig env p s)) = trace s \<and> logged (snd (loadConfig env p s)) = logged s \<and>
   currentHash (snd (loadConfig env p s)) = currentHash s \<and> logger (snd (loadConfig env p s)) = logger s"
  by (simp add: loadConfig_def split: prod.splits option.splits)

lemma issues_fields:
  "issues P s s' \<Longrightarrow> currentHash s' = currentHash s \<and> config s' = config s \<and> logger s' = logger s"
  by (simp add: issues_def)

lemma issues_split:
  "issues P s s' \<Longrightarrow> \<exists>cs. trace s' = trace s @ cs \<and> list_all P cs"
  by (auto simp: issues_def prefix_def)

text \<open>Three phases in a row give a trace in three blocks.\<close>

lemma three_blocks:
  assumes "issues isTunnelOp s s1" and "trace s1' = trace s1"
    and "issues isStaticOp s1' s2" and "trace s2' = trace s2"
    and "issues isECMPOp s2' s3" and "trace s3' = trace s3"
  shows "\<exists>a b c. trace s3' = trace s @ a @ b @ c \<and>
           list_all isTunnelOp a \<and> list_all isStaticOp b \<and> list_all isECMPOp c"
proof -
  from issues_split [OF assms(1)] obtain a where a: "trace s1 = trace s @ a" "list_all isTunnelOp a" by blast
  from issues_split [OF assms(3)] obtain b where b: "trace s2 = trace s1' @ b" "list_all isStaticOp b" by blast
  from issues_split [OF assms(5)] obtain c where c: "trace s3 = trace s2' @ c" "list_all isECMPOp c" by blast
  from a b c assms(2,4,6) have "trace s3' = trace s @ a @ b @ c" by simp
  with a b c show ?thesis by blast
qed

lemma no_blocks:
  "trace s' = trace s \<Longrightarrow> \<exists>a b c. trace s' = trace s @ a @ b @ c \<and>
           list_all isTunnelOp a \<and> list_all isStaticOp b \<and> list_all isECMPOp c"
  by (rule exI [of _ "[]"], rule exI [of _ "[]"], rule exI [of _ "[]"]) simp

lemma log_R_trace [simp]: "trace (logger_Printf_R m s) = trace s"
  by (simp add: logger_Printf_R_def)

lemma logln_R_trace [simp]: "trace (logger_Println_R a b s) = trace s"
  by (simp add: logger_Println_R_def)

text \<open>
  A pass of \<^verbatim>\<open>src/main.go\<close>, returned or not, has gone through a tunnel phase, a log
  line at most, a static-route phase and an ECMP phase.
\<close>

lemma reconcile_shape:
  "\<exists>s1 s2 s3. issues isTunnelOp s s1 \<and>
     trace s2 = trace s1 \<and> currentHash s2 = currentHash s1 \<and> config s2 = config s1 \<and>
     logger s2 = logger s1 \<and>
     issues isStaticOp s2 s3 \<and> issues isECMPOp s3 (state_of (reconcile env s))"
proof -
  let ?P = "\<lambda>s1 s2 s3. issues isTunnelOp s s1 \<and>
     trace s2 = trace s1 \<and> currentHash s2 = currentHash s1 \<and> config s2 = config s1 \<and>
     logger s2 = logger s1 \<and>
     issues isStaticOp s2 s3 \<and> issues isECMPOp s3 (state_of (reconcile env s))"
  have t: "issues isTunnelOp s (state_of (setupGRETunnels env s))"
    unfolding setupGRETunnels_def by (rule tunnelsLoop_issues [OF issues_refl])
  show ?thesis
  proof (cases "setupGRETunnels env s")
    case (Blocks s1)
    with t have "?P s1 s1 s1" by (simp add: reconcile_def issues_refl)
    then show ?thesis by blast
  next
    case (Returns err s1)
    note r1 = this
    with t have 1: "issues isTunnelOp s s1" by simp
    define l where "l = (case err of
             Some e \<Rightarrow> logger_Printf (''Error setting up GRE tunnels: '' @ e) s1
           | None \<Rightarrow> Returns () s1)"
    have l: "trace (state_of l) = trace s1 \<and> currentHash (state_of l) = currentHash s1 \<and>
        config (state_of l) = config s1 \<and> logger (state_of l) = logger s1"
      by (simp add: l_def split: option.splits)
    have rec: "reconcile env s =
        bind l (\<lambda>u s2. bind (setupStaticRoutes env s2) (\<lambda>e3 s3.
          bind (setupECMPRoutes env s3) (\<lambda>e4 s4. Returns () s4)))"
      by (simp add: reconcile_def r1 l_def)
    show ?thesis
    proof (cases l)
      case (Blocks s2)
      with l 1 rec have "?P s1 s2 s2" by (simp add: issues_refl)
      then show ?thesis by blast
    next
      case (Returns u s2)
      note r2 = this
      have 3: "issues isStaticOp s2 (state_of (setupStaticRoutes env s2))"
        unfolding setupStaticRoutes_def by (rule staticLoop_issues [OF issues_refl])
      show ?thesis
      proof (cases "setupStaticRoutes env s2")
        case (Blocks s3)
        with l 1 rec r2 3 have "?P s1 s2 s3" by (simp add: issues_refl)
        then show ?thesis by blast
      next
        case (Returns e3 s3)
        note r3 = this
        have 4: "issues isECMPOp s3 (state_of (setupECMPRoutes env s3))"
          unfolding setupECMPRoutes_def by (rule ecmpLoop_issues [OF issues_refl])
        have "state_of (reconcile env s) = state_of (setupECMPRoutes env s3)"
          by (cases "setupECMPRoutes env s3") (simp_all add: rec r2 r3)
        with l 1 r2 r3 3 4 have "?P s1 s2 s3" by simp
        then show ?thesis by blast
      qed
    qed
  qed
qed

lemma reconcile_blocks:
  "\<exists>a b c. trace (state_of (reconcile env s)) = trace s @ a @ b @ c \<and>
           list_all isTunnelOp a \<and> list_all isStaticOp b \<and> list_all isECMPOp c"
proof -
  from reconcile_shape [of s env] obtain s1 s2 s3 where
    "issues isTunnelOp s s1" "trace s2 = trace s1" "issues isStaticOp s2 s3"
    "issues isECMPOp s3 (state_of (reconcile env s))" by blast
  from three_blocks [OF this(1,2,3) refl this(4) refl] show ?thesis .
qed

lemma reconcile_fields:
  "currentHash (state_of (reconcile env s)) = currentHash s \<and>
   config (state_of (reconcile env s)) = config s"
proof -
  from reconcile_shape [of s env] obtain s1 s2 s3 where
    "issues isTunnelOp s s1" "currentHash s2 = currentHash s1" "config s2 = config s1"
    "issues isStaticOp s2 s3" "issues isECMPOp s3 (state_of (reconcile env s))" by blast
  then show ?thesis by (simp add: issues_def)
qed

text \<open>One turn of the watch loop of \<^verbatim>\<open>src/main.go\<close>, case by case.\<close>

lemma watchEvent_error: "watchEvent env p (WatcherError e) s = logger_Println ''Error:'' e s"
  by (simp add: watchEvent_def)

lemma watchEvent_other:
  "op AND fsnotify_Write \<noteq> fsnotify_Write \<Longrightarrow> watchEvent env p (Event op) s = Returns () s"
  by (simp add: watchEvent_def)

lemma watchEvent_unreadable:
  "op AND fsnotify_Write = fsnotify_Write \<Longrightarrow> getFileMD5 env p s = ((h, Some e), s1) \<Longrightarrow>
   watchEvent env p (Event op) s = logger_Println ''Error reading file:'' e s1"
  by (simp add: watchEvent_def)

lemma watchEvent_same:
  "op AND fsnotify_Write = fsnotify_Write \<Longrightarrow> getFileMD5 env p s = ((h, None), s1) \<Longrightarrow>
   h = currentHash s \<Longrightarrow> watchEvent env p (Event op) s = Returns () s1"
  using getFileMD5_frame [of env p s] by (simp add: watchEvent_def)

lemma watchEvent_load_fails:
  "op AND fsnotify_Write = fsnotify_Write \<Longrightarrow> getFileMD5 env p s = ((h, None), s1) \<Longrightarrow>
   h \<noteq> currentHash s \<Longrightarrow> loadConfig env p (s1\<lparr>currentHash := h\<rparr>) = (Some e, s2) \<Longrightarrow>
   watchEvent env p (Event op) s = logger_Printf (''Error loading config: '' @ e) s2"
  using getFileMD5_frame [of env p s] by (simp add: watchEvent_def)

lemma static_then_log:
  "bind (setupStaticRoutes env s) (\<lambda>e5 s5.
     bind (case e5 of Some e \<Rightarrow> logger_Printf (m e) s5 | None \<Rightarrow> Returns () s5) k) =
   bind (setupStaticRoutes env s) (\<lambda>e5 s5. k () s5)"
  by (cases "setupStaticRoutes env s") (auto dest: setupStaticRoutes_nil)

lemma ecmp_then_log:
  "bind (setupECMPRoutes env s) (\<lambda>e7 s7.
     case e7 of Some e \<Rightarrow> logger_Printf (m e) s7 | None \<Rightarrow> Returns () s7) =
   bind (setupECMPRoutes env s) (\<lambda>e7 s7. Returns () s7)"
  by (cases "setupECMPRoutes env s") (auto dest: setupECMPRoutes_nil)

lemma watchEvent_pass:
  assumes "op AND fsnotify_Write = fsnotify_Write" and "getFileMD5 env p s = ((h, None), s1)"
    and "h \<noteq> currentHash s" and "loadConfig env p (s1\<lparr>currentHash := h\<rparr>) = (None, s2)"
  shows "watchEvent env p (Event op) s = reconcile env s2"
  using assms getFileMD5_frame [of env p s]
  by (simp add: watchEvent_def reconcile_def static_then_log ecmp_then_log)

text \<open>The same for the listing in \<^verbatim>\<open>src/README.md\<close>.\<close>

lemma reconcile_R_blocks:
  "\<exists>a b c. trace (reconcile_R env s) = trace s @ a @ b @ c \<and>
           list_all isTunnelOp a \<and> list_all isStaticOp b \<and> list_all isECMPOp c"
proof -
  obtain e s1 where t: "setupGRETunnels_R env s = (e, s1)" by (cases "setupGRETunnels_R env s")
  define s2 where "s2 = (case e of Some m \<Rightarrow> logger_Printf_R (''Error setting up GRE tunnels: '' @ m) s1 | None \<Rightarrow> s1)"
  have 1: "issues isTunnelOp s s1"
    using tunnelsLoop_R_issues [OF issues_refl, of s env "GRETunnels (config s)"] t
    by (simp add: setupGRETunnels_R_def)
  have 2: "trace s2 = trace s1" by (simp add: s2_def split: option.splits)
  have 3: "issues isStaticOp s2 (snd (setupStaticRoutes_R env s2))"
    unfolding setupStaticRoutes_R_def by (rule staticLoop_R_issues [OF issues_refl])
  have 4: "issues isECMPOp (snd (setupStaticRoutes_R env s2)) (snd (setupECMPRoutes_R env (snd (setupStaticRoutes_R env s2))))"
    unfolding setupECMPRoutes_R_def by (rule ecmpLoop_R_issues [OF issues_refl])
  have "reconcile_R env s = snd (setupECMPRoutes_R env (snd (setupStaticRoutes_R env s2)))"
    by (simp add: reconcile_R_def t s2_def)
  with three_blocks [OF 1 2 3 refl 4 refl] show ?thesis by simp
qed

lemma watchEvent_R_error: "watchEvent_R env p (WatcherError e) s = logger_Println_R ''Error:'' e s"
  by (simp add: watchEvent_R_def)

lemma watchEvent_R_other:
  "op AND fsnotify_Write \<noteq> fsnotify_Write \<Longrightarrow> watchEvent_R env p (Event op) s = s"
  by (simp add: watchEvent_R_def)

lemma watchEvent_R_unreadable:
  "op AND fsnotify_Write = fsnotify_Write \<Longrightarrow> getFileMD5 env p s = ((h, Some e), s1) \<Longrightarrow>
   watchEvent_R env p (Event op) s = logger_Println_R ''Error reading file:'' e s1"
  by (simp add: watchEvent_R_def)

lemma watchEvent_R_same:
  "op AND fsnotify_Write = fsnotify_Write \<Longrightarrow> getFileMD5 env p s = ((h, None), s1) \<Longrightarrow>
   h = currentHash s \<Longrightarrow> watchEvent_R env p (Event op) s = s1"
  using getFileMD5_frame [of env p s] by (simp add: watchEvent_R_def)

lemma watchEvent_R_load_fails:
  "op AND fsnotify_Write = fsnotify_Write \<Longrightarrow> getFileMD5 env p s = ((h, None), s1) \<Longrightarrow>
   h \<noteq> currentHash s \<Longrightarrow> loadConfig env p (s1\<lparr>currentHash := h\<rparr>) = (Some e, s2) \<Longrightarrow>
   watchEvent_R env p (Event op) s = logger_Printf_R (''Error loading config: '' @ e) s2"
  using getFileMD5_frame [of env p s] by (simp add: watchEvent_R_def)

lemma watchEvent_R_pass:
  assumes "op AND fsnotify_Write = fsnotify_Write" and "getFileMD5 env p s = ((h, None), s1)"
    and "h \<noteq> currentHash s" and "loadConfig env p (s1\<lparr>currentHash := h\<rparr>) = (None, s2)"
  shows "watchEvent_R env p (Event op) s = reconcile_R env s2"
proof -
  obtain e3 s3 where t: "setupGRETunnels_R env s2 = (e3, s3)" by (cases "setupGRETunnels_R env s2")
  define s4 where "s4 = (case e3 of Some m \<Rightarrow> logger_Printf_R (''Error setting up GRE tunnels: '' @ m) s3 | None \<Rightarrow> s3)"
  obtain e5 s5 where r: "setupStaticRoutes_R env s4 = (e5, s5)" by (cases "setupStaticRoutes_R env s4")
  obtain e7 s7 where m: "setupECMPRoutes_R env s5 = (e7, s7)" by (cases "setupECMPRoutes_R env s5")
  from setupStaticRoutes_R_nil [OF r] setupECMPRoutes_R_nil [OF m] have n: "e5 = None" "e7 = None" by simp_all
  have "watchEvent_R env p (Event op) s = s7"
    using assms getFileMD5_frame [of env p s] t r m n
    by (simp add: watchEvent_R_def s4_def)
  moreover have "reconcile_R env s2 = s7"
    using t r m by (simp add: reconcile_R_def s4_def)
  ultimately show ?thesis by simp
qed

subsection \<open>The passes of the watch loop and of main\<close>

lemma watchEvent_blocks:
  "\<exists>a b c. trace (state_of (watchEvent env p ev s)) = trace s @ a @ b @ c \<and>
           list_all isTunnelOp a \<and> list_all isStaticOp b \<and> list_all isECMPOp c"
proof (cases ev)
  case (WatcherError e)
  then show ?thesis by (intro no_blocks) (simp add: watchEvent_error)
next
  case (Event op)
  show ?thesis
  proof (cases "op AND fsnotify_Write = fsnotify_Write")
    case False
    then show ?thesis using Event by (intro no_blocks) (simp add: watchEvent_other)
  next
    case True
    obtain h e s1 where g: "getFileMD5 env p s = ((h, e), s1)"
      by (cases "getFileMD5 env p s") auto
    from getFileMD5_frame [of env p s] g have t1: "trace s1 = trace s" by simp
    show ?thesis
    proof (cases e)
      case (Some m)
      then show ?thesis
        using Event True g t1 by (intro no_blocks) (simp add: watchEvent_unreadable)
    next
      case None
      show ?thesis
      proof (cases "h = currentHash s")
        case True
        then show ?thesis
          using Event \<open>op AND fsnotify_Write = fsnotify_Write\<close> g None t1
          by (intro no_blocks) (simp add: watchEvent_same)
      next
        case False
        obtain e2 s2 where l: "loadConfig env p (s1\<lparr>currentHash := h\<rparr>) = (e2, s2)"
          by (cases "loadConfig env p (s1\<lparr>currentHash := h\<rparr>)")
        from loadConfig_frame [of env p "s1\<lparr>currentHash := h\<rparr>"] l t1
        have t2: "trace s2 = trace s" by simp
        show ?thesis
        proof (cases e2)
          case (Some m)
          then show ?thesis
            using Event True g None False l t2
            by (intro no_blocks) (simp add: watchEvent_load_fails)
        next
          case None2: None
          have "watchEvent env p ev s = reconcile env s2"
            using Event True g None False l None2 by (simp add: watchEvent_pass)
          with reconcile_blocks [of env s2] t2 show ?thesis by simp
        qed
      qed
    qed
  qed
qed

lemma final_Fatalf [simp]: "trace (final (logger_Fatalf f m s)) = trace s"
  by (simp add: logger_Fatalf_def logger_Printf_def logWriter_Write_def)



lemma watch_nothing:
  "trace (final (watchConfigFile env p [] s)) = trace s"
  by (simp add: watchConfigFile_def split: prod.splits option.splits)

lemma initLogger_trace: "trace (snd (initLogger env p i e d s)) = trace s"
  by (simp add: initLogger_def split: prod.splits option.splits)

lemma main_trace:
  "trace (final (main env [] w)) = [] \<or>
   (\<exists>s. trace (final (main env [] w)) = trace (state_of (setupGRETunnels env s)) \<and> trace s = []) \<or>
   (\<exists>s. trace (final (main env [] w)) = trace (state_of (reconcile env s)) \<and> trace s = [])"
proof -
  let ?p = "''/path/to/config.yml''"
  obtain e0 s0 where a0: "loadConfig env ?p (initial w) = (e0, s0)"
    by (cases "loadConfig env ?p (initial w)")
  from loadConfig_frame [of env ?p "initial w"] a0 have t0: "trace s0 = []"
    by (simp add: initial_def)
  obtain e1 s1 where a1: "initLogger env (LogFilePath (ProgramSettings (config s0)))
      (Info (Logging (ProgramSettings (config s0)))) (Error (Logging (ProgramSettings (config s0))))
      (Debug (Logging (ProgramSettings (config s0)))) s0 = (e1, s1)"
    by (cases "initLogger env (LogFilePath (ProgramSettings (config s0)))
      (Info (Logging (ProgramSettings (config s0)))) (Error (Logging (ProgramSettings (config s0))))
      (Debug (Logging (ProgramSettings (config s0)))) s0")
  from initLogger_trace [of env _ _ _ _ s0] a1 t0 have t1: "trace s1 = []"
    by (metis snd_conv)
  show ?thesis
  proof (cases e0)
    case (Some m)
    then show ?thesis using a0 t0 by (simp add: main_def)
  next
    case None
    note l = this
    show ?thesis
    proof (cases e1)
      case (Some m)
      then show ?thesis using a0 l a1 t1 by (simp add: main_def)
    next
      case None
      note o = this
      have m: "main env [] w =
         (case setupGRETunnels env s1 of
           Blocks s2 \<Rightarrow> Blocked s2
         | Returns (Some e) s2 \<Rightarrow>
             logger_Fatalf (TunnelsFailed e) (''Error setting up initial GRE tunnels: '' @ e) s2
         | Returns None s2 \<Rightarrow>
         (case setupStaticRoutes env s2 of
           Blocks s3 \<Rightarrow> Blocked s3
         | Returns (Some e) s3 \<Rightarrow>
             logger_Fatalf (StaticRoutesFailed e)
               (''Error setting up initial static routes: '' @ e) s3
         | Returns None s3 \<Rightarrow>
         (case setupECMPRoutes env s3 of
           Blocks s4 \<Rightarrow> Blocked s4
         | Returns (Some e) s4 \<Rightarrow>
             logger_Fatalf (ECMPRoutesFailed e)
               (''Error setting up initial ECMP routes: '' @ e) s4
         | Returns None s4 \<Rightarrow>
         (case getFileMD5 env ?p s4 of
           ((hash, Some e), s5) \<Rightarrow>
             logger_Fatalf (FileHashFailed e)
               (''Error computing initial file hash: '' @ e) s5
         | ((hash, None), s5) \<Rightarrow>
             watchConfigFile env ?p [] (s5\<lparr>currentHash := hash\<rparr>)))))"
        using a0 l a1 o by (simp add: main_def Let_def)
      show ?thesis
      proof (cases "setupGRETunnels env s1")
        case (Blocks s2)
        with m have "trace (final (main env [] w)) = trace (state_of (setupGRETunnels env s1))"
          by simp
        with t1 show ?thesis by blast
      next
        case (Returns e2 s2)
        note r2 = this
        show ?thesis
        proof (cases e2)
          case (Some x)
          with m r2 have "trace (final (main env [] w)) = trace (state_of (setupGRETunnels env s1))"
            by simp
          with t1 show ?thesis by blast
        next
          case None
          note n2 = this
          have rec: "reconcile env s1 =
              bind (setupStaticRoutes env s2) (\<lambda>e3 s3.
                bind (setupECMPRoutes env s3) (\<lambda>e4 s4. Returns () s4))"
            by (simp add: reconcile_def r2 n2)
          have "trace (final (main env [] w)) = trace (state_of (reconcile env s1))"
          proof (cases "setupStaticRoutes env s2")
            case (Blocks s3)
            with m r2 n2 rec show ?thesis by simp
          next
            case (Returns e3 s3)
            note r3 = this
            from setupStaticRoutes_nil [OF r3] have n3: "e3 = None" .
            show ?thesis
            proof (cases "setupECMPRoutes env s3")
              case (Blocks s4)
              with m r2 n2 rec r3 n3 show ?thesis by simp
            next
              case (Returns e4 s4)
              note r4 = this
              from setupECMPRoutes_nil [OF r4] have n4: "e4 = None" .
              obtain h e5 s5 where a5: "getFileMD5 env ?p s4 = ((h, e5), s5)"
                by (cases "getFileMD5 env ?p s4") auto
              from getFileMD5_frame [of env ?p s4] a5 have t5: "trace s5 = trace s4" by simp
              have "trace (final (main env [] w)) = trace s4"
                using m r2 n2 r3 n3 r4 n4 a5 t5 by (cases e5) (simp_all add: watch_nothing)
              with rec r3 r4 show ?thesis by simp
            qed
          qed
          with t1 show ?thesis by blast
        qed
      qed
    qed
  qed
qed

lemma tunnels_blocks:
  assumes "trace s = []"
  shows "\<exists>a b c. trace (state_of (setupGRETunnels env s)) = a @ b @ c \<and>
           list_all isTunnelOp a \<and> list_all isStaticOp b \<and> list_all isECMPOp c"
proof -
  from issues_split [OF tunnelsLoop_issues [OF issues_refl, of s env "GRETunnels (config s)"]] assms
  have "list_all isTunnelOp (trace (state_of (setupGRETunnels env s)))"
    by (auto simp: setupGRETunnels_def)
  then have "trace (state_of (setupGRETunnels env s)) = trace (state_of (setupGRETunnels env s)) @ [] @ [] \<and>
      list_all isTunnelOp (trace (state_of (setupGRETunnels env s))) \<and>
      list_all isStaticOp [] \<and> list_all isECMPOp []"
    by simp
  then show ?thesis by blast
qed

lemma main_blocks:
  "\<exists>a b c. trace (final (main env [] w)) = a @ b @ c \<and>
           list_all isTunnelOp a \<and> list_all isStaticOp b \<and> list_all isECMPOp c"
proof -
  consider "trace (final (main env [] w)) = []"
    | s where "trace (final (main env [] w)) = trace (state_of (setupGRETunnels env s))" "trace s = []"
    | s where "trace (final (main env [] w)) = trace (state_of (reconcile env s))" "trace s = []"
    using main_trace [of env w] by blast
  then show ?thesis
  proof cases
    case 1
    then show ?thesis by simp
  next
    case 2
    with tunnels_blocks [of s env] show ?thesis by simp
  next
    case 3
    with reconcile_blocks [of env s] show ?thesis by simp
  qed
qed



text \<open>The same for the listing in \<^verbatim>\<open>src/README.md\<close>.\<close>

lemma watchEvent_R_blocks:
  "\<exists>a b c. trace (watchEvent_R env p ev s) = trace s @ a @ b @ c \<and>
           list_all isTunnelOp a \<and> list_all isStaticOp b \<and> list_all isECMPOp c"
proof (cases ev)
  case (WatcherError e)
  then show ?thesis by (intro no_blocks) (simp add: watchEvent_R_error)
next
  case (Event op)
  show ?thesis
  proof (cases "op AND fsnotify_Write = fsnotify_Write")
    case False
    then show ?thesis using Event by (intro no_blocks) (simp add: watchEvent_R_other)
  next
    case True
    obtain h e s1 where g: "getFileMD5 env p s = ((h, e), s1)"
      by (cases "getFileMD5 env p s") auto
    from getFileMD5_frame [of env p s] g have t1: "trace s1 = trace s" by simp
    show ?thesis
    proof (cases e)
      case (Some m)
      then show ?thesis
        using Event True g t1 by (intro no_blocks) (simp add: watchEvent_R_unreadable)
    next
      case None
      show ?thesis
      proof (cases "h = currentHash s")
        case True
        then show ?thesis
          using Event \<open>op AND fsnotify_Write = fsnotify_Write\<close> g None t1
          by (intro no_blocks) (simp add: watchEvent_R_same)
      next
        case False
        obtain e2 s2 where l: "loadConfig env p (s1\<lparr>currentHash := h\<rparr>) = (e2, s2)"
          by (cases "loadConfig env p (s1\<lparr>currentHash := h\<rparr>)")
        from loadConfig_frame [of env p "s1\<lparr>currentHash := h\<rparr>"] l t1
        have t2: "trace s2 = trace s" by simp
        show ?thesis
        proof (cases e2)
          case (Some m)
          then show ?thesis
            using Event True g None False l t2
            by (intro no_blocks) (simp add: watchEvent_R_load_fails)
        next
          case None2: None
          have "watchEvent_R env p ev s = reconcile_R env s2"
            using Event True g None False l None2 by (simp add: watchEvent_R_pass)
          with reconcile_R_blocks [of env s2] t2 show ?thesis by simp
        qed
      qed
    qed
  qed
qed

lemma main_R_trace:
  "trace (final (main_R env [] w)) = [] \<or>
   (\<exists>s. trace (final (main_R env [] w)) = trace (snd (setupGRETunnels_R env s)) \<and> trace s = []) \<or>
   (\<exists>s. trace (final (main_R env [] w)) = trace (reconcile_R env s) \<and> trace s = [])"
proof -
  let ?p = "''/etc/krouter/config.yml''"
  obtain e0 s0 where a0: "loadConfig env ?p (initial w) = (e0, s0)"
    by (cases "loadConfig env ?p (initial w)")
  from loadConfig_frame [of env ?p "initial w"] a0 have t0: "trace s0 = []"
    by (simp add: initial_def)
  obtain e1 s1 where a1: "initLogger env (LogFilePath (ProgramSettings (config s0)))
      (Info (Logging (ProgramSettings (config s0)))) (Error (Logging (ProgramSettings (config s0))))
      (Debug (Logging (ProgramSettings (config s0)))) s0 = (e1, s1)"
    by (cases "initLogger env (LogFilePath (ProgramSettings (config s0)))
      (Info (Logging (ProgramSettings (config s0)))) (Error (Logging (ProgramSettings (config s0))))
      (Debug (Logging (ProgramSettings (config s0)))) s0")
  from initLogger_trace [of env _ _ _ _ s0] a1 t0 have t1: "trace s1 = []"
    by (metis snd_conv)
  obtain e2 s2 where a2: "setupGRETunnels_R env s1 = (e2, s2)" by (cases "setupGRETunnels_R env s1")
  obtain e3 s3 where a3: "setupStaticRoutes_R env s2 = (e3, s3)" by (cases "setupStaticRoutes_R env s2")
  obtain e4 s4 where a4: "setupECMPRoutes_R env s3 = (e4, s4)" by (cases "setupECMPRoutes_R env s3")
  obtain h e5 s5 where a5: "getFileMD5 env ?p s4 = ((h, e5), s5)"
    by (cases "getFileMD5 env ?p s4") auto
  from getFileMD5_frame [of env ?p s4] a5 have t5: "trace s5 = trace s4" by simp
  from setupStaticRoutes_R_nil [OF a3] setupECMPRoutes_R_nil [OF a4] have n: "e3 = None" "e4 = None"
    by simp_all
  have r: "e2 = None \<Longrightarrow> reconcile_R env s1 = s4"
    using a2 a3 a4 by (simp add: reconcile_R_def)
  have w: "trace (final (watchConfigFile_R env ?p [] (s5\<lparr>currentHash := h\<rparr>))) = trace s5"
    by (simp add: watchConfigFile_R_def split: prod.splits option.splits)
  show ?thesis
  proof (cases e0)
    case (Some m)
    then show ?thesis using a0 t0 by (simp add: main_R_def)
  next
    case None
    note l = this
    show ?thesis
    proof (cases e1)
      case (Some m)
      then show ?thesis using a0 l a1 t1 by (simp add: main_R_def)
    next
      case None
      note o = this
      show ?thesis
      proof (cases e2)
        case (Some m)
        have "trace (final (main_R env [] w)) = trace (snd (setupGRETunnels_R env s1))"
          using a0 l a1 o a2 Some by (simp add: main_R_def)
        with t1 show ?thesis by blast
      next
        case None
        have "trace (final (main_R env [] w)) = trace s4"
          using a0 l a1 o a2 None a3 a4 n a5 t5 w by (cases e5) (simp_all add: main_R_def)
        with r [OF None] t1 show ?thesis by metis
      qed
    qed
  qed
qed

lemma tunnels_R_blocks:
  assumes "trace s = []"
  shows "\<exists>a b c. trace (snd (setupGRETunnels_R env s)) = a @ b @ c \<and>
           list_all isTunnelOp a \<and> list_all isStaticOp b \<and> list_all isECMPOp c"
proof -
  from issues_split [OF tunnelsLoop_R_issues [OF issues_refl, of s env "GRETunnels (config s)"]] assms
  have "list_all isTunnelOp (trace (snd (setupGRETunnels_R env s)))"
    by (auto simp: setupGRETunnels_R_def)
  then have "trace (snd (setupGRETunnels_R env s)) = trace (snd (setupGRETunnels_R env s)) @ [] @ [] \<and>
      list_all isTunnelOp (trace (snd (setupGRETunnels_R env s))) \<and>
      list_all isStaticOp [] \<and> list_all isECMPOp []"
    by simp
  then show ?thesis by blast
qed

lemma main_R_blocks:
  "\<exists>a b c. trace (final (main_R env [] w)) = a @ b @ c \<and>
           list_all isTunnelOp a \<and> list_all isStaticOp b \<and> list_all isECMPOp c"
proof -
  consider "trace (final (main_R env [] w)) = []"
    | s where "trace (final (main_R env [] w)) = trace (snd (setupGRETunnels_R env s))" "trace s = []"
    | s where "trace (final (main_R env [] w)) = trace (reconcile_R env s)" "trace s = []"
    using main_R_trace [of env w] by blast
  then show ?thesis
  proof cases
    case 1
    then show ?thesis by simp
  next
    case 2
    with tunnels_R_blocks [of s env] show ?thesis by simp
  next
    case 3
    with reconcile_R_blocks [of env s] show ?thesis by simp
  qed
qed



subsection \<open>One item at a time\<close>

lemma Contains_iff: "Contains s sub \<longleftrightarrow> (\<exists>a b. s = a @ sub @ b)"
proof -
  have "Contains s sub = sublist sub s"
    by (induction s) (simp_all add: sublist_Cons_right)
  then show ?thesis by (simp add: sublist_def)
qed

lemma nexthopArgs_concat: "nexthopArgs nhs = concat (map nexthop_words nhs)"
proof -
  have "foldl (\<lambda>acc nh. acc @ nexthop_words nh) a nhs = a @ concat (map nexthop_words nhs)" for a
    by (induction nhs arbitrary: a) simp_all
  from this [of "[]"] show ?thesis by (simp add: nexthopArgs_def nexthop_words_def)
qed

lemma ecmpArgs_ecmp_add: "''ip'' # ecmpArgs e = ecmp_add e"
  by (simp add: ecmpArgs_def ecmp_add_def nexthopArgs_concat)

lemma exec_trace [simp]: "trace (snd (execCommand env c a s)) = trace s @ [c # a]"
  by (simp add: execCommand_def split: prod.splits)

lemma exec_R_trace [simp]: "trace (snd (execCommand_R env c a s)) = trace s @ [c # a]"
  by (simp add: execCommand_R_def split: prod.splits)

lemma exec_traceD: "execCommand env c a s = (e, s') \<Longrightarrow> trace s' = trace s @ [c # a]"
  by (auto simp: execCommand_def split: prod.splits)

lemma exec_R_traceD: "execCommand_R env c a s = (r, s') \<Longrightarrow> trace s' = trace s @ [c # a]"
  by (auto simp: execCommand_R_def split: prod.splits)

text \<open>The route steps of \<^verbatim>\<open>src/main.go\<close>.\<close>

lemma staticStep_trace: "trace (state_of (staticStep env r s)) = trace s @ [route_add r]"
  by (auto simp: staticStep_def route_add_def split: prod.splits option.splits dest: exec_traceD)

lemma staticLoop_trace:
  "staticLoop env rs s = Returns e s' \<Longrightarrow> trace s' = trace s @ map route_add rs"
proof (induction rs arbitrary: s)
  case Nil
  then show ?case by simp
next
  case (Cons r rs)
  show ?case
  proof (cases "staticStep env r s")
    case (Returns u s1)
    with staticStep_trace [of env r s] have "trace s1 = trace s @ [route_add r]" by simp
    moreover from Cons.prems Returns have "staticLoop env rs s1 = Returns e s'" by simp
    from Cons.IH [OF this] have "trace s' = trace s1 @ map route_add rs" .
    ultimately show ?thesis by simp
  next
    case (Blocks s1)
    with Cons.prems show ?thesis by simp
  qed
qed

lemma staticLoop_off_trace:
  assumes "\<not> infoEnabled (logger s)"
  shows "\<exists>s'. staticLoop env rs s = Returns None s' \<and> trace s' = trace s @ map route_add rs"
proof -
  from staticLoop_off [OF assms, of env rs] obtain s'
    where 1: "staticLoop env rs s = Returns None s'" by blast
  from staticLoop_trace [OF this] 1 show ?thesis by simp
qed

lemma ecmpStep_trace: "trace (state_of (ecmpStep env e s)) = trace s @ [ecmp_add e]"
  by (auto simp: ecmpStep_def Let_def ecmpArgs_ecmp_add [symmetric]
           split: prod.splits option.splits dest: exec_traceD)

text \<open>The route steps of the listing in \<^verbatim>\<open>src/README.md\<close>.\<close>

lemma routeExists_trace:
  "trace (snd (routeExists env d g s)) = trace s @ [route_show]"
  by (simp add: routeExists_snd route_show_def)

lemma staticStep_R_trace:
  "trace (staticStep_R env r s) =
     trace s @ route_show #
       (if fst (routeExists env (Destination r) (Gateway r) s) then [] else [route_add r])"
proof -
  obtain p s1 where pr: "routeExists env (Destination r) (Gateway r) s = (p, s1)"
    by (cases "routeExists env (Destination r) (Gateway r) s")
  from routeExists_trace [of env "Destination r" "Gateway r" s] pr
  have t1: "trace s1 = trace s @ [route_show]" by simp
  show ?thesis
    by (auto simp: staticStep_R_def pr t1 route_add_def split: prod.splits option.splits
             dest: exec_R_traceD)
qed

lemma ecmpRouteExists_trace:
  "trace (snd (ecmpRouteExists env (Route e) (Table e) s)) = trace s @ [ecmp_show e]"
  by (simp add: ecmpRouteExists_snd ecmp_show_def)

lemma ecmpStep_R_trace:
  "trace (ecmpStep_R env e s) =
     trace s @ ecmp_show e #
       (if fst (ecmpRouteExists env (Route e) (Table e) s) then [] else [ecmp_add e])"
proof -
  obtain p s1 where pr: "ecmpRouteExists env (Route e) (Table e) s = (p, s1)"
    by (cases "ecmpRouteExists env (Route e) (Table e) s")
  from ecmpRouteExists_trace [of env e s] pr
  have t1: "trace s1 = trace s @ [ecmp_show e]" by simp
  show ?thesis
    by (auto simp: ecmpStep_R_def Let_def pr t1 ecmpArgs_ecmp_add [symmetric]
             split: prod.splits option.splits dest: exec_R_traceD)
qed

lemma staticLoop_R_trace:
  "\<exists>ps. length ps = length rs \<and>
        trace (snd (staticLoop_R env rs s)) =
          trace s @ concat (map2 (\<lambda>p r. route_show # (if p then [] else [route_add r])) ps rs)"
proof (induction rs arbitrary: s)
  case Nil
  then show ?case by simp
next
  case (Cons r rs)
  let ?p = "fst (routeExists env (Destination r) (Gateway r) s)"
  from Cons.IH [of "staticStep_R env r s"] obtain ps where ps: "length ps = length rs"
      "trace (snd (staticLoop_R env rs (staticStep_R env r s))) =
         trace (staticStep_R env r s) @
           concat (map2 (\<lambda>p r. route_show # (if p then [] else [route_add r])) ps rs)"
    by blast
  have "length (?p # ps) = length (r # rs) \<and>
      trace (snd (staticLoop_R env (r # rs) s)) =
        trace s @ concat (map2 (\<lambda>p r. route_show # (if p then [] else [route_add r])) (?p # ps) (r # rs))"
    using ps by (simp add: staticStep_R_trace)
  then show ?case by blast
qed

text \<open>The tunnel step of \<^verbatim>\<open>src/main.go\<close>.\<close>

lemma tunnelDelete_trace: "trace (state_of (tunnelDelete env t s)) = trace s @ [tunnel_del t]"
  by (auto simp: tunnelDelete_def tunnel_del_def split: prod.splits option.splits dest: exec_traceD)

lemma tunnelCreate_trace:
  "\<exists>cs. trace (state_of (tunnelCreate env t s)) = trace s @ tunnel_add t # cs \<and>
        prefix cs [tunnel_addr t, tunnel_up t]"
  by (simp add: tunnelCreate_def execCommand_def tunnel_add_def tunnel_addr_def tunnel_up_def
        split: prod.splits option.splits)

lemma tunnelCreate_ok_trace:
  "tunnelCreate env t s = Returns None s' \<Longrightarrow>
   trace s' = trace s @ [tunnel_add t, tunnel_addr t, tunnel_up t]"
  by (auto simp: tunnelCreate_def execCommand_def tunnel_add_def tunnel_addr_def tunnel_up_def
        logger_Printf_def logWriter_Write_def split: prod.splits option.splits if_splits)

lemma tunnelStep_del_trace:
  "\<exists>cs. trace (state_of (tunnelStep env t s)) = trace s @ tunnel_del t # cs \<and>
        prefix cs [tunnel_add t, tunnel_addr t, tunnel_up t]"
proof (cases "tunnelDelete env t s")
  case (Returns u s1)
  with tunnelDelete_trace [of env t s] have 1: "trace s1 = trace s @ [tunnel_del t]" by simp
  from tunnelCreate_trace [of env t s1] obtain cs
    where "trace (state_of (tunnelCreate env t s1)) = trace s1 @ tunnel_add t # cs"
      "prefix cs [tunnel_addr t, tunnel_up t]" by blast
  with 1 Returns have "trace (state_of (tunnelStep env t s)) = trace s @ tunnel_del t # (tunnel_add t # cs) \<and>
      prefix (tunnel_add t # cs) [tunnel_add t, tunnel_addr t, tunnel_up t]"
    by (simp add: tunnelStep_def)
  then show ?thesis by blast
next
  case (Blocks s1)
  with tunnelDelete_trace [of env t s]
  have "trace (state_of (tunnelStep env t s)) = trace s @ tunnel_del t # [] \<and>
      prefix [] [tunnel_add t, tunnel_addr t, tunnel_up t]"
    by (simp add: tunnelStep_def)
  then show ?thesis by blast
qed

lemma tunnelStep_add_trace:
  assumes "tunnelDelete env t s = Returns u s1"
  shows "\<exists>cs. trace (state_of (tunnelStep env t s)) = trace s @ tunnel_del t # tunnel_add t # cs \<and>
        prefix cs [tunnel_addr t, tunnel_up t]"
proof -
  from assms tunnelDelete_trace [of env t s] have 1: "trace s1 = trace s @ [tunnel_del t]" by simp
  from tunnelCreate_trace [of env t s1] obtain cs
    where "trace (state_of (tunnelCreate env t s1)) = trace s1 @ tunnel_add t # cs"
      "prefix cs [tunnel_addr t, tunnel_up t]" by blast
  with 1 assms have "trace (state_of (tunnelStep env t s)) = trace s @ tunnel_del t # tunnel_add t # cs \<and>
      prefix cs [tunnel_addr t, tunnel_up t]"
    by (simp add: tunnelStep_def)
  then show ?thesis by blast
qed

lemma tunnelStep_ok_trace:
  assumes "tunnelStep env t s = Returns None s'"
  shows "trace s' = trace s @ tunnelOps t"
proof (cases "tunnelDelete env t s")
  case (Returns u s1)
  with tunnelDelete_trace [of env t s] have 1: "trace s1 = trace s @ [tunnel_del t]" by simp
  from assms Returns have "tunnelCreate env t s1 = Returns None s'" by (simp add: tunnelStep_def)
  from tunnelCreate_ok_trace [OF this] 1 show ?thesis by (simp add: tunnelOps_def)
next
  case (Blocks s1)
  with assms show ?thesis by (simp add: tunnelStep_def)
qed

lemma tunnelsLoop_append:
  "tunnelsLoop env (xs @ ys) s =
     (case tunnelsLoop env xs s of
        Returns (Some e) s' \<Rightarrow> Returns (Some e) s'
      | Returns None s' \<Rightarrow> tunnelsLoop env ys s'
      | Blocks s' \<Rightarrow> Blocks s')"
  by (induction xs arbitrary: s) (auto split: run.splits option.splits)

lemma tunnelsLoop_fails:
  assumes "tunnelsLoop env pre s = Returns None s1" and "tunnelDelete env t s1 = Returns u s2"
    and "tunnelCreate env t s2 = Returns (Some e) s3"
  shows "tunnelsLoop env (pre @ t # post) s = Returns (Some e) s3"
  using assms by (simp add: tunnelsLoop_append tunnelStep_def)

lemma tunnelsLoop_ok_trace:
  "tunnelsLoop env ts s = Returns None s' \<Longrightarrow> trace s' = trace s @ concat (map tunnelOps ts)"
proof (induction ts arbitrary: s)
  case Nil
  then show ?case by simp
next
  case (Cons t ts)
  show ?case
  proof (cases "tunnelStep env t s")
    case (Blocks s1)
    with Cons.prems show ?thesis by simp
  next
    case (Returns e s1)
    with Cons.prems have e: "e = None" by (cases e) simp_all
    from tunnelStep_ok_trace [of env t s s1] Returns e have "trace s1 = trace s @ tunnelOps t"
      by simp
    moreover from Cons.prems Returns e have "tunnelsLoop env ts s1 = Returns None s'" by simp
    from Cons.IH [OF this] have "trace s' = trace s1 @ concat (map tunnelOps ts)" .
    ultimately show ?thesis by simp
  qed
qed

lemma tunnelCreate_add_fails:
  "issue env (tunnel_add t) s = (Some e, s') \<Longrightarrow> tunnelCreate env t s = Returns (Some e) s'"
  by (simp add: issue_def tunnel_add_def tunnelCreate_def)

lemma tunnelCreate_addr_fails:
  "issue env (tunnel_add t) s = (None, s1) \<Longrightarrow> issue env (tunnel_addr t) s1 = (Some e, s') \<Longrightarrow>
   tunnelCreate env t s = Returns (Some e) s'"
  by (simp add: issue_def tunnel_add_def tunnel_addr_def tunnelCreate_def)

lemma tunnelCreate_up_fails:
  "issue env (tunnel_add t) s = (None, s1) \<Longrightarrow> issue env (tunnel_addr t) s1 = (None, s2) \<Longrightarrow>
   issue env (tunnel_up t) s2 = (Some e, s') \<Longrightarrow> tunnelCreate env t s = Returns (Some e) s'"
  by (simp add: issue_def tunnel_add_def tunnel_addr_def tunnel_up_def tunnelCreate_def)

text \<open>The tunnel step of the listing in \<^verbatim>\<open>src/README.md\<close>.\<close>

lemma tunnelExists_fst:
  "fst (tunnelExists env n s) = Contains (fst (fst (Run env ''ip'' [''tunnel'', ''show''] (world s)))) n"
  by (simp add: tunnelExists_def execCommand_R_def split: prod.splits)

lemma routeExists_fst:
  "fst (routeExists env d g s) =
     (Contains (fst (fst (Run env ''ip'' [''route'', ''show''] (world s)))) d \<and>
      Contains (fst (fst (Run env ''ip'' [''route'', ''show''] (world s)))) g)"
  by (simp add: routeExists_def execCommand_R_def split: prod.splits)

lemma ecmpRouteExists_fst:
  "fst (ecmpRouteExists env r t s) =
     list_ex (\<lambda>line. Contains line r)
       (ScanLines (fst (fst (Run env ''ip'' [''route'', ''show'', ''table'', t] (world s)))))"
  by (simp add: ecmpRouteExists_def execCommand_R_def split: prod.splits)

lemma ScanLines_empty: "ScanLines [] = []"
  by (simp add: ScanLines_def)

lemma tunnelExists_trace:
  "trace (snd (tunnelExists env n s)) = trace s @ [tunnel_show]"
  by (simp add: tunnelExists_snd tunnel_show_def)

lemma tunnelDelete_R_trace:
  "trace (tunnelDelete_R env t s) =
     trace s @ tunnel_show # (if fst (tunnelExists env (Name t) s) then [tunnel_del t] else [])"
proof -
  obtain p s0 where pr: "tunnelExists env (Name t) s = (p, s0)"
    by (cases "tunnelExists env (Name t) s")
  from tunnelExists_trace [of env "Name t" s] pr have t0: "trace s0 = trace s @ [tunnel_show]"
    by simp
  show ?thesis
    by (auto simp: tunnelDelete_R_def pr t0 tunnel_del_def split: prod.splits option.splits
             dest: exec_R_traceD)
qed

lemma tunnelCreate_R_trace:
  "\<exists>cs. trace (snd (tunnelCreate_R env t s)) = trace s @ tunnel_add t # cs \<and>
        prefix cs [tunnel_addr t, tunnel_up t] \<and>
        (fst (tunnelCreate_R env t s) = None \<longrightarrow> cs = [tunnel_addr t, tunnel_up t])"
  by (simp add: tunnelCreate_R_def execCommand_R_def logger_Printf_R_def tunnel_add_def
        tunnel_addr_def tunnel_up_def split: prod.splits option.splits)

lemma tunnelStep_R_trace:
  "\<exists>cs. trace (snd (tunnelStep_R env t s)) =
          trace s @ tunnel_show # (if fst (tunnelExists env (Name t) s) then [tunnel_del t] else [])
            @ tunnel_add t # cs \<and>
        prefix cs [tunnel_addr t, tunnel_up t] \<and>
        (fst (tunnelStep_R env t s) = None \<longrightarrow> cs = [tunnel_addr t, tunnel_up t])"
  using tunnelCreate_R_trace [of env t "tunnelDelete_R env t s"]
  by (simp add: tunnelStep_R_def tunnelDelete_R_trace)

lemma tunnelsLoop_R_append:
  "tunnelsLoop_R env (xs @ ys) s =
     (case tunnelsLoop_R env xs s of (Some e, s') \<Rightarrow> (Some e, s') | (None, s') \<Rightarrow> tunnelsLoop_R env ys s')"
  by (induction xs arbitrary: s) (auto split: prod.splits option.splits)

lemma tunnelsLoop_R_fails:
  assumes "tunnelsLoop_R env pre s = (None, s1)"
    and "tunnelCreate_R env t (tunnelDelete_R env t s1) = (Some e, s3)"
  shows "tunnelsLoop_R env (pre @ t # post) s = (Some e, s3)"
  using assms by (simp add: tunnelsLoop_R_append tunnelStep_R_def)

lemma tunnelsLoop_R_ok_trace:
  "fst (tunnelsLoop_R env ts s) = None \<Longrightarrow>
   \<exists>ps. length ps = length ts \<and>
        trace (snd (tunnelsLoop_R env ts s)) = trace s @ concat (map2 tunnelOps_R ps ts)"
proof (induction ts arbitrary: s)
  case Nil
  then show ?case by simp
next
  case (Cons t ts)
  obtain e s' where st: "tunnelStep_R env t s = (e, s')" by (cases "tunnelStep_R env t s")
  with Cons.prems have e: "e = None" by (cases e) simp_all
  from tunnelStep_R_trace [of env t s] st e
  have 1: "trace s' = trace s @ tunnelOps_R (fst (tunnelExists env (Name t) s)) t"
    by (auto simp: tunnelOps_R_def)
  from Cons.prems st e have "fst (tunnelsLoop_R env ts s') = None" by simp
  from Cons.IH [OF this] obtain ps where ps: "length ps = length ts"
      "trace (snd (tunnelsLoop_R env ts s')) = trace s' @ concat (map2 tunnelOps_R ps ts)"
    by blast
  have "length (fst (tunnelExists env (Name t) s) # ps) = length (t # ts) \<and>
      trace (snd (tunnelsLoop_R env (t # ts) s)) =
        trace s @ concat (map2 tunnelOps_R (fst (tunnelExists env (Name t) s) # ps) (t # ts))"
    using ps 1 st e by simp
  then show ?case by blast
qed

lemma tunnelCreate_R_add_fails:
  "issue_R env (tunnel_add t) s = ((out, Some e), s') \<Longrightarrow> tunnelCreate_R env t s = (Some e, s')"
  by (simp add: issue_R_def tunnel_add_def tunnelCreate_R_def)

lemma tunnelCreate_R_addr_fails:
  "issue_R env (tunnel_add t) s = ((out, None), s1) \<Longrightarrow>
   issue_R env (tunnel_addr t) s1 = ((out', Some e), s') \<Longrightarrow>
   tunnelCreate_R env t s = (Some e, s')"
  by (simp add: issue_R_def tunnel_add_def tunnel_addr_def tunnelCreate_R_def)

lemma tunnelCreate_R_up_fails:
  "issue_R env (tunnel_add t) s = ((out, None), s1) \<Longrightarrow>
   issue_R env (tunnel_addr t) s1 = ((out', None), s2) \<Longrightarrow>
   issue_R env (tunnel_up t) s2 = ((out'', Some e), s') \<Longrightarrow>
   tunnelCreate_R env t s = (Some e, s')"
  by (simp add: issue_R_def tunnel_add_def tunnel_addr_def tunnel_up_def tunnelCreate_R_def)

subsection \<open>Evaluating the concrete inputs\<close>

lemmas eval_simps =
  plainEnv_def testEnv_def initial_def execCommand_def execCommand_R_def
  logger_Printf_def logWriter_Write_def logger_Printf_R_def
  tunnelStep_def tunnelDelete_def tunnelCreate_def
  tunnelStep_R_def tunnelDelete_R_def tunnelCreate_R_def tunnelExists_def
  staticStep_def staticStep_R_def routeExists_def
  ecmpStep_def ecmpStep_R_def ecmpRouteExists_def
  tunnel_show_def tunnel_del_def tunnel_add_def tunnel_addr_def tunnel_up_def tunnelOps_def
  tunnelOps_R_def route_show_def route_add_def ecmp_show_def
  gre1_def gre2_def route1_def route2_def
  allSucceed_def

subsection \<open>The fingerprint\<close>

lemma md5_RFC1321_empty: "EncodeToString (md5_Sum []) = ''d41d8cd98f00b204e9800998ecf8427e''"
  by code_simp

lemma md5_RFC1321_abc:
  "EncodeToString (md5_Sum [0x61, 0x62, 0x63]) = ''900150983cd24fb0d6963f7d28e17f72''"
  by code_simp



lemma md5_smallFile: "EncodeToString (md5_Sum smallFile) = ''cdddc37cbb4e21a12518aa94ada9edcf''"
  by code_simp

lemma md5_badFile: "EncodeToString (md5_Sum badFile) = ''518ed29525738cebdac49c49e60ea9d3''"
  by code_simp


lemma length_md5_Sum: "length (md5_Sum m) = 16"
  by (simp add: md5_Sum_def Let_def bytes_le32_def split: prod.splits)

lemma length_EncodeToString: "length (EncodeToString bs) = 2 * length bs"
  by (induction bs) (simp_all add: EncodeToString_def)

lemma fingerprint_not_empty: "EncodeToString (md5_Sum m) \<noteq> []"
proof
  assume "EncodeToString (md5_Sum m) = []"
  then have "length (EncodeToString (md5_Sum m)) = 0" by simp
  then show False by (simp add: length_EncodeToString length_md5_Sum)
qed

subsection \<open>A write event, by what the file holds\<close>

lemma getFileMD5_ok:
  "ReadFile env p (world s) = ((data, None), w) \<Longrightarrow>
   getFileMD5 env p s = ((EncodeToString (md5_Sum data), None), s\<lparr>world := w\<rparr>)"
  by (simp add: getFileMD5_def)

lemma watchEvent_changed:
  assumes "op AND fsnotify_Write = fsnotify_Write"
    and "ReadFile env p (world s) = ((data, None), w)"
    and "EncodeToString (md5_Sum data) \<noteq> currentHash s"
  shows "watchEvent env p (Event op) s =
           (case loadConfig env p (s\<lparr>world := w, currentHash := EncodeToString (md5_Sum data)\<rparr>) of
              (Some e, s2) \<Rightarrow> logger_Printf (''Error loading config: '' @ e) s2
            | (None, s2) \<Rightarrow> reconcile env s2)"
proof -
  let ?h = "EncodeToString (md5_Sum data)"
  from assms(2) have g: "getFileMD5 env p s = ((?h, None), s\<lparr>world := w\<rparr>)"
    by (rule getFileMD5_ok)
  obtain e s2 where l: "loadConfig env p (s\<lparr>world := w, currentHash := ?h\<rparr>) = (e, s2)"
    by (cases "loadConfig env p (s\<lparr>world := w, currentHash := ?h\<rparr>)")
  show ?thesis
  proof (cases e)
    case None
    with watchEvent_pass [OF assms(1) g assms(3), of s2] l show ?thesis by simp
  next
    case (Some m)
    with watchEvent_load_fails [OF assms(1) g assms(3), of m s2] l show ?thesis by simp
  qed
qed

lemma watchEvent_fingerprint:
  assumes "op AND fsnotify_Write = fsnotify_Write"
    and "ReadFile env p (world s) = ((data, None), w)"
    and "EncodeToString (md5_Sum data) \<noteq> currentHash s"
  shows "currentHash (state_of (watchEvent env p (Event op) s)) = EncodeToString (md5_Sum data)"
proof -
  let ?h = "EncodeToString (md5_Sum data)"
  obtain e s2 where l: "loadConfig env p (s\<lparr>world := w, currentHash := ?h\<rparr>) = (e, s2)"
    by (cases "loadConfig env p (s\<lparr>world := w, currentHash := ?h\<rparr>)")
  from loadConfig_frame [of env p "s\<lparr>world := w, currentHash := ?h\<rparr>"] l
  have h: "currentHash s2 = ?h" by simp
  show ?thesis
    using watchEvent_changed [OF assms] l h reconcile_fields [of env s2]
    by (cases e) simp_all
qed

lemma watchEvent_unchanged:
  assumes "op AND fsnotify_Write = fsnotify_Write"
    and "ReadFile env p (world s) = ((data, None), w)"
    and "EncodeToString (md5_Sum data) = currentHash s"
  shows "watchEvent env p (Event op) s = Returns () (s\<lparr>world := w\<rparr>)"
  using watchEvent_same [OF assms(1) getFileMD5_ok [OF assms(2)]] assms(3) by simp

lemma reconcile_R_fields:
  "currentHash (reconcile_R env s) = currentHash s \<and> config (reconcile_R env s) = config s"
proof -
  obtain e s1 where t: "setupGRETunnels_R env s = (e, s1)" by (cases "setupGRETunnels_R env s")
  define s2 where "s2 = (case e of Some m \<Rightarrow> logger_Printf_R (''Error setting up GRE tunnels: '' @ m) s1 | None \<Rightarrow> s1)"
  have "issues isTunnelOp s s1"
    using tunnelsLoop_R_issues [OF issues_refl, of s env "GRETunnels (config s)"] t
    by (simp add: setupGRETunnels_R_def)
  from issues_fields [OF this] have 1: "currentHash s2 = currentHash s \<and> config s2 = config s"
    by (simp add: s2_def logger_Printf_R_def split: option.splits)
  have "issues isStaticOp s2 (snd (setupStaticRoutes_R env s2))"
    unfolding setupStaticRoutes_R_def by (rule staticLoop_R_issues [OF issues_refl])
  from issues_fields [OF this]
  have 2: "currentHash (snd (setupStaticRoutes_R env s2)) = currentHash s2 \<and>
      config (snd (setupStaticRoutes_R env s2)) = config s2" by simp
  have "issues isECMPOp (snd (setupStaticRoutes_R env s2)) (snd (setupECMPRoutes_R env (snd (setupStaticRoutes_R env s2))))"
    unfolding setupECMPRoutes_R_def by (rule ecmpLoop_R_issues [OF issues_refl])
  from issues_fields [OF this] 1 2
  have 3: "currentHash (snd (setupECMPRoutes_R env (snd (setupStaticRoutes_R env s2)))) = currentHash s \<and>
      config (snd (setupECMPRoutes_R env (snd (setupStaticRoutes_R env s2)))) = config s"
    by simp
  have "reconcile_R env s = snd (setupECMPRoutes_R env (snd (setupStaticRoutes_R env s2)))"
    by (simp add: reconcile_R_def t s2_def)
  with 3 show ?thesis by simp
qed

lemma watchEvent_R_changed:
  assumes "op AND fsnotify_Write = fsnotify_Write"
    and "ReadFile env p (world s) = ((data, None), w)"
    and "EncodeToString (md5_Sum data) \<noteq> currentHash s"
  shows "watchEvent_R env p (Event op) s =
           (case loadConfig env p (s\<lparr>world := w, currentHash := EncodeToString (md5_Sum data)\<rparr>) of
              (Some e, s2) \<Rightarrow> logger_Printf_R (''Error loading config: '' @ e) s2
            | (None, s2) \<Rightarrow> reconcile_R env s2)"
proof -
  let ?h = "EncodeToString (md5_Sum data)"
  from assms(2) have g: "getFileMD5 env p s = ((?h, None), s\<lparr>world := w\<rparr>)"
    by (rule getFileMD5_ok)
  obtain e s2 where l: "loadConfig env p (s\<lparr>world := w, currentHash := ?h\<rparr>) = (e, s2)"
    by (cases "loadConfig env p (s\<lparr>world := w, currentHash := ?h\<rparr>)")
  show ?thesis
  proof (cases e)
    case None
    with watchEvent_R_pass [OF assms(1) g assms(3), of s2] l show ?thesis by simp
  next
    case (Some m)
    with watchEvent_R_load_fails [OF assms(1) g assms(3), of m s2] l show ?thesis by simp
  qed
qed

lemma watchEvent_R_fingerprint:
  assumes "op AND fsnotify_Write = fsnotify_Write"
    and "ReadFile env p (world s) = ((data, None), w)"
    and "EncodeToString (md5_Sum data) \<noteq> currentHash s"
  shows "currentHash (watchEvent_R env p (Event op) s) = EncodeToString (md5_Sum data)"
proof -
  let ?h = "EncodeToString (md5_Sum data)"
  obtain e s2 where l: "loadConfig env p (s\<lparr>world := w, currentHash := ?h\<rparr>) = (e, s2)"
    by (cases "loadConfig env p (s\<lparr>world := w, currentHash := ?h\<rparr>)")
  from loadConfig_frame [of env p "s\<lparr>world := w, currentHash := ?h\<rparr>"] l
  have h: "currentHash s2 = ?h" by simp
  show ?thesis
    using watchEvent_R_changed [OF assms] l h reconcile_R_fields [of env s2]
    by (cases e) (simp_all add: logger_Printf_R_def)
qed

lemma watchEvent_R_unchanged:
  assumes "op AND fsnotify_Write = fsnotify_Write"
    and "ReadFile env p (world s) = ((data, None), w)"
    and "EncodeToString (md5_Sum data) = currentHash s"
  shows "watchEvent_R env p (Event op) s = s\<lparr>world := w\<rparr>"
  using watchEvent_R_same [OF assms(1) getFileMD5_ok [OF assms(2)]] assms(3) by simp

subsection \<open>No command has two kinds\<close>

lemma phases_disjoint:
  "\<not> (isTunnelOp c \<and> isStaticOp c) \<and> \<not> (isTunnelOp c \<and> isECMPOp c) \<and>
   \<not> (isStaticOp c \<and> isECMPOp c)"
proof -
  have "isTunnelOp c \<Longrightarrow> \<exists>k rest. c = ''ip'' # k # rest \<and> k \<noteq> ''route''"
    by (cases c rule: isTunnelOp.cases) auto
  moreover have "isStaticOp c \<Longrightarrow> \<exists>rest. c = ''ip'' # ''route'' # rest \<and> length rest \<in> {1, 4}"
    by (cases c; cases "tl c"; cases "tl (tl c)") (auto simp: isStaticOp_def)
  moreover have "isECMPOp c \<Longrightarrow> \<exists>rest. c = ''ip'' # ''route'' # rest \<and> length rest \<notin> {1, 4}"
    by (cases c; cases "tl c"; cases "tl (tl c)") (auto simp: isECMPOp_def)
  ultimately show ?thesis by auto
qed

section \<open>The claims\<close>

text \<open>
  C1 (as amended). When the add, the address or the link-up command of a tunnel fails,
  the tunnel phase returns that error at once, in the state the failed command has
  left. If the phase has passed the specs \<open>pre\<close> without error and has come to the
  create of \<open>t\<close> (in \<^verbatim>\<open>main.go\<close> after the delete, in the listing of the README after
  the probe and the delete it may ask for), and the first of the three commands to fail
  fails with \<open>e\<close>, then the phase on \<open>pre @ t # post\<close> returns \<open>e\<close> in the state right
  after that command, whatever \<open>post\<close> is: nothing is issued or logged for \<open>post\<close>.
\<close>

theorem C1_tunnel_failure_aborts:
  "(tunnelsLoop env pre s = Returns None s1 \<and> tunnelDelete env t s1 = Returns () s2 \<and>
    issue env (tunnel_add t) s2 = (Some e, s3) \<longrightarrow>
      tunnelsLoop env (pre @ t # post) s = Returns (Some e) s3) \<and>
   (tunnelsLoop env pre s = Returns None s1 \<and> tunnelDelete env t s1 = Returns () s2 \<and>
    issue env (tunnel_add t) s2 = (None, s3) \<and> issue env (tunnel_addr t) s3 = (Some e, s4) \<longrightarrow>
      tunnelsLoop env (pre @ t # post) s = Returns (Some e) s4) \<and>
   (tunnelsLoop env pre s = Returns None s1 \<and> tunnelDelete env t s1 = Returns () s2 \<and>
    issue env (tunnel_add t) s2 = (None, s3) \<and> issue env (tunnel_addr t) s3 = (None, s4) \<and>
    issue env (tunnel_up t) s4 = (Some e, s5) \<longrightarrow>
      tunnelsLoop env (pre @ t # post) s = Returns (Some e) s5) \<and>
   (tunnelsLoop_R env pre s = (None, s1) \<and>
    issue_R env (tunnel_add t) (tunnelDelete_R env t s1) = ((out, Some e), s3) \<longrightarrow>
      tunnelsLoop_R env (pre @ t # post) s = (Some e, s3)) \<and>
   (tunnelsLoop_R env pre s = (None, s1) \<and>
    issue_R env (tunnel_add t) (tunnelDelete_R env t s1) = ((out, None), s3) \<and>
    issue_R env (tunnel_addr t) s3 = ((out', Some e), s4) \<longrightarrow>
      tunnelsLoop_R env (pre @ t # post) s = (Some e, s4)) \<and>
   (tunnelsLoop_R env pre s = (None, s1) \<and>
    issue_R env (tunnel_add t) (tunnelDelete_R env t s1) = ((out, None), s3) \<and>
    issue_R env (tunnel_addr t) s3 = ((out', None), s4) \<and>
    issue_R env (tunnel_up t) s4 = ((out'', Some e), s5) \<longrightarrow>
      tunnelsLoop_R env (pre @ t # post) s = (Some e, s5))"
proof (intro conjI impI)
  assume "tunnelsLoop env pre s = Returns None s1 \<and> tunnelDelete env t s1 = Returns () s2 \<and>
    issue env (tunnel_add t) s2 = (Some e, s3)"
  then show "tunnelsLoop env (pre @ t # post) s = Returns (Some e) s3"
    by (intro tunnelsLoop_fails [of env pre s s1 t "()" s2]) (simp_all add: tunnelCreate_add_fails)
next
  assume "tunnelsLoop env pre s = Returns None s1 \<and> tunnelDelete env t s1 = Returns () s2 \<and>
    issue env (tunnel_add t) s2 = (None, s3) \<and> issue env (tunnel_addr t) s3 = (Some e, s4)"
  then show "tunnelsLoop env (pre @ t # post) s = Returns (Some e) s4"
    by (intro tunnelsLoop_fails [of env pre s s1 t "()" s2])
      (simp_all add: tunnelCreate_addr_fails [of env t s2 s3])
next
  assume "tunnelsLoop env pre s = Returns None s1 \<and> tunnelDelete env t s1 = Returns () s2 \<and>
    issue env (tunnel_add t) s2 = (None, s3) \<and> issue env (tunnel_addr t) s3 = (None, s4) \<and>
    issue env (tunnel_up t) s4 = (Some e, s5)"
  then show "tunnelsLoop env (pre @ t # post) s = Returns (Some e) s5"
    by (intro tunnelsLoop_fails [of env pre s s1 t "()" s2])
      (simp_all add: tunnelCreate_up_fails [of env t s2 s3 s4])
next
  assume "tunnelsLoop_R env pre s = (None, s1) \<and>
    issue_R env (tunnel_add t) (tunnelDelete_R env t s1) = ((out, Some e), s3)"
  then show "tunnelsLoop_R env (pre @ t # post) s = (Some e, s3)"
    by (intro tunnelsLoop_R_fails [of env pre s s1]) (simp_all add: tunnelCreate_R_add_fails)
next
  assume "tunnelsLoop_R env pre s = (None, s1) \<and>
    issue_R env (tunnel_add t) (tunnelDelete_R env t s1) = ((out, None), s3) \<and>
    issue_R env (tunnel_addr t) s3 = ((out', Some e), s4)"
  then show "tunnelsLoop_R env (pre @ t # post) s = (Some e, s4)"
    by (intro tunnelsLoop_R_fails [of env pre s s1])
      (simp_all add: tunnelCreate_R_addr_fails [of env t _ out s3 out'])
next
  assume "tunnelsLoop_R env pre s = (None, s1) \<and>
    issue_R env (tunnel_add t) (tunnelDelete_R env t s1) = ((out, None), s3) \<and>
    issue_R env (tunnel_addr t) s3 = ((out', None), s4) \<and>
    issue_R env (tunnel_up t) s4 = ((out'', Some e), s5)"
  then show "tunnelsLoop_R env (pre @ t # post) s = (Some e, s5)"
    by (intro tunnelsLoop_R_fails [of env pre s s1])
      (simp_all add: tunnelCreate_R_up_fails [of env t _ out s3 out' s4 out''])
qed

theorem C1_witness:
  "(let env = plainEnv (onlyFails (tunnel_add gre2));
        s1 = state_of (tunnelsLoop env [gre1] (initial ()));
        s2 = state_of (tunnelDelete env gre2 s1);
        s3 = snd (issue env (tunnel_add gre2) s2)
    in tunnelsLoop env [gre1] (initial ()) = Returns None s1 \<and>
       tunnelDelete env gre2 s1 = Returns () s2 \<and>
       issue env (tunnel_add gre2) s2 = (Some ''exit status 2'', s3) \<and>
       tunnelsLoop env ([gre1] @ gre2 # [gre3]) (initial ()) = Returns (Some ''exit status 2'') s3) \<and>
   (let env = plainEnv (onlyFails (tunnel_addr gre2));
        s1 = state_of (tunnelsLoop env [gre1] (initial ()));
        s2 = state_of (tunnelDelete env gre2 s1);
        s3 = snd (issue env (tunnel_add gre2) s2);
        s4 = snd (issue env (tunnel_addr gre2) s3)
    in tunnelsLoop env [gre1] (initial ()) = Returns None s1 \<and>
       tunnelDelete env gre2 s1 = Returns () s2 \<and>
       issue env (tunnel_add gre2) s2 = (None, s3) \<and>
       issue env (tunnel_addr gre2) s3 = (Some ''exit status 2'', s4) \<and>
       tunnelsLoop env ([gre1] @ gre2 # [gre3]) (initial ()) = Returns (Some ''exit status 2'') s4) \<and>
   (let env = plainEnv (onlyFails (tunnel_up gre2));
        s1 = state_of (tunnelsLoop env [gre1] (initial ()));
        s2 = state_of (tunnelDelete env gre2 s1);
        s3 = snd (issue env (tunnel_add gre2) s2);
        s4 = snd (issue env (tunnel_addr gre2) s3);
        s5 = snd (issue env (tunnel_up gre2) s4)
    in tunnelsLoop env [gre1] (initial ()) = Returns None s1 \<and>
       tunnelDelete env gre2 s1 = Returns () s2 \<and>
       issue env (tunnel_add gre2) s2 = (None, s3) \<and>
       issue env (tunnel_addr gre2) s3 = (None, s4) \<and>
       issue env (tunnel_up gre2) s4 = (Some ''exit status 2'', s5) \<and>
       tunnelsLoop env ([gre1] @ gre2 # [gre3]) (initial ()) = Returns (Some ''exit status 2'') s5) \<and>
   (let env = plainEnv (onlyFails (tunnel_add gre2));
        s1 = snd (tunnelsLoop_R env [gre1] (initial ()));
        s3 = snd (issue_R env (tunnel_add gre2) (tunnelDelete_R env gre2 s1))
    in tunnelsLoop_R env [gre1] (initial ()) = (None, s1) \<and>
       issue_R env (tunnel_add gre2) (tunnelDelete_R env gre2 s1) = (([], Some ''exit status 2''), s3) \<and>
       tunnelsLoop_R env ([gre1] @ gre2 # [gre3]) (initial ()) = (Some ''exit status 2'', s3)) \<and>
   (let env = plainEnv (onlyFails (tunnel_addr gre2));
        s1 = snd (tunnelsLoop_R env [gre1] (initial ()));
        s3 = snd (issue_R env (tunnel_add gre2) (tunnelDelete_R env gre2 s1));
        s4 = snd (issue_R env (tunnel_addr gre2) s3)
    in tunnelsLoop_R env [gre1] (initial ()) = (None, s1) \<and>
       issue_R env (tunnel_add gre2) (tunnelDelete_R env gre2 s1) = (([], None), s3) \<and>
       issue_R env (tunnel_addr gre2) s3 = (([], Some ''exit status 2''), s4) \<and>
       tunnelsLoop_R env ([gre1] @ gre2 # [gre3]) (initial ()) = (Some ''exit status 2'', s4)) \<and>
   (let env = plainEnv (onlyFails (tunnel_up gre2));
        s1 = snd (tunnelsLoop_R env [gre1] (initial ()));
        s3 = snd (issue_R env (tunnel_add gre2) (tunnelDelete_R env gre2 s1));
        s4 = snd (issue_R env (tunnel_addr gre2) s3);
        s5 = snd (issue_R env (tunnel_up gre2) s4)
    in tunnelsLoop_R env [gre1] (initial ()) = (None, s1) \<and>
       issue_R env (tunnel_add gre2) (tunnelDelete_R env gre2 s1) = (([], None), s3) \<and>
       issue_R env (tunnel_addr gre2) s3 = (([], None), s4) \<and>
       issue_R env (tunnel_up gre2) s4 = (([], Some ''exit status 2''), s5) \<and>
       tunnelsLoop_R env ([gre1] @ gre2 # [gre3]) (initial ()) = (Some ''exit status 2'', s5))"
proof -
  note ev = eval_simps onlyFails_def issue_def issue_R_def
  let ?e = "''exit status 2''"
  let ?A = "plainEnv (onlyFails (tunnel_add gre2))"
  let ?B = "plainEnv (onlyFails (tunnel_addr gre2))"
  let ?C = "plainEnv (onlyFails (tunnel_up gre2))"
  let ?a1 = "state_of (tunnelsLoop ?A [gre1] (initial ()))"
  let ?a2 = "state_of (tunnelDelete ?A gre2 ?a1)"
  let ?a3 = "snd (issue ?A (tunnel_add gre2) ?a2)"
  let ?b1 = "state_of (tunnelsLoop ?B [gre1] (initial ()))"
  let ?b2 = "state_of (tunnelDelete ?B gre2 ?b1)"
  let ?b3 = "snd (issue ?B (tunnel_add gre2) ?b2)"
  let ?b4 = "snd (issue ?B (tunnel_addr gre2) ?b3)"
  let ?c1 = "state_of (tunnelsLoop ?C [gre1] (initial ()))"
  let ?c2 = "state_of (tunnelDelete ?C gre2 ?c1)"
  let ?c3 = "snd (issue ?C (tunnel_add gre2) ?c2)"
  let ?c4 = "snd (issue ?C (tunnel_addr gre2) ?c3)"
  let ?c5 = "snd (issue ?C (tunnel_up gre2) ?c4)"
  let ?d1 = "snd (tunnelsLoop_R ?A [gre1] (initial ()))"
  let ?d3 = "snd (issue_R ?A (tunnel_add gre2) (tunnelDelete_R ?A gre2 ?d1))"
  let ?f1 = "snd (tunnelsLoop_R ?B [gre1] (initial ()))"
  let ?f3 = "snd (issue_R ?B (tunnel_add gre2) (tunnelDelete_R ?B gre2 ?f1))"
  let ?f4 = "snd (issue_R ?B (tunnel_addr gre2) ?f3)"
  let ?g1 = "snd (tunnelsLoop_R ?C [gre1] (initial ()))"
  let ?g3 = "snd (issue_R ?C (tunnel_add gre2) (tunnelDelete_R ?C gre2 ?g1))"
  let ?g4 = "snd (issue_R ?C (tunnel_addr gre2) ?g3)"
  let ?g5 = "snd (issue_R ?C (tunnel_up gre2) ?g4)"
  have a: "tunnelsLoop ?A [gre1] (initial ()) = Returns None ?a1 \<and>
      tunnelDelete ?A gre2 ?a1 = Returns () ?a2 \<and>
      issue ?A (tunnel_add gre2) ?a2 = (Some ?e, ?a3)"
    by (simp add: ev)
  have b: "tunnelsLoop ?B [gre1] (initial ()) = Returns None ?b1 \<and>
      tunnelDelete ?B gre2 ?b1 = Returns () ?b2 \<and>
      issue ?B (tunnel_add gre2) ?b2 = (None, ?b3) \<and>
      issue ?B (tunnel_addr gre2) ?b3 = (Some ?e, ?b4)"
    by (simp add: ev)
  have c: "tunnelsLoop ?C [gre1] (initial ()) = Returns None ?c1 \<and>
      tunnelDelete ?C gre2 ?c1 = Returns () ?c2 \<and>
      issue ?C (tunnel_add gre2) ?c2 = (None, ?c3) \<and>
      issue ?C (tunnel_addr gre2) ?c3 = (None, ?c4) \<and>
      issue ?C (tunnel_up gre2) ?c4 = (Some ?e, ?c5)"
    by (simp add: ev)
  have d: "tunnelsLoop_R ?A [gre1] (initial ()) = (None, ?d1) \<and>
      issue_R ?A (tunnel_add gre2) (tunnelDelete_R ?A gre2 ?d1) = (([], Some ?e), ?d3)"
    by (simp add: ev)
  have f: "tunnelsLoop_R ?B [gre1] (initial ()) = (None, ?f1) \<and>
      issue_R ?B (tunnel_add gre2) (tunnelDelete_R ?B gre2 ?f1) = (([], None), ?f3) \<and>
      issue_R ?B (tunnel_addr gre2) ?f3 = (([], Some ?e), ?f4)"
    by (simp add: ev)
  have g: "tunnelsLoop_R ?C [gre1] (initial ()) = (None, ?g1) \<and>
      issue_R ?C (tunnel_add gre2) (tunnelDelete_R ?C gre2 ?g1) = (([], None), ?g3) \<and>
      issue_R ?C (tunnel_addr gre2) ?g3 = (([], None), ?g4) \<and>
      issue_R ?C (tunnel_up gre2) ?g4 = (([], Some ?e), ?g5)"
    by (simp add: ev)
  have A: "tunnelsLoop ?A ([gre1] @ gre2 # [gre3]) (initial ()) = Returns (Some ?e) ?a3"
    using C1_tunnel_failure_aborts
      [where env = ?A and pre = "[gre1]" and s = "initial ()" and ?s1.0 = ?a1 and t = gre2
         and ?s2.0 = ?a2 and e = ?e and ?s3.0 = ?a3 and post = "[gre3]"] a
    by blast
  have B: "tunnelsLoop ?B ([gre1] @ gre2 # [gre3]) (initial ()) = Returns (Some ?e) ?b4"
    using C1_tunnel_failure_aborts
      [where env = ?B and pre = "[gre1]" and s = "initial ()" and ?s1.0 = ?b1 and t = gre2
         and ?s2.0 = ?b2 and e = ?e and ?s3.0 = ?b3 and ?s4.0 = ?b4 and post = "[gre3]"] b
    by blast
  have C: "tunnelsLoop ?C ([gre1] @ gre2 # [gre3]) (initial ()) = Returns (Some ?e) ?c5"
    using C1_tunnel_failure_aborts
      [where env = ?C and pre = "[gre1]" and s = "initial ()" and ?s1.0 = ?c1 and t = gre2
         and ?s2.0 = ?c2 and e = ?e and ?s3.0 = ?c3 and ?s4.0 = ?c4 and ?s5.0 = ?c5
         and post = "[gre3]"] c
    by blast
  have D: "tunnelsLoop_R ?A ([gre1] @ gre2 # [gre3]) (initial ()) = (Some ?e, ?d3)"
    using C1_tunnel_failure_aborts
      [where env = ?A and pre = "[gre1]" and s = "initial ()" and ?s1.0 = ?d1 and t = gre2
         and e = ?e and ?s3.0 = ?d3 and post = "[gre3]" and out = "[]"] d
    by blast
  have F: "tunnelsLoop_R ?B ([gre1] @ gre2 # [gre3]) (initial ()) = (Some ?e, ?f4)"
    using C1_tunnel_failure_aborts
      [where env = ?B and pre = "[gre1]" and s = "initial ()" and ?s1.0 = ?f1 and t = gre2
         and e = ?e and ?s3.0 = ?f3 and ?s4.0 = ?f4 and post = "[gre3]" and out = "[]"
         and out' = "[]"] f
    by blast
  have G: "tunnelsLoop_R ?C ([gre1] @ gre2 # [gre3]) (initial ()) = (Some ?e, ?g5)"
    using C1_tunnel_failure_aborts
      [where env = ?C and pre = "[gre1]" and s = "initial ()" and ?s1.0 = ?g1 and t = gre2
         and e = ?e and ?s3.0 = ?g3 and ?s4.0 = ?g4 and ?s5.0 = ?g5 and post = "[gre3]"
         and out = "[]" and out' = "[]" and out'' = "[]"] g
    by blast
  from a b c d f g A B C D F G show ?thesis
    unfolding Let_def by blast
qed

theorem C1_counterexample:
  "tunnelsLoop (plainEnv (onlyFails (tunnel_add gre2))) [gre1, gre2, gre3] (initial ()) =
     Returns (Some ''exit status 2'')
       (state_of (tunnelsLoop (plainEnv (onlyFails (tunnel_add gre2))) [gre1, gre2, gre3] (initial ()))) \<and>
   trace (state_of (tunnelsLoop (plainEnv (onlyFails (tunnel_add gre2))) [gre1, gre2, gre3] (initial ()))) =
     [tunnel_del gre1, tunnel_add gre1, tunnel_addr gre1, tunnel_up gre1,
      tunnel_del gre2, tunnel_add gre2] \<and>
   fst (tunnelsLoop_R (plainEnv (onlyFails (tunnel_add gre2))) [gre1, gre2, gre3] (initial ())) =
     Some ''exit status 2'' \<and>
   trace (snd (tunnelsLoop_R (plainEnv (onlyFails (tunnel_add gre2))) [gre1, gre2, gre3] (initial ()))) =
     [tunnel_show, tunnel_add gre1, tunnel_addr gre1, tunnel_up gre1,
      tunnel_show, tunnel_add gre2]"
  by (simp add: eval_simps onlyFails_def)

text \<open>
  C2 (as amended). In a turn of the watch loop the stored fingerprint is replaced as
  soon as a different fingerprint has been computed, before the load: after the turn
  it is the new fingerprint whether the load succeeded or failed. So when the load
  failed, a later write event on a file with the same fingerprint changes nothing but
  the world: the load is not tried again. In \<^verbatim>\<open>main.go\<close> this is said of a turn
  that returns, the next turn being taken only then.
\<close>

theorem C2_fingerprint_set_before_load:
  "(op AND fsnotify_Write = fsnotify_Write \<and> ReadFile env p (world s) = ((data, None), w) \<and>
    EncodeToString (md5_Sum data) \<noteq> currentHash s \<longrightarrow>
      currentHash (state_of (watchEvent env p (Event op) s)) = EncodeToString (md5_Sum data) \<and>
      currentHash (watchEvent_R env p (Event op) s) = EncodeToString (md5_Sum data)) \<and>
   (op AND fsnotify_Write = fsnotify_Write \<and> ReadFile env p (world s) = ((data, None), w) \<and>
    EncodeToString (md5_Sum data) \<noteq> currentHash s \<and>
    fst (loadConfig env p (s\<lparr>world := w, currentHash := EncodeToString (md5_Sum data)\<rparr>)) = Some e \<and>
    watchEvent env p (Event op) s = Returns () s' \<and>
    ReadFile env p (world s') = ((data', None), w') \<and>
    EncodeToString (md5_Sum data') = EncodeToString (md5_Sum data) \<longrightarrow>
      trace s' = trace s \<and>
      watchEvent env p (Event op) s' = Returns () (s'\<lparr>world := w'\<rparr>)) \<and>
   (op AND fsnotify_Write = fsnotify_Write \<and> ReadFile env p (world s) = ((data, None), w) \<and>
    EncodeToString (md5_Sum data) \<noteq> currentHash s \<and>
    fst (loadConfig env p (s\<lparr>world := w, currentHash := EncodeToString (md5_Sum data)\<rparr>)) = Some e \<and>
    ReadFile env p (world (watchEvent_R env p (Event op) s)) = ((data', None), w') \<and>
    EncodeToString (md5_Sum data') = EncodeToString (md5_Sum data) \<longrightarrow>
      trace (watchEvent_R env p (Event op) s) = trace s \<and>
      watchEvent_R env p (Event op) (watchEvent_R env p (Event op) s) =
        (watchEvent_R env p (Event op) s)\<lparr>world := w'\<rparr>)"
proof (intro conjI impI)
  assume a: "op AND fsnotify_Write = fsnotify_Write \<and> ReadFile env p (world s) = ((data, None), w) \<and>
    EncodeToString (md5_Sum data) \<noteq> currentHash s"
  then show "currentHash (state_of (watchEvent env p (Event op) s)) = EncodeToString (md5_Sum data)"
    by (simp add: watchEvent_fingerprint)
  from a show "currentHash (watchEvent_R env p (Event op) s) = EncodeToString (md5_Sum data)"
    by (simp add: watchEvent_R_fingerprint)
next
  let ?h = "EncodeToString (md5_Sum data)"
  assume a: "op AND fsnotify_Write = fsnotify_Write \<and> ReadFile env p (world s) = ((data, None), w) \<and>
    ?h \<noteq> currentHash s \<and>
    fst (loadConfig env p (s\<lparr>world := w, currentHash := ?h\<rparr>)) = Some e \<and>
    watchEvent env p (Event op) s = Returns () s' \<and>
    ReadFile env p (world s') = ((data', None), w') \<and>
    EncodeToString (md5_Sum data') = ?h"
  then have 1: "op AND fsnotify_Write = fsnotify_Write" "ReadFile env p (world s) = ((data, None), w)"
    "?h \<noteq> currentHash s" by simp_all
  from a have r: "watchEvent env p (Event op) s = Returns () s'" by simp
  obtain s2 where l: "loadConfig env p (s\<lparr>world := w, currentHash := ?h\<rparr>) = (Some e, s2)"
    using a by (cases "loadConfig env p (s\<lparr>world := w, currentHash := ?h\<rparr>)") auto
  from loadConfig_frame [of env p "s\<lparr>world := w, currentHash := ?h\<rparr>"] l
  have "trace s2 = trace s" by simp
  moreover from watchEvent_changed [OF 1] l r
  have "logger_Printf (''Error loading config: '' @ e) s2 = Returns () s'" by simp
  from Printf_Returns [OF this] have "trace s' = trace s2" by simp
  ultimately show "trace s' = trace s" by simp
  from watchEvent_fingerprint [OF 1] r a
  have "EncodeToString (md5_Sum data') = currentHash s'" by simp
  with a show "watchEvent env p (Event op) s' = Returns () (s'\<lparr>world := w'\<rparr>)"
    by (simp add: watchEvent_unchanged)
next
  let ?h = "EncodeToString (md5_Sum data)"
  let ?s' = "watchEvent_R env p (Event op) s"
  assume a: "op AND fsnotify_Write = fsnotify_Write \<and> ReadFile env p (world s) = ((data, None), w) \<and>
    ?h \<noteq> currentHash s \<and>
    fst (loadConfig env p (s\<lparr>world := w, currentHash := ?h\<rparr>)) = Some e \<and>
    ReadFile env p (world ?s') = ((data', None), w') \<and>
    EncodeToString (md5_Sum data') = ?h"
  then have 1: "op AND fsnotify_Write = fsnotify_Write" "ReadFile env p (world s) = ((data, None), w)"
    "?h \<noteq> currentHash s" by simp_all
  obtain s2 where l: "loadConfig env p (s\<lparr>world := w, currentHash := ?h\<rparr>) = (Some e, s2)"
    using a by (cases "loadConfig env p (s\<lparr>world := w, currentHash := ?h\<rparr>)") auto
  from loadConfig_frame [of env p "s\<lparr>world := w, currentHash := ?h\<rparr>"] l
  have "trace s2 = trace s" by simp
  with watchEvent_R_changed [OF 1] l show "trace ?s' = trace s" by simp
  from watchEvent_R_fingerprint [OF 1] a
  have "EncodeToString (md5_Sum data') = currentHash ?s'" by simp
  with a show "watchEvent_R env p (Event op) ?s' = ?s'\<lparr>world := w'\<rparr>"
    by (simp add: watchEvent_R_unchanged)
qed

lemma broken_turn:
  "watchEvent brokenEnv p (Event fsnotify_Write) started = Returns () afterBad \<and>
   watchEvent_R brokenEnv p (Event fsnotify_Write) started = afterBad"
proof -
  let ?h = "EncodeToString (md5_Sum badFile)"
  have w: "fsnotify_Write AND fsnotify_Write = fsnotify_Write" by simp
  have r: "ReadFile brokenEnv p (world started) = ((badFile, None), ())"
    by (simp add: brokenEnv_def testEnv_def)
  have n: "?h \<noteq> currentHash started"
    by (simp add: started_def md5_badFile md5_smallFile)
  have l: "loadConfig brokenEnv p (started\<lparr>world := (), currentHash := ?h\<rparr>) =
      (Some ''yaml: found character that cannot start any token'', started\<lparr>currentHash := ?h\<rparr>)"
    by (simp add: loadConfig_def brokenEnv_def testEnv_def started_def)
  have q: "\<not> infoEnabled (logger started)" "logged started = []"
    by (simp_all add: started_def)
  have 1: "watchEvent brokenEnv p (Event fsnotify_Write) started = Returns () afterBad"
    using watchEvent_changed [OF w r n] by (simp add: l Printf_off q afterBad_def)
  have 2: "watchEvent_R brokenEnv p (Event fsnotify_Write) started = afterBad"
    using watchEvent_R_changed [OF w r n] by (simp add: l logger_Printf_R_def q afterBad_def)
  from 1 2 show ?thesis by simp
qed

theorem C2_witness:
  "fsnotify_Write AND fsnotify_Write = fsnotify_Write \<and>
   ReadFile brokenEnv ''/etc/krouter/config.yml'' (world started) = ((badFile, None), ()) \<and>
   EncodeToString (md5_Sum badFile) \<noteq> currentHash started \<and>
   fst (loadConfig brokenEnv ''/etc/krouter/config.yml''
          (started\<lparr>world := (), currentHash := EncodeToString (md5_Sum badFile)\<rparr>)) =
     Some ''yaml: found character that cannot start any token'' \<and>
   watchEvent brokenEnv ''/etc/krouter/config.yml'' (Event fsnotify_Write) started =
     Returns () afterBad \<and>
   watchEvent_R brokenEnv ''/etc/krouter/config.yml'' (Event fsnotify_Write) started = afterBad \<and>
   ReadFile brokenEnv ''/etc/krouter/config.yml'' (world afterBad) = ((badFile, None), ()) \<and>
   currentHash afterBad = EncodeToString (md5_Sum badFile) \<and>
   trace afterBad = trace started \<and>
   watchEvent brokenEnv ''/etc/krouter/config.yml'' (Event fsnotify_Write) afterBad =
     Returns () (afterBad\<lparr>world := ()\<rparr>) \<and>
   watchEvent_R brokenEnv ''/etc/krouter/config.yml'' (Event fsnotify_Write) afterBad =
     afterBad\<lparr>world := ()\<rparr>"
proof -
  let ?p = "''/etc/krouter/config.yml''"
  let ?h = "EncodeToString (md5_Sum badFile)"
  let ?e = "''yaml: found character that cannot start any token''"
  have w: "fsnotify_Write AND fsnotify_Write = fsnotify_Write" by simp
  have r: "ReadFile brokenEnv ?p x = ((badFile, None), ())" for x
    by (simp add: brokenEnv_def testEnv_def)
  have n: "?h \<noteq> currentHash started"
    by (simp add: started_def md5_badFile md5_smallFile)
  have l: "fst (loadConfig brokenEnv ?p (started\<lparr>world := (), currentHash := ?h\<rparr>)) = Some ?e"
    by (simp add: loadConfig_def brokenEnv_def testEnv_def)
  have h: "currentHash afterBad = ?h" by (simp add: afterBad_def)
  note t = broken_turn [of ?p]
  from C2_fingerprint_set_before_load
    [where op = fsnotify_Write and env = brokenEnv and p = ?p and s = started and data = badFile
       and w = "()" and e = ?e and s' = afterBad and data' = badFile and w' = "()"]
    w r n l t
  have "trace afterBad = trace started \<and>
      watchEvent brokenEnv ?p (Event fsnotify_Write) afterBad = Returns () (afterBad\<lparr>world := ()\<rparr>) \<and>
      watchEvent_R brokenEnv ?p (Event fsnotify_Write) afterBad = afterBad\<lparr>world := ()\<rparr>"
    by simp
  with w r n l h t show ?thesis by simp
qed

theorem C2_counterexample:
  "fst (loadConfig brokenEnv ''/etc/krouter/config.yml''
          (started\<lparr>currentHash := EncodeToString (md5_Sum badFile)\<rparr>)) =
     Some ''yaml: found character that cannot start any token'' \<and>
   watchEvent brokenEnv ''/etc/krouter/config.yml'' (Event fsnotify_Write) started =
     Returns () afterBad \<and>
   watchEvent_R brokenEnv ''/etc/krouter/config.yml'' (Event fsnotify_Write) started = afterBad \<and>
   logged afterBad = [''Error loading config: yaml: found character that cannot start any token''] \<and>
   currentHash afterBad \<noteq> currentHash started \<and>
   watchEvent brokenEnv ''/etc/krouter/config.yml'' (Event fsnotify_Write) afterBad =
     Returns () afterBad \<and>
   watchEvent_R brokenEnv ''/etc/krouter/config.yml'' (Event fsnotify_Write) afterBad = afterBad"
proof -
  let ?p = "''/etc/krouter/config.yml''"
  let ?h = "EncodeToString (md5_Sum badFile)"
  have w: "fsnotify_Write AND fsnotify_Write = fsnotify_Write" by simp
  have r: "ReadFile brokenEnv ?p (world afterBad) = ((badFile, None), ())"
    by (simp add: brokenEnv_def testEnv_def)
  have e: "?h = currentHash afterBad" by (simp add: afterBad_def)
  have n: "currentHash afterBad \<noteq> currentHash started"
    by (simp add: afterBad_def started_def md5_badFile md5_smallFile)
  have l: "fst (loadConfig brokenEnv ?p (started\<lparr>currentHash := ?h\<rparr>)) =
      Some ''yaml: found character that cannot start any token''"
    by (simp add: loadConfig_def brokenEnv_def testEnv_def)
  have 3: "watchEvent brokenEnv ?p (Event fsnotify_Write) afterBad = Returns () afterBad"
    using watchEvent_unchanged [OF w r e] by simp
  have 4: "watchEvent_R brokenEnv ?p (Event fsnotify_Write) afterBad = afterBad"
    using watchEvent_R_unchanged [OF w r e] by simp
  from broken_turn [of ?p] l n 3 4 show ?thesis by (simp add: afterBad_def)
qed

text \<open>
  C3 (as amended). In the listing of the README, the step of a static route issues the
  probe \<open>ip route show\<close> and then the route-add exactly when \<open>routeExists\<close> answers
  false; a route found present gets no other command; every route of the list gets its
  step, in order. In \<^verbatim>\<open>main.go\<close> there is no probe: the step of a route issues the
  route-add, whatever the routing table holds, and with info logging off the phase
  returns nil after the route-add of every route of the list, in order.
\<close>

theorem C3_static_route_add:
  "trace (staticStep_R env r s) =
     trace s @ route_show #
       (if fst (routeExists env (Destination r) (Gateway r) s) then [] else [route_add r]) \<and>
   (\<exists>ps. length ps = length rs \<and>
      trace (snd (staticLoop_R env rs s)) =
        trace s @ concat (map2 (\<lambda>p r. route_show # (if p then [] else [route_add r])) ps rs)) \<and>
   trace (state_of (staticStep env r s)) = trace s @ [route_add r] \<and>
   (\<not> infoEnabled (logger s) \<longrightarrow>
      (\<exists>s'. staticLoop env rs s = Returns None s' \<and> trace s' = trace s @ map route_add rs))"
  using staticStep_R_trace [of env r s] staticLoop_R_trace [of rs env s]
    staticStep_trace [of env r s] staticLoop_off_trace [of s env rs]
  by blast

theorem C3_witness:
  "\<not> infoEnabled (logger (initial ())) \<and>
   (\<exists>s'. staticLoop (plainEnv routePresent) [route1, route2] (initial ()) = Returns None s' \<and>
         trace s' = trace (initial ()) @ map route_add [route1, route2])"
proof -
  have "\<not> infoEnabled (logger (initial ()))" by (simp add: initial_def)
  with C3_static_route_add [of "plainEnv routePresent" route1 "initial ()" "[route1, route2]"]
  show ?thesis by blast
qed

theorem C3_counterexample:
  "fst (routeExists (plainEnv routePresent) (Destination route1) (Gateway route1) (initial ())) \<and>
   staticLoop (plainEnv routePresent) [route1] (initial ()) =
     Returns None (state_of (staticLoop (plainEnv routePresent) [route1] (initial ()))) \<and>
   trace (state_of (staticLoop (plainEnv routePresent) [route1] (initial ()))) = [route_add route1]"
  by (simp add: eval_simps routePresent_def)

text \<open>
  C4. In every reconciliation pass, at startup (\<open>main\<close> before any event) and in a
  turn of the watch loop, the commands issued come in three blocks: tunnel operations,
  then static-route operations, then ECMP operations; no command belongs to two of the
  phases. This holds for \<^verbatim>\<open>main.go\<close>, whether the pass returns or not, and for the
  listing in the README.
\<close>

theorem C4_phases_in_order:
  "(\<exists>a b c. trace (state_of (watchEvent env p ev s)) = trace s @ a @ b @ c \<and>
       list_all isTunnelOp a \<and> list_all isStaticOp b \<and> list_all isECMPOp c) \<and>
   (\<exists>a b c. trace (watchEvent_R env p ev s) = trace s @ a @ b @ c \<and>
       list_all isTunnelOp a \<and> list_all isStaticOp b \<and> list_all isECMPOp c) \<and>
   (\<exists>a b c. trace (final (main env [] w)) = a @ b @ c \<and>
       list_all isTunnelOp a \<and> list_all isStaticOp b \<and> list_all isECMPOp c) \<and>
   (\<exists>a b c. trace (final (main_R env [] w)) = a @ b @ c \<and>
       list_all isTunnelOp a \<and> list_all isStaticOp b \<and> list_all isECMPOp c) \<and>
   (\<forall>c. \<not> (isTunnelOp c \<and> isStaticOp c) \<and> \<not> (isTunnelOp c \<and> isECMPOp c) \<and>
        \<not> (isStaticOp c \<and> isECMPOp c))"
  using watchEvent_blocks [of env p ev s] watchEvent_R_blocks [of env p ev s]
    main_blocks [of env w] main_R_blocks [of env w] phases_disjoint
  by blast




text \<open>
  C6. The argument list built for an ECMP route is \<open>route add\<close>, the route selector,
  \<open>proto static scope global\<close>, \<open>table\<close> and the table name, followed for each
  nexthop, in the order of the spec, by \<open>nexthop dev D via V weight W\<close>. It is handed to
  \<open>ip\<close> in one command: the only command of the step in \<^verbatim>\<open>main.go\<close>, and the only
  one after the probe, when the probe answers false, in the listing of the README.
\<close>

theorem C6_ecmp_command:
  "ecmpArgs e =
     [''route'', ''add'', Route e, ''proto'', ''static'', ''scope'', ''global'', ''table'', Table e]
       @ concat (map (\<lambda>nh. [''nexthop'', ''dev'', Dev nh, ''via'', Via nh,
                              ''weight'', Itoa (sint (Weight nh))]) (Nexthops e)) \<and>
   trace (state_of (ecmpStep env e s)) = trace s @ [''ip'' # ecmpArgs e] \<and>
   trace (ecmpStep_R env e s) =
     trace s @ ecmp_show e #
       (if fst (ecmpRouteExists env (Route e) (Table e) s) then [] else [''ip'' # ecmpArgs e])"
  using nexthopArgs_concat [of "Nexthops e"] ecmpStep_trace [of env e s] ecmpStep_R_trace [of env e s]
  by (simp add: ecmpArgs_ecmp_add ecmp_add_def ecmpArgs_def nexthop_words_def [abs_def])

lemma ecmp1_command:
  "ecmpArgs ecmp1 =
     [''route'', ''add'', ''default'', ''proto'', ''static'', ''scope'', ''global'', ''table'', ''GRE'',
      ''nexthop'', ''dev'', ''gre1'', ''via'', ''10.0.40.5'', ''weight'', ''1'',
      ''nexthop'', ''dev'', ''gre2'', ''via'', ''10.0.41.5'', ''weight'', ''1'']"
  by (simp add: ecmpArgs_def nexthopArgs_def ecmp1_def Itoa_def natDigits.simps)

lemma Itoa_examples: "Itoa 0 = ''0'' \<and> Itoa 10 = ''10'' \<and> Itoa 255 = ''255'' \<and> Itoa (- 42) = ''-42''"
  by (simp add: Itoa_def natDigits.simps)

text \<open>
  C7. \<open>routeExists\<close> answers true exactly when the destination and the gateway each
  occur somewhere in the output of \<open>ip route show\<close>, wherever that is.
\<close>

theorem C7_routeExists_substrings:
  "fst (routeExists env destination gateway s) =
     ((\<exists>a b. fst (fst (Run env ''ip'' [''route'', ''show''] (world s))) = a @ destination @ b) \<and>
      (\<exists>a b. fst (fst (Run env ''ip'' [''route'', ''show''] (world s))) = a @ gateway @ b))"
  by (simp add: routeExists_fst Contains_iff)

lemma routeExists_across_lines:
  "fst (routeExists (plainEnv twoRoutes) ''192.168.2.0/24'' ''10.1.1.1'' (initial ()))"
  by (simp add: eval_simps twoRoutes_def)




text \<open>
  C9 (as amended). The tunnel step of \<^verbatim>\<open>main.go\<close> begins with the delete, and what
  it issues after it is an initial part of create, address, link-up; the create is
  issued, whatever the system holds, when the delete has succeeded or info logging is
  off. The step of the listing in the README begins with the probe \<open>ip tunnel show\<close>,
  issues the delete exactly when the probe finds the name, and then the create, whatever
  the system holds. After the create come the address and the link-up command, in that
  order, or only an initial part of the two. In a pass where the tunnel phase returns
  nil, every spec has got its whole sequence, in the order of the specs.
\<close>

theorem C9_tunnel_sequence:
  "(\<exists>cs. trace (state_of (tunnelStep env t s)) = trace s @ tunnel_del t # cs \<and>
         prefix cs [tunnel_add t, tunnel_addr t, tunnel_up t]) \<and>
   (fst (issue env (tunnel_del t) s) = None \<or> \<not> infoEnabled (logger s) \<longrightarrow>
      (\<exists>cs. trace (state_of (tunnelStep env t s)) = trace s @ tunnel_del t # tunnel_add t # cs \<and>
            prefix cs [tunnel_addr t, tunnel_up t])) \<and>
   (\<exists>cs. trace (snd (tunnelStep_R env t s)) =
           trace s @ tunnel_show # (if fst (tunnelExists env (Name t) s) then [tunnel_del t] else [])
             @ tunnel_add t # cs \<and>
         prefix cs [tunnel_addr t, tunnel_up t]) \<and>
   (tunnelsLoop env ts s = Returns None s' \<longrightarrow>
      trace s' = trace s @ concat (map tunnelOps ts)) \<and>
   (fst (tunnelsLoop_R env ts s) = None \<longrightarrow>
      (\<exists>ps. length ps = length ts \<and>
         trace (snd (tunnelsLoop_R env ts s)) = trace s @ concat (map2 tunnelOps_R ps ts)))"
proof -
  have 2: "\<exists>cs. trace (state_of (tunnelStep env t s)) = trace s @ tunnel_del t # tunnel_add t # cs \<and>
            prefix cs [tunnel_addr t, tunnel_up t]"
    if "fst (issue env (tunnel_del t) s) = None \<or> \<not> infoEnabled (logger s)"
  proof -
    from that have "\<exists>s1. tunnelDelete env t s = Returns () s1"
      using tunnelDelete_ok [of env t s] tunnelDelete_off [of s env t]
      by (auto simp: issue_def tunnel_del_def)
    then obtain s1 where "tunnelDelete env t s = Returns () s1" by blast
    from tunnelStep_add_trace [OF this] show ?thesis .
  qed
  from tunnelStep_del_trace [of env t s] 2 tunnelStep_R_trace [of env t s]
    tunnelsLoop_ok_trace [of env ts s s'] tunnelsLoop_R_ok_trace [of env ts s]
  show ?thesis by blast
qed

theorem C9_witness:
  "(fst (issue (plainEnv allSucceed) (tunnel_del gre1) (initial ())) = None \<or>
    \<not> infoEnabled (logger (initial ()))) \<and>
   (\<exists>cs. trace (state_of (tunnelStep (plainEnv allSucceed) gre1 (initial ()))) =
           trace (initial ()) @ tunnel_del gre1 # tunnel_add gre1 # cs \<and>
         prefix cs [tunnel_addr gre1, tunnel_up gre1]) \<and>
   tunnelsLoop (plainEnv allSucceed) [gre1, gre2] (initial ()) =
     Returns None (state_of (tunnelsLoop (plainEnv allSucceed) [gre1, gre2] (initial ()))) \<and>
   trace (state_of (tunnelsLoop (plainEnv allSucceed) [gre1, gre2] (initial ()))) =
     trace (initial ()) @ concat (map tunnelOps [gre1, gre2]) \<and>
   fst (tunnelsLoop_R (plainEnv allSucceed) [gre1, gre2] (initial ())) = None \<and>
   (\<exists>ps. length ps = length [gre1, gre2] \<and>
      trace (snd (tunnelsLoop_R (plainEnv allSucceed) [gre1, gre2] (initial ()))) =
        trace (initial ()) @ concat (map2 tunnelOps_R ps [gre1, gre2]))"
proof -
  have 0: "fst (issue (plainEnv allSucceed) (tunnel_del gre1) (initial ())) = None \<or>
      \<not> infoEnabled (logger (initial ()))"
    by (simp add: initial_def)
  have 1: "tunnelsLoop (plainEnv allSucceed) [gre1, gre2] (initial ()) =
      Returns None (state_of (tunnelsLoop (plainEnv allSucceed) [gre1, gre2] (initial ())))"
    by (simp add: eval_simps)
  have 2: "fst (tunnelsLoop_R (plainEnv allSucceed) [gre1, gre2] (initial ())) = None"
    by (simp add: eval_simps)
  from C9_tunnel_sequence [of "plainEnv allSucceed" gre1 "initial ()" "[gre1, gre2]"
      "state_of (tunnelsLoop (plainEnv allSucceed) [gre1, gre2] (initial ()))"] 0 1 2
  show ?thesis by blast
qed

theorem C9_counterexample:
  "trace (state_of (tunnelsLoop (plainEnv (onlyFails (tunnel_add gre1))) [gre1, gre2] (initial ()))) =
     [tunnel_del gre1, tunnel_add gre1] \<and>
   trace (snd (tunnelsLoop_R (plainEnv allSucceed) [gre1] (initial ()))) =
     [tunnel_show, tunnel_add gre1, tunnel_addr gre1, tunnel_up gre1]"
  by (simp add: eval_simps onlyFails_def)

text \<open>
  C10 (as amended). The three probes drop the error of their query and answer from the
  captured output alone. When the query leaves the output empty, as a failed query
  does, \<open>ecmpRouteExists\<close> answers false for every route, \<open>tunnelExists\<close> answers false
  for every name but the empty one, and \<open>routeExists\<close> answers false unless
  destination and gateway are both empty; the step then goes on as for an absent item:
  no delete before the tunnel's create, and the add for the route.
\<close>

theorem C10_failed_probe_reads_as_absent:
  "(Run env ''ip'' [''tunnel'', ''show''] (world s) = (([], err), w) \<and> Name t \<noteq> [] \<longrightarrow>
      \<not> fst (tunnelExists env (Name t) s) \<and>
      (\<exists>cs. trace (snd (tunnelStep_R env t s)) = trace s @ tunnel_show # tunnel_add t # cs)) \<and>
   (Run env ''ip'' [''route'', ''show''] (world s) = (([], err), w) \<and>
    (Destination r \<noteq> [] \<or> Gateway r \<noteq> []) \<longrightarrow>
      \<not> fst (routeExists env (Destination r) (Gateway r) s) \<and>
      trace (staticStep_R env r s) = trace s @ [route_show, route_add r]) \<and>
   (Run env ''ip'' [''route'', ''show'', ''table'', Table e] (world s) = (([], err), w) \<longrightarrow>
      \<not> fst (ecmpRouteExists env (Route e) (Table e) s) \<and>
      trace (ecmpStep_R env e s) = trace s @ [ecmp_show e, ecmp_add e])"
proof (intro conjI impI)
  assume a: "Run env ''ip'' [''tunnel'', ''show''] (world s) = (([], err), w) \<and> Name t \<noteq> []"
  then show "\<not> fst (tunnelExists env (Name t) s)"
    by (simp add: tunnelExists_fst)
  with tunnelStep_R_trace [of env t s]
  show "\<exists>cs. trace (snd (tunnelStep_R env t s)) = trace s @ tunnel_show # tunnel_add t # cs"
    by auto
next
  assume a: "Run env ''ip'' [''route'', ''show''] (world s) = (([], err), w) \<and>
    (Destination r \<noteq> [] \<or> Gateway r \<noteq> [])"
  then show "\<not> fst (routeExists env (Destination r) (Gateway r) s)"
    by (auto simp: routeExists_fst)
  then show "trace (staticStep_R env r s) = trace s @ [route_show, route_add r]"
    by (simp add: staticStep_R_trace)
next
  assume a: "Run env ''ip'' [''route'', ''show'', ''table'', Table e] (world s) = (([], err), w)"
  then show "\<not> fst (ecmpRouteExists env (Route e) (Table e) s)"
    by (simp add: ecmpRouteExists_fst ScanLines_empty)
  then show "trace (ecmpStep_R env e s) = trace s @ [ecmp_show e, ecmp_add e]"
    by (simp add: ecmpStep_R_trace)
qed

theorem C10_witness:
  "\<not> fst (tunnelExists (plainEnv allFail) (Name gre1) (initial ())) \<and>
   (\<exists>cs. trace (snd (tunnelStep_R (plainEnv allFail) gre1 (initial ()))) =
      trace (initial ()) @ tunnel_show # tunnel_add gre1 # cs) \<and>
   \<not> fst (routeExists (plainEnv allFail) (Destination route1) (Gateway route1) (initial ())) \<and>
   trace (staticStep_R (plainEnv allFail) route1 (initial ())) =
     trace (initial ()) @ [route_show, route_add route1] \<and>
   \<not> fst (ecmpRouteExists (plainEnv allFail) (Route ecmp1) (Table ecmp1) (initial ())) \<and>
   trace (ecmpStep_R (plainEnv allFail) ecmp1 (initial ())) =
     trace (initial ()) @ [ecmp_show ecmp1, ecmp_add ecmp1]"
proof -
  have 1: "Run (plainEnv allFail) ''ip'' [''tunnel'', ''show''] (world (initial ())) =
      (([], Some ''exit status 2''), ()) \<and> Name gre1 \<noteq> []"
    by (simp add: plainEnv_def testEnv_def allFail_def gre1_def)
  have 2: "Run (plainEnv allFail) ''ip'' [''route'', ''show''] (world (initial ())) =
      (([], Some ''exit status 2''), ()) \<and> (Destination route1 \<noteq> [] \<or> Gateway route1 \<noteq> [])"
    by (simp add: plainEnv_def testEnv_def allFail_def route1_def)
  have 3: "Run (plainEnv allFail) ''ip'' [''route'', ''show'', ''table'', Table ecmp1] (world (initial ())) =
      (([], Some ''exit status 2''), ())"
    by (simp add: plainEnv_def testEnv_def allFail_def)
  from C10_failed_probe_reads_as_absent
    [of "plainEnv allFail" "initial ()" "Some ''exit status 2''" "()" gre1 route1 ecmp1] 1 2 3
  show ?thesis by blast
qed

theorem C10_counterexample:
  "Run (plainEnv allFail) ''ip'' [''tunnel'', ''show''] (world (initial ())) = (([], Some ''exit status 2''), ()) \<and>
   fst (tunnelExists (plainEnv allFail) [] (initial ())) \<and>
   Run (plainEnv allFail) ''ip'' [''route'', ''show''] (world (initial ())) = (([], Some ''exit status 2''), ()) \<and>
   fst (routeExists (plainEnv allFail) [] [] (initial ()))"
  by (simp add: eval_simps allFail_def)

section \<open>Runs of the example\<close>

text \<open>
  The scenario of the specification: a pass on the example configuration, on a system
  where every command succeeds and the probes find nothing. In \<^verbatim>\<open>main.go\<close> the pass
  is started with info logging off.
\<close>

lemma example_pass:
  "reconcile (plainEnv allSucceed) ((initial ())\<lparr>config := exampleConfig\<rparr>) =
     Returns () (state_of (reconcile (plainEnv allSucceed) ((initial ())\<lparr>config := exampleConfig\<rparr>))) \<and>
   trace (state_of (reconcile (plainEnv allSucceed) ((initial ())\<lparr>config := exampleConfig\<rparr>))) =
     tunnelOps gre1 @ tunnelOps gre2 @ [route_add route1, route_add route2, ecmp_add ecmp1] \<and>
   trace (reconcile_R (plainEnv allSucceed) exampleState) =
     tunnelOps_R False gre1 @ tunnelOps_R False gre2 @
       [route_show, route_add route1, route_show, route_add route2, ecmp_show ecmp1, ecmp_add ecmp1]"
  by (simp add: reconcile_def reconcile_R_def setupGRETunnels_def setupStaticRoutes_def
        setupECMPRoutes_def setupGRETunnels_R_def setupStaticRoutes_R_def setupECMPRoutes_R_def
        exampleConfig_def exampleState_def eval_simps Let_def ScanLines_def
        ecmpArgs_ecmp_add [symmetric] ecmp1_def)

text \<open>
  A start on the example file, in which info logging is on: \<^verbatim>\<open>main.go\<close> stops in the
  log line of the first tunnel, the listing of the README reaches the watch loop.
\<close>

lemma example_start:
  "main (exampleEnv allSucceed) [] () =
     Blocked (exampleState\<lparr>trace := tunnelOps gre1, logged := [''Configured tunnel: gre1'']\<rparr>) \<and>
   fatal_of (main_R (exampleEnv allSucceed) [] ()) = None \<and>
   trace (final (main_R (exampleEnv allSucceed) [] ())) =
     tunnelOps_R False gre1 @ tunnelOps_R False gre2 @
       [route_show, route_add route1, route_show, route_add route2, ecmp_show ecmp1, ecmp_add ecmp1]"
  by (simp add: main_def main_R_def loadConfig_def initLogger_def getFileMD5_def
        watchConfigFile_R_def setupGRETunnels_def
        setupGRETunnels_R_def setupStaticRoutes_R_def setupECMPRoutes_R_def
        exampleEnv_def exampleConfig_def exampleState_def eval_simps Let_def ScanLines_def
        ecmpArgs_ecmp_add [symmetric] ecmp1_def)

text \<open>A start on \<open>smallFile\<close> reaches the watch loop in the state \<open>started\<close>.\<close>

lemma small_start:
  "main (smallEnv allSucceed) [] () = Watched started \<and>
   main_R (smallEnv allSucceed) [] () = Watched started"
  by (simp add: main_def main_R_def loadConfig_def initLogger_def getFileMD5_def
        watchConfigFile_def watchConfigFile_R_def setupGRETunnels_def setupStaticRoutes_def
        setupECMPRoutes_def setupGRETunnels_R_def setupStaticRoutes_R_def setupECMPRoutes_R_def
        smallEnv_def started_def zeroConfig_def testEnv_def initial_def Let_def)

text \<open>The fatal path of the tunnel phase at startup can be taken.\<close>

lemma main_tunnel_failure_is_fatal:
  "fatal_of (main_R (exampleEnv (onlyFails (tunnel_add gre1))) [] ()) =
     Some (TunnelsFailed ''exit status 2'')"
  by (simp add: main_R_def loadConfig_def initLogger_def setupGRETunnels_R_def
        exampleEnv_def exampleConfig_def eval_simps onlyFails_def Let_def)

end
